(* ===== verification/Prelude.thy ===== *)
theory Prelude
  imports Main "HOL-Library.AList" "HOL-Library.Word"
begin

text \<open>
  What every component of the development shares: Go byte strings and the functions of package
  \<open>strings\<close> the code calls, results with an error or a panic, Go maps, and the
  fact collections the component proofs use.

  Conventions. A Go \<open>string\<close> or \<open>[]byte\<close> is a HOL \<open>string\<close>, a list of 8-bit
  characters, so \<open>[]byte(s)\<close> is the identity. An \<open>int\<close> of the code is an
  \<open>int\<close> unless its width matters, then it is a word. An absolute time or a duration is an
  \<open>int\<close> count of nanoseconds, as in package \<open>time\<close>. A pointer that may be nil is an option.
\<close>

section \<open>Fact collections\<close>

named_theorems wf_intros \<open>preservation of well-formedness and invariants\<close>
named_theorems go_results \<open>what an operation of the model returns, branch by branch\<close>

section \<open>Results\<close>

text \<open>
  A run-time panic of Go is a value: sending on a closed channel, closing a closed or a nil
  channel, dereferencing nil. A function of the code that may panic returns
  \<open>panic + 'a\<close>; the state that a panic leaves behind is not read by anyone, because the
  goroutine unwinds.
\<close>

datatype panic = SendOnClosed | CloseOfClosed | CloseOfNil | NilDereference

definition and_then :: "'e + 'a \<Rightarrow> ('a \<Rightarrow> 'e + 'b) \<Rightarrow> 'e + 'b" where
  "and_then r f = (case r of Inl e \<Rightarrow> Inl e | Inr x \<Rightarrow> f x)"

lemma and_then_simps [simp]:
  "and_then (Inl e) f = Inl e"
  "and_then (Inr x) f = f x"
  by (simp_all add: and_then_def)

lemma and_then_Inr: "and_then r f = Inr y \<longleftrightarrow> (\<exists>x. r = Inr x \<and> f x = Inr y)"
  by (cases r) simp_all

lemma and_then_Inl: "and_then r f = Inl e \<longleftrightarrow> r = Inl e \<or> (\<exists>x. r = Inr x \<and> f x = Inl e)"
  by (cases r) simp_all

definition ok :: "'e + 'a \<Rightarrow> bool" where
  "ok r = (case r of Inl _ \<Rightarrow> False | Inr _ \<Rightarrow> True)"

lemma ok_simps [simp]: "ok (Inl e) = False" "ok (Inr x) = True"
  by (simp_all add: ok_def)

lemma ok_iff: "ok r \<longleftrightarrow> (\<exists>x. r = Inr x)"
  by (cases r) simp_all

section \<open>Package strings\<close>

type_synonym bytes = string

fun has_prefix :: "string \<Rightarrow> string \<Rightarrow> bool" where
  "has_prefix s [] = True"
| "has_prefix [] (p # ps) = False"
| "has_prefix (c # s) (p # ps) = (c = p \<and> has_prefix s ps)"

lemma has_prefix_append [simp]: "has_prefix (p @ s) p"
  by (induction p) auto

lemma has_prefix_iff: "has_prefix s p \<longleftrightarrow> (\<exists>r. s = p @ r)"
  by (induction s p rule: has_prefix.induct) auto

lemma has_prefix_refl [simp]: "has_prefix p p"
  using has_prefix_append [of p "[]"] by simp

lemma has_prefix_drop: "has_prefix s p \<Longrightarrow> p @ drop (length p) s = s"
  by (auto simp: has_prefix_iff)

definition trim_prefix :: "string \<Rightarrow> string \<Rightarrow> string" where
  "trim_prefix s p = (if has_prefix s p then drop (length p) s else s)"

text \<open>\<open>strings.IndexByte\<close> and \<open>strings.LastIndexByte\<close>; the code's -1 is \<open>None\<close>.\<close>

fun index_byte :: "string \<Rightarrow> char \<Rightarrow> nat option" where
  "index_byte [] c = None"
| "index_byte (x # xs) c = (if x = c then Some 0 else map_option Suc (index_byte xs c))"

definition last_index_byte :: "string \<Rightarrow> char \<Rightarrow> nat option" where
  "last_index_byte s c = map_option (\<lambda>i. length s - Suc i) (index_byte (rev s) c)"

lemma index_byte_None [simp]: "index_byte s c = None \<longleftrightarrow> c \<notin> set s"
  by (induction s) auto

lemma index_byte_Some:
  "index_byte s c = Some i \<longleftrightarrow> (\<exists>t. s = take i s @ c # t \<and> c \<notin> set (take i s) \<and> i < length s)"
proof (induction s arbitrary: i)
  case (Cons x xs)
  show ?case
  proof (cases i)
    case 0
    then show ?thesis by auto
  next
    case (Suc j)
    with Cons.IH [of j] show ?thesis by auto
  qed
qed simp

lemma index_byte_append [simp]: "c \<notin> set p \<Longrightarrow> index_byte (p @ c # t) c = Some (length p)"
  by (induction p) auto

text \<open>\<open>strings.TrimRight(s, "/")\<close>: every trailing byte equal to the one in the cutset.\<close>

definition trim_right_byte :: "char \<Rightarrow> string \<Rightarrow> string" where
  "trim_right_byte c s = rev (dropWhile (\<lambda>x. x = c) (rev s))"

text \<open>\<open>strings.Split(s, sep)\<close> for a one-byte separator, and \<open>strings.Join\<close>.\<close>

fun split_byte :: "char \<Rightarrow> string \<Rightarrow> string list" where
  "split_byte c [] = [[]]"
| "split_byte c (x # xs) =
     (if x = c then [] # split_byte c xs
      else (case split_byte c xs of [] \<Rightarrow> [[x]] | y # ys \<Rightarrow> (x # y) # ys))"

fun join :: "string \<Rightarrow> string list \<Rightarrow> string" where
  "join sep [] = []"
| "join sep [x] = x"
| "join sep (x # y # ys) = x @ sep @ join sep (y # ys)"

lemma split_byte_not_Nil [simp]: "split_byte c s \<noteq> []"
  by (induction s) (auto split: list.splits)

lemma join_split_byte [simp]: "join [c] (split_byte c s) = s"
proof (induction s)
  case (Cons x xs)
  obtain y ys where s: "split_byte c xs = y # ys"
    by (cases "split_byte c xs") auto
  with Cons show ?case by (cases ys) auto
qed simp

lemma split_byte_no_sep: "l \<in> set (split_byte c s) \<Longrightarrow> c \<notin> set l"
  by (induction s arbitrary: l) (auto split: if_splits list.splits)

lemma split_byte_no_sep_line: "c \<notin> set l \<Longrightarrow> split_byte c l = [l]"
  by (induction l) auto

lemma split_byte_append: "c \<notin> set l \<Longrightarrow> split_byte c (l @ c # s) = l # split_byte c s"
  by (induction l) auto

lemma split_byte_join:
  "ls \<noteq> [] \<Longrightarrow> (\<And>l. l \<in> set ls \<Longrightarrow> c \<notin> set l) \<Longrightarrow> split_byte c (join [c] ls) = ls"
proof (induction "[c]" ls rule: join.induct)
  case (2 x)
  then show ?case by (simp add: split_byte_no_sep_line)
next
  case (3 x y ys)
  then show ?case by (simp add: split_byte_append)
qed simp

section \<open>Integers of a fixed width\<close>

text \<open>
  Go's integer division truncates towards zero. The model uses it on \<open>int64\<close> values given
  as \<open>int\<close>.
\<close>

definition go_div :: "int \<Rightarrow> int \<Rightarrow> int" where
  "go_div a b = sgn a * sgn b * (\<bar>a\<bar> div \<bar>b\<bar>)"

lemma go_div_nonneg [simp]: "0 \<le> a \<Longrightarrow> 0 < b \<Longrightarrow> go_div a b = a div b"
  by (cases "a = 0") (simp_all add: go_div_def sgn_if)

lemma go_div_neg: "a < 0 \<Longrightarrow> 0 < b \<Longrightarrow> go_div a b \<le> 0"
  by (simp add: go_div_def sgn_if pos_imp_zdiv_nonneg_iff)

text \<open>The value of an \<open>int64\<close> operation whose exact result is \<open>x\<close>.\<close>

definition wrap64 :: "int \<Rightarrow> int" where
  "wrap64 x = (x + 2 ^ 63) mod 2 ^ 64 - 2 ^ 63"

definition int64 :: "int \<Rightarrow> bool" where
  "int64 x \<longleftrightarrow> - (2 ^ 63) \<le> x \<and> x < 2 ^ 63"

lemma int64_wrap64 [simp]: "int64 (wrap64 x)"
  by (simp add: int64_def wrap64_def)

lemma wrap64_id: "int64 x \<Longrightarrow> wrap64 x = x"
  by (simp add: int64_def wrap64_def)

section \<open>Time\<close>

type_synonym time = int

abbreviation second :: time where "second \<equiv> 1000000000"
abbreviation millisecond :: time where "millisecond \<equiv> 1000000"
abbreviation minute :: time where "minute \<equiv> 60000000000"
abbreviation hour :: time where "hour \<equiv> 3600000000000"

end
