(* ===== verification/Containers.thy ===== *)
theory Containers
  imports Prelude
begin

text \<open>
  The two containers every component uses: Go maps, as association lists with distinct keys,
  and buffered channels used without blocking. Each has a locale that states what its clients
  rely on, with the lemmas the clients share, and is interpreted here on the model's operations.
  Packages registry, audit and server and the agent's pty.go and exec.go use them.
\<close>

section \<open>Maps\<close>

type_synonym ('k, 'v) gomap = "('k \<times> 'v) list"

definition gm_wf :: "('k, 'v) gomap \<Rightarrow> bool" where
  "gm_wf m = distinct (map fst m)"

definition gm_get :: "('k, 'v) gomap \<Rightarrow> 'k \<Rightarrow> 'v option" where
  "gm_get m k = map_of m k"

definition gm_set :: "'k \<Rightarrow> 'v \<Rightarrow> ('k, 'v) gomap \<Rightarrow> ('k, 'v) gomap" where
  "gm_set k v m = AList.update k v m"

definition gm_delete :: "'k \<Rightarrow> ('k, 'v) gomap \<Rightarrow> ('k, 'v) gomap" where
  "gm_delete k m = AList.delete k m"

definition gm_len :: "('k, 'v) gomap \<Rightarrow> nat" where
  "gm_len m = length m"

text \<open>
  What a client of a map relies on. The value of a key is what was stored last; the length
  counts the keys that have a value.
\<close>

locale keyed_table =
  fixes get :: "'t \<Rightarrow> 'k \<Rightarrow> 'v option"
    and put :: "'k \<Rightarrow> 'v \<Rightarrow> 't \<Rightarrow> 't"
    and del :: "'k \<Rightarrow> 't \<Rightarrow> 't"
    and size_of :: "'t \<Rightarrow> nat"
    and wf :: "'t \<Rightarrow> bool"
  assumes get_put: "get (put k v t) k' = (if k' = k then Some v else get t k')"
    and get_del: "get (del k t) k' = (if k' = k then None else get t k')"
    and wf_put: "wf t \<Longrightarrow> wf (put k v t)"
    and wf_del: "wf t \<Longrightarrow> wf (del k t)"
    and size_put: "wf t \<Longrightarrow> size_of (put k v t) = (if get t k = None then Suc (size_of t) else size_of t)"
    and size_del: "wf t \<Longrightarrow> size_of (del k t) = (if get t k = None then size_of t else size_of t - 1)"
    and size_pos: "wf t \<Longrightarrow> get t k \<noteq> None \<Longrightarrow> 0 < size_of t"
begin

lemma get_put_same: "get (put k v t) k = Some v"
  by (simp add: get_put)

lemma get_put_other: "k' \<noteq> k \<Longrightarrow> get (put k v t) k' = get t k'"
  by (simp add: get_put)

lemma get_del_same: "get (del k t) k = None"
  by (simp add: get_del)

lemma put_then_del: "get (del k (put k v t)) = get (del k t)"
  by (rule ext) (simp add: get_del get_put)

lemma del_absent: "get t k = None \<Longrightarrow> get (del k t) = get t"
  by (rule ext) (simp add: get_del)

lemma size_put_le: "wf t \<Longrightarrow> size_of (put k v t) \<le> Suc (size_of t)"
  by (simp add: size_put)

lemma size_del_le: "wf t \<Longrightarrow> size_of (del k t) \<le> size_of t"
  by (simp add: size_del)

lemma size_put_del:
  assumes "wf t" "get t k = None"
  shows "size_of (del k (put k v t)) = size_of t"
  using assms by (simp add: size_del wf_put get_put size_put)

end

lemma gm_wf_Nil [simp]: "gm_wf []"
  by (simp add: gm_wf_def)

lemma gm_get_Nil [simp]: "gm_get [] k = None"
  by (simp add: gm_get_def)

lemma gm_get_set [simp]: "gm_get (gm_set k v m) k' = (if k' = k then Some v else gm_get m k')"
  by (simp add: gm_get_def gm_set_def update_conv')

lemma gm_get_delete [simp]: "gm_get (gm_delete k m) k' = (if k' = k then None else gm_get m k')"
  by (simp add: gm_get_def gm_delete_def delete_conv')

lemma gm_wf_set [wf_intros]: "gm_wf m \<Longrightarrow> gm_wf (gm_set k v m)"
  by (simp add: gm_wf_def gm_set_def distinct_update)

lemma gm_wf_delete [wf_intros]: "gm_wf m \<Longrightarrow> gm_wf (gm_delete k m)"
  by (simp add: gm_wf_def gm_delete_def distinct_delete)

lemma gm_get_None_iff: "gm_get m k = None \<longleftrightarrow> k \<notin> fst ` set m"
  by (simp add: gm_get_def map_of_eq_None_iff)

lemma gm_get_mem: "gm_wf m \<Longrightarrow> gm_get m k = Some v \<longleftrightarrow> (k, v) \<in> set m"
  by (simp add: gm_wf_def gm_get_def)

lemma gm_len_update_in: "k \<in> fst ` set m \<Longrightarrow> length (AList.update k v m) = length m"
  by (induction m) auto

lemma gm_len_update_notin: "k \<notin> fst ` set m \<Longrightarrow> length (AList.update k v m) = Suc (length m)"
  by (induction m) auto

lemma gm_len_delete:
  "distinct (map fst m) \<Longrightarrow>
   length (AList.delete k m) = (if k \<in> fst ` set m then length m - 1 else length m)"
proof (induction m)
  case (Cons x m)
  then show ?case
    by (cases x, cases m) (auto simp: AList.delete_idem neq_Nil_conv)
qed simp

interpretation gomap: keyed_table gm_get gm_set gm_delete gm_len gm_wf
proof unfold_locales
  fix k :: 'a and v :: 'b and t :: "('a, 'b) gomap"
  assume "gm_wf t"
  then show "gm_len (gm_set k v t) = (if gm_get t k = None then Suc (gm_len t) else gm_len t)"
    by (simp add: gm_len_def gm_set_def gm_get_None_iff gm_len_update_in gm_len_update_notin)
next
  fix k :: 'a and t :: "('a, 'b) gomap"
  assume "gm_wf t"
  then show "gm_len (gm_delete k t) = (if gm_get t k = None then gm_len t else gm_len t - 1)"
    by (simp add: gm_len_def gm_delete_def gm_get_None_iff gm_len_delete gm_wf_def)
next
  fix k :: 'a and t :: "('a, 'b) gomap"
  assume "gm_get t k \<noteq> None"
  then show "0 < gm_len t" by (cases t) (simp_all add: gm_len_def)
qed (simp_all add: wf_intros)

section \<open>Channels\<close>

text \<open>
  A buffered channel. A send inside a \<open>select\<close> with a \<open>default\<close> branch never parks the goroutine: it
  stores the value, reports a full buffer, or panics on a closed channel (a closed channel makes
  the send case ready, and executing it panics, whatever the other branches). A plain send waits
  where this one reports a full buffer.
\<close>

record 'a chan =
  ch_buf :: "'a list"
  ch_cap :: nat
  ch_closed :: bool

definition make_chan :: "nat \<Rightarrow> 'a chan" where
  "make_chan n = \<lparr>ch_buf = [], ch_cap = n, ch_closed = False\<rparr>"

definition try_send :: "'a chan \<Rightarrow> 'a \<Rightarrow> panic + (bool \<times> 'a chan)" where
  "try_send c x =
     (if ch_closed c then Inl SendOnClosed
      else if length (ch_buf c) < ch_cap c then Inr (True, c\<lparr>ch_buf := ch_buf c @ [x]\<rparr>)
      else Inr (False, c))"

datatype 'a received = Value 'a | Drained | Empty

definition try_recv :: "'a chan \<Rightarrow> 'a received \<times> 'a chan" where
  "try_recv c =
     (case ch_buf c of
        x # xs \<Rightarrow> (Value x, c\<lparr>ch_buf := xs\<rparr>)
      | [] \<Rightarrow> (if ch_closed c then Drained else Empty, c))"

definition close_chan :: "'a chan \<Rightarrow> panic + 'a chan" where
  "close_chan c = (if ch_closed c then Inl CloseOfClosed else Inr (c\<lparr>ch_closed := True\<rparr>))"

definition chan_wf :: "'a chan \<Rightarrow> bool" where
  "chan_wf c \<longleftrightarrow> length (ch_buf c) \<le> ch_cap c"

lemma make_chan_simps [simp]:
  "ch_buf (make_chan n) = []" "ch_cap (make_chan n) = n" "\<not> ch_closed (make_chan n)"
  by (simp_all add: make_chan_def)

lemma chan_wf_make [simp]: "chan_wf (make_chan n)"
  by (simp add: chan_wf_def)

lemma try_send_Inr:
  "try_send c x = Inr (b, c') \<longleftrightarrow>
     \<not> ch_closed c \<and> b = (length (ch_buf c) < ch_cap c) \<and>
     c' = (if b then c\<lparr>ch_buf := ch_buf c @ [x]\<rparr> else c)"
  by (auto simp: try_send_def)

lemma try_send_Inl: "try_send c x = Inl e \<longleftrightarrow> ch_closed c \<and> e = SendOnClosed"
  by (auto simp: try_send_def)

lemma try_send_ok: "ok (try_send c x) \<longleftrightarrow> \<not> ch_closed c"
  by (simp add: try_send_def)

lemma close_chan_Inr: "close_chan c = Inr c' \<longleftrightarrow> \<not> ch_closed c \<and> c' = c\<lparr>ch_closed := True\<rparr>"
  by (auto simp: close_chan_def)

text \<open>
  What the owner of a bounded queue relies on when it offers values without blocking: a value is
  appended while there is room and dropped otherwise, the length never passes the capacity, and
  the order of arrival is kept. The registry's outbound channels, the audit queue and the
  operator sessions share this contract.
\<close>

locale drop_queue =
  fixes offer :: "'q \<Rightarrow> 'a \<Rightarrow> 'q"
    and content :: "'q \<Rightarrow> 'a list"
    and limit :: "'q \<Rightarrow> nat"
    and accepting :: "'q \<Rightarrow> bool"
  assumes offer_room:
      "accepting q \<Longrightarrow> length (content q) < limit q \<Longrightarrow> content (offer q x) = content q @ [x]"
    and offer_full: "accepting q \<Longrightarrow> limit q \<le> length (content q) \<Longrightarrow> content (offer q x) = content q"
    and offer_limit: "limit (offer q x) = limit q"
    and offer_accepting: "accepting q \<Longrightarrow> accepting (offer q x)"
begin

lemma offer_bounded:
  "accepting q \<Longrightarrow> length (content q) \<le> limit q \<Longrightarrow> length (content (offer q x)) \<le> limit q"
  by (cases "length (content q) < limit q") (simp_all add: offer_room offer_full)

lemma offers_limit: "limit (foldl offer q xs) = limit q"
  by (induction xs arbitrary: q) (simp_all add: offer_limit)

lemma offers_full:
  "accepting q \<Longrightarrow> limit q \<le> length (content q) \<Longrightarrow> content (foldl offer q xs) = content q"
  by (induction xs arbitrary: q) (simp_all add: offer_full offer_limit offer_accepting)

text \<open>A burst keeps the earliest values that fit, in order.\<close>

lemma offers_content:
  "accepting q \<Longrightarrow>
   content (foldl offer q xs) = content q @ take (limit q - length (content q)) xs"
proof (induction xs arbitrary: q)
  case (Cons x xs)
  show ?case
  proof (cases "length (content q) < limit q")
    case True
    then obtain n where n: "limit q - length (content q) = Suc n"
      by (cases "limit q - length (content q)") auto
    then have "limit q - Suc (length (content q)) = n" by simp
    with n True Cons.prems Cons.IH [of "offer q x"] show ?thesis
      by (simp add: offer_room offer_limit offer_accepting)
  next
    case False
    with Cons.prems show ?thesis using offers_full [of q "x # xs"] by simp
  qed
qed simp

lemma offers_bounded:
  "accepting q \<Longrightarrow> length (content q) \<le> limit q \<Longrightarrow> length (content (foldl offer q xs)) \<le> limit q"
  by (simp add: offers_content)

end

definition offer_chan :: "'a chan \<Rightarrow> 'a \<Rightarrow> 'a chan" where
  "offer_chan c x = (case try_send c x of Inr (b, c') \<Rightarrow> c' | Inl e \<Rightarrow> c)"

lemma offer_chan_open:
  "\<not> ch_closed c \<Longrightarrow> try_send c x = Inr (length (ch_buf c) < ch_cap c, offer_chan c x)"
  by (simp add: offer_chan_def try_send_def)

lemma offer_chan_closed [simp]: "ch_closed (offer_chan c x) = ch_closed c"
  by (simp add: offer_chan_def try_send_def)

interpretation open_chan: drop_queue offer_chan ch_buf ch_cap "\<lambda>c. \<not> ch_closed c"
  by unfold_locales (simp_all add: offer_chan_def try_send_def)

section \<open>Tables whose keys have one holder at a time\<close>

text \<open>
  What the session tables rely on (the router's \<open>attach\<close> and the agent's \<open>ptyRegistry.put\<close>): a
  claim of a held key is refused and changes nothing, a claim that succeeds makes the claimant the
  holder, only a release of the key ends that.
\<close>

datatype ('k, 'v) table_op = Claim 'k 'v | Release 'k

locale exclusive_table =
  fixes look :: "'t \<Rightarrow> 'k \<Rightarrow> 'v option"
    and claim :: "'k \<Rightarrow> 'v \<Rightarrow> 't \<Rightarrow> bool \<times> 't"
    and release :: "'k \<Rightarrow> 't \<Rightarrow> 't"
    and room :: "'t \<Rightarrow> bool"
  assumes claim_held: "look t k = Some w \<Longrightarrow> claim k v t = (False, t)"
    and claim_free: "look t k = None \<Longrightarrow> fst (claim k v t) = room t"
    and claim_got: "claim k v t = (True, t') \<Longrightarrow> look t' k' = (if k' = k then Some v else look t k')"
    and claim_refused: "claim k v t = (False, t') \<Longrightarrow> t' = t"
    and look_release: "look (release k t) k' = (if k' = k then None else look t k')"
begin

lemma claim_look: "look (snd (claim k v t)) k' = (if fst (claim k v t) \<and> k' = k then Some v else look t k')"
  using claim_got [of k v t] claim_refused [of k v t] by (cases "claim k v t"; cases "fst (claim k v t)") auto

lemma claim_wins_free: "fst (claim k v t) \<longleftrightarrow> look t k = None \<and> room t"
  by (cases "look t k") (simp_all add: claim_free claim_held)

lemma second_claim: "claim k v t = (True, t') \<Longrightarrow> claim k w t' = (False, t')"
  using claim_got claim_held by metis

lemma reclaim: "room (release k t) \<Longrightarrow> fst (claim k v (release k t))"
  by (simp add: claim_wins_free look_release)

text \<open>The holder of a key stays its holder through any operations that do not release the key.\<close>

lemma holder_stays:
  assumes "look t k = Some v" "Release k \<notin> set ops"
  shows "look (fold (\<lambda>op t. case op of Claim k v \<Rightarrow> snd (claim k v t) | Release k \<Rightarrow> release k t) ops t) k = Some v"
  using assms
proof (induction ops arbitrary: t)
  case (Cons op ops)
  then have "look (case op of Claim k v \<Rightarrow> snd (claim k v t) | Release k \<Rightarrow> release k t) k = Some v"
    by (cases op) (auto simp: claim_look claim_held look_release)
  with Cons show ?case by simp
qed simp

end

end
