(* ===== verification/Proto.thy ===== *)
theory Proto
  imports Containers
begin

text \<open>
  The wire protocol of \<open>internal/proto/frame.go\<close>: the frame types with their wire names, the
  payload structs and the envelope. A field keeps its Go name behind a prefix; a pointer payload
  is an option. \<open>FrameType\<close> is a string type in the code, so a frame may carry a name the
  protocol does not define: \<open>TypeOther\<close> holds those.
\<close>

section \<open>Frame types\<close>

definition Version :: int where "Version = 1"

datatype FrameType =
    TypeHello | TypePing | TypePong | TypeError | TypeBye
  | TypeRegister | TypeExecAck | TypeStdout | TypeStderr | TypeExit
  | TypeExec | TypeCancel
  | TypePtyStart | TypePtyData | TypePtyResize | TypePtyExit
  | TypeOther string

fun frame_type_name :: "FrameType \<Rightarrow> string" where
  "frame_type_name TypeHello = ''hello''"
| "frame_type_name TypePing = ''ping''"
| "frame_type_name TypePong = ''pong''"
| "frame_type_name TypeError = ''error''"
| "frame_type_name TypeBye = ''bye''"
| "frame_type_name TypeRegister = ''register''"
| "frame_type_name TypeExecAck = ''exec.ack''"
| "frame_type_name TypeStdout = ''stdout''"
| "frame_type_name TypeStderr = ''stderr''"
| "frame_type_name TypeExit = ''exit''"
| "frame_type_name TypeExec = ''exec''"
| "frame_type_name TypeCancel = ''cancel''"
| "frame_type_name TypePtyStart = ''pty.start''"
| "frame_type_name TypePtyData = ''pty.data''"
| "frame_type_name TypePtyResize = ''pty.resize''"
| "frame_type_name TypePtyExit = ''pty.exit''"
| "frame_type_name (TypeOther s) = s"

definition known_types :: "FrameType list" where
  "known_types =
     [TypeHello, TypePing, TypePong, TypeError, TypeBye,
      TypeRegister, TypeExecAck, TypeStdout, TypeStderr, TypeExit,
      TypeExec, TypeCancel, TypePtyStart, TypePtyData, TypePtyResize, TypePtyExit]"

definition frame_type_of :: "string \<Rightarrow> FrameType" where
  "frame_type_of s =
     (case map_of (map (\<lambda>t. (frame_type_name t, t)) known_types) s of
        Some t \<Rightarrow> t | None \<Rightarrow> TypeOther s)"

lemma known_types_distinct: "distinct (map frame_type_name known_types)"
  by (simp add: known_types_def)

lemma frame_type_of_known: "t \<in> set known_types \<Longrightarrow> frame_type_of (frame_type_name t) = t"
proof -
  assume t: "t \<in> set known_types"
  have "distinct (map fst (map (\<lambda>t. (frame_type_name t, t)) known_types))"
    using known_types_distinct by (simp add: comp_def)
  moreover have "(frame_type_name t, t) \<in> set (map (\<lambda>t. (frame_type_name t, t)) known_types)"
    using t by simp
  ultimately have "map_of (map (\<lambda>t. (frame_type_name t, t)) known_types) (frame_type_name t) = Some t"
    by (rule map_of_is_SomeI)
  then show ?thesis by (simp only: frame_type_of_def option.case)
qed

lemma frame_type_name_of: "frame_type_name (frame_type_of s) = s"
proof -
  have "frame_type_name t = s"
    if "map_of (map (\<lambda>t. (frame_type_name t, t)) known_types) s = Some t" for t
  proof -
    from map_of_SomeD [OF that]
    have "(s, t) \<in> (\<lambda>t. (frame_type_name t, t)) ` set known_types"
      by (simp only: set_map)
    then show ?thesis by blast
  qed
  then show ?thesis
    by (cases "map_of (map (\<lambda>t. (frame_type_name t, t)) known_types) s")
      (simp_all only: frame_type_of_def option.case frame_type_name.simps)
qed

section \<open>Payloads\<close>

record Hello =
  h_Version :: int
  h_Role :: string
  h_Features :: "string list"
  h_Meta :: "(string, string) gomap"

record Register =
  r_DeviceID :: string
  r_OrgID :: string
  r_Hostname :: string
  r_OS :: string
  r_Arch :: string
  r_Version :: string
  r_Tags :: "(string, string) gomap"

record Script =
  s_Interpreter :: string
  s_Content :: string

record Exec =
  x_Argv :: "string list"
  x_Cwd :: string
  x_Env :: "(string, string) gomap"
  x_Stdin :: string
  x_TimeoutMs :: int
  x_OutputCap :: int
  x_Script :: "Script option"

record ExecAck =
  ea_StartedAt :: time
  ea_PID :: int

record Output =
  o_Data :: string

record Exit =
  e_ExitCode :: int
  e_EndedAt :: time
  e_Truncated :: bool

record ErrorMsg =
  em_Code :: string
  em_Message :: string

record PtyStart =
  ps_Cols :: "16 word"
  ps_Rows :: "16 word"
  ps_Shell :: string
  ps_Term :: string

record PtyData =
  pd_Data :: string

record PtyResize =
  pr_Cols :: "16 word"
  pr_Rows :: "16 word"

record PtyExit =
  pe_ExitCode :: int

section \<open>The envelope\<close>

record Frame =
  f_Type :: FrameType
  f_SessionID :: string
  f_ExecID :: string
  f_Hello :: "Hello option"
  f_Register :: "Register option"
  f_Exec :: "Exec option"
  f_ExecAck :: "ExecAck option"
  f_Output :: "Output option"
  f_Exit :: "Exit option"
  f_Error :: "ErrorMsg option"
  f_PtyStart :: "PtyStart option"
  f_PtyData :: "PtyData option"
  f_PtyResize :: "PtyResize option"
  f_PtyExit :: "PtyExit option"

text \<open>
  The composite literal \<open>proto.Frame{Type: t, SessionID: sid, ExecID: eid}\<close>: the fields it
  does not name are zero. The code's other literals are updates of it.
\<close>

definition frame :: "FrameType \<Rightarrow> string \<Rightarrow> string \<Rightarrow> Frame" where
  "frame t sid eid =
     \<lparr>f_Type = t, f_SessionID = sid, f_ExecID = eid, f_Hello = None, f_Register = None,
      f_Exec = None, f_ExecAck = None, f_Output = None, f_Exit = None, f_Error = None,
      f_PtyStart = None, f_PtyData = None, f_PtyResize = None, f_PtyExit = None\<rparr>"

lemma frame_simps [simp]:
  "f_Type (frame t sid eid) = t" "f_SessionID (frame t sid eid) = sid"
  "f_ExecID (frame t sid eid) = eid" "f_Exec (frame t sid eid) = None"
  "f_Output (frame t sid eid) = None" "f_Exit (frame t sid eid) = None"
  "f_Register (frame t sid eid) = None" "f_Error (frame t sid eid) = None"
  "f_ExecAck (frame t sid eid) = None" "f_Hello (frame t sid eid) = None"
  "f_PtyStart (frame t sid eid) = None" "f_PtyData (frame t sid eid) = None"
  "f_PtyResize (frame t sid eid) = None" "f_PtyExit (frame t sid eid) = None"
  by (simp_all add: frame_def)

text \<open>An \<open>exit\<close> frame that reports a refusal: exit code -1 and an error code.\<close>

definition refusal :: "string \<Rightarrow> string \<Rightarrow> time \<Rightarrow> string \<Rightarrow> string \<Rightarrow> Frame" where
  "refusal sid eid now code msg =
     (frame TypeExit sid eid)
       \<lparr>f_Exit := Some \<lparr>e_ExitCode = -1, e_EndedAt = now, e_Truncated = False\<rparr>,
        f_Error := Some \<lparr>em_Code = code, em_Message = msg\<rparr>\<rparr>"

lemma refusal_simps [simp]:
  "f_Type (refusal sid eid now code msg) = TypeExit"
  "f_SessionID (refusal sid eid now code msg) = sid"
  "f_ExecID (refusal sid eid now code msg) = eid"
  "f_Exit (refusal sid eid now code msg) =
     Some \<lparr>e_ExitCode = -1, e_EndedAt = now, e_Truncated = False\<rparr>"
  "f_Error (refusal sid eid now code msg) = Some \<lparr>em_Code = code, em_Message = msg\<rparr>"
  "f_Output (refusal sid eid now code msg) = None"
  by (simp_all add: refusal_def)

end
