(* ===== verification/Utf8.thy ===== *)
theory Utf8
  imports Prelude
begin

text \<open>
  Go strings are bytes; package \<open>strings\<close>, package \<open>unicode\<close> and package \<open>regexp\<close> read
  them as UTF-8. This theory splits a string into the byte sequences of its runes the way
  \<open>utf8.DecodeRune\<close> does (an invalid byte is a rune of width one), and defines the functions
  of the code that work on runes: \<open>strings.TrimSpace\<close> and \<open>strings.Fields\<close>.
\<close>

section \<open>Runes\<close>

abbreviation byte :: "char \<Rightarrow> nat" where "byte c \<equiv> of_char c"

definition cont_byte :: "char \<Rightarrow> bool" where
  "cont_byte c \<longleftrightarrow> 128 \<le> byte c \<and> byte c \<le> 191"

text \<open>The accepted first and second bytes of each width, as in the table of package \<open>utf8\<close>.\<close>

definition lead2 :: "char \<Rightarrow> char \<Rightarrow> bool" where
  "lead2 x a \<longleftrightarrow> 194 \<le> byte x \<and> byte x \<le> 223 \<and> cont_byte a"

definition lead3 :: "char \<Rightarrow> char \<Rightarrow> bool" where
  "lead3 x a \<longleftrightarrow>
     (byte x = 224 \<and> 160 \<le> byte a \<and> byte a \<le> 191) \<or>
     (byte x = 237 \<and> 128 \<le> byte a \<and> byte a \<le> 159) \<or>
     (225 \<le> byte x \<and> byte x \<le> 239 \<and> byte x \<noteq> 237 \<and> cont_byte a)"

definition lead4 :: "char \<Rightarrow> char \<Rightarrow> bool" where
  "lead4 x a \<longleftrightarrow>
     (byte x = 240 \<and> 144 \<le> byte a \<and> byte a \<le> 191) \<or>
     (byte x = 244 \<and> 128 \<le> byte a \<and> byte a \<le> 143) \<or>
     (241 \<le> byte x \<and> byte x \<le> 243 \<and> cont_byte a)"

fun rune_len :: "string \<Rightarrow> nat" where
  "rune_len (x # a # b # c # s) =
     (if lead4 x a \<and> cont_byte b \<and> cont_byte c then 4
      else if lead3 x a \<and> cont_byte b then 3
      else if lead2 x a then 2 else 1)"
| "rune_len [x, a, b] = (if lead3 x a \<and> cont_byte b then 3 else if lead2 x a then 2 else 1)"
| "rune_len [x, a] = (if lead2 x a then 2 else 1)"
| "rune_len [x] = 1"
| "rune_len [] = 1"

lemma rune_len_pos [simp]: "0 < rune_len s"
  by (induction s rule: rune_len.induct) auto

lemma rune_len_not_0 [simp]: "rune_len s \<noteq> 0"
  using rune_len_pos [of s] by linarith

lemma rune_len_le: "s \<noteq> [] \<Longrightarrow> rune_len s \<le> length s"
  by (induction s rule: rune_len.induct) auto

function runes :: "string \<Rightarrow> string list" where
  "runes s = (if s = [] then [] else take (rune_len s) s # runes (drop (rune_len s) s))"
  by pat_completeness auto
termination
  by (relation "measure length") auto

declare runes.simps [simp del]

lemma runes_Nil [simp]: "runes [] = []"
  by (simp add: runes.simps)

lemma runes_eq_Nil [simp]: "runes s = [] \<longleftrightarrow> s = []"
  by (subst runes.simps) simp

lemma runes_step: "s \<noteq> [] \<Longrightarrow> runes s = take (rune_len s) s # runes (drop (rune_len s) s)"
  by (subst runes.simps) simp

lemma concat_runes [simp]: "concat (runes s) = s"
proof (induction s rule: runes.induct)
  case (1 s)
  then show ?case by (cases "s = []") (simp_all add: runes_step)
qed

lemma runes_nonempty: "r \<in> set (runes s) \<Longrightarrow> r \<noteq> []"
proof (induction s rule: runes.induct)
  case (1 s)
  then show ?case by (cases "s = []") (auto simp: runes_step)
qed

definition ascii :: "char \<Rightarrow> bool" where
  "ascii c \<longleftrightarrow> byte c < 128"

lemma lead_not_ascii: "ascii x \<Longrightarrow> \<not> lead2 x a" "ascii x \<Longrightarrow> \<not> lead3 x a" "ascii x \<Longrightarrow> \<not> lead4 x a"
  by (auto simp: ascii_def lead2_def lead3_def lead4_def)

lemma rune_len_ascii: "ascii c \<Longrightarrow> rune_len (c # s) = 1"
  by (cases "c # s" rule: rune_len.cases) (auto simp: lead_not_ascii)

lemma runes_ascii [simp]: "ascii c \<Longrightarrow> runes (c # s) = [c] # runes s"
  by (simp add: runes_step rune_len_ascii)

lemma runes_all_ascii: "list_all ascii s \<Longrightarrow> runes s = map (\<lambda>c. [c]) s"
  by (induction s) auto

text \<open>
  The code point of a rune's bytes. \<open>utf8.RuneError\<close>, U+FFFD, stands for an invalid byte.
\<close>

fun rune_value :: "string \<Rightarrow> nat" where
  "rune_value [x] = (if byte x < 128 then byte x else 65533)"
| "rune_value [x, a] = (byte x - 192) * 64 + (byte a - 128)"
| "rune_value [x, a, b] = (byte x - 224) * 4096 + (byte a - 128) * 64 + (byte b - 128)"
| "rune_value [x, a, b, c] =
     (byte x - 240) * 262144 + (byte a - 128) * 4096 + (byte b - 128) * 64 + (byte c - 128)"
| "rune_value s = 65533"

section \<open>White space\<close>

text \<open>\<open>unicode.IsSpace\<close>.\<close>

definition is_space :: "nat \<Rightarrow> bool" where
  "is_space n \<longleftrightarrow>
     (9 \<le> n \<and> n \<le> 13) \<or> n = 32 \<or> n = 133 \<or> n = 160 \<or> n = 5760 \<or> (8192 \<le> n \<and> n \<le> 8202) \<or>
     n = 8232 \<or> n = 8233 \<or> n = 8239 \<or> n = 8287 \<or> n = 12288"

definition space_rune :: "string \<Rightarrow> bool" where
  "space_rune r = is_space (rune_value r)"

definition space_char :: "char \<Rightarrow> bool" where
  "space_char c \<longleftrightarrow> (9 \<le> byte c \<and> byte c \<le> 13) \<or> byte c = 32"

lemma space_rune_ascii [simp]: "ascii c \<Longrightarrow> space_rune [c] = space_char c"
  by (auto simp: space_rune_def is_space_def space_char_def ascii_def)

text \<open>
  \<open>strings.TrimSpace\<close>. The code decodes the last rune from the end; a byte that starts a rune never
  occurs inside another one, so reading the runes from the front gives the same last rune whenever
  it is white space.
\<close>

definition trim_space :: "string \<Rightarrow> string" where
  "trim_space s = concat (rev (dropWhile space_rune (rev (dropWhile space_rune (runes s)))))"

lemma trim_space_ascii:
  assumes "list_all ascii s"
  shows "trim_space s = rev (dropWhile space_char (rev (dropWhile space_char s)))"
proof -
  have map_drop: "dropWhile space_rune (map (\<lambda>c. [c]) t) = map (\<lambda>c. [c]) (dropWhile space_char t)"
    if "list_all ascii t" for t
    using that by (induction t) auto
  have "list_all ascii (dropWhile space_char s)"
    using assms by (induction s) auto
  then have "list_all ascii (rev (dropWhile space_char s))"
    by (simp add: list_all_iff)
  moreover have "concat (map (\<lambda>c. [c]) t) = t" for t :: string
    by (induction t) auto
  ultimately show ?thesis
    using assms by (simp add: trim_space_def runes_all_ascii map_drop rev_map)
qed

lemma trim_space_id:
  assumes "list_all ascii s" and "s \<noteq> [] \<Longrightarrow> \<not> space_char (hd s) \<and> \<not> space_char (last s)"
  shows "trim_space s = s"
proof (cases "s = []")
  case True
  then show ?thesis by (simp add: trim_space_def)
next
  case False
  then obtain x xs where x: "s = x # xs" by (cases s) auto
  obtain ys y where y: "s = ys @ [y]" using False by (cases s rule: rev_cases) auto
  have "dropWhile space_char s = s" using assms(2) [OF False] x by simp
  moreover have "dropWhile space_char (rev s) = rev s" using assms(2) [OF False] y by simp
  ultimately show ?thesis by (simp add: trim_space_ascii [OF assms(1)])
qed

text \<open>\<open>strings.Fields\<close>: the maximal runs of runes that are not white space.\<close>

fun fields_of :: "string list \<Rightarrow> string \<Rightarrow> string list" where
  "fields_of [] cur = (if cur = [] then [] else [cur])"
| "fields_of (r # rs) cur =
     (if space_rune r then (if cur = [] then fields_of rs [] else cur # fields_of rs [])
      else fields_of rs (cur @ r))"

definition fields :: "string \<Rightarrow> string list" where
  "fields s = fields_of (runes s) []"

lemma fields_of_concat: "concat (fields_of rs cur) = cur @ concat (filter (\<lambda>r. \<not> space_rune r) rs)"
  by (induction rs cur rule: fields_of.induct) auto

lemma fields_nonempty: "f \<in> set (fields_of rs cur) \<Longrightarrow> (\<And>r. r \<in> set rs \<Longrightarrow> r \<noteq> []) \<Longrightarrow> f \<noteq> []"
  by (induction rs cur rule: fields_of.induct) (auto split: if_splits)

end
