(* ===== verification/Encoding.thy ===== *)
theory Encoding
  imports Utf8
begin

text \<open>
  Packages \<open>encoding/base64\<close> and \<open>encoding/hex\<close> as the code uses them. Frame payloads travel in
  \<open>base64.StdEncoding\<close>, the device's public key in \<open>base64.RawURLEncoding\<close>, secrets and digests in
  hexadecimal or in one of the base64 forms. A decoder returns \<open>None\<close> where Go returns an error;
  every caller in the code drops the partial output in that case.
\<close>

text \<open>What a user of an encoding relies on, and what follows from it.\<close>

locale codec =
  fixes encode :: "string \<Rightarrow> string"
    and decode :: "string \<Rightarrow> string option"
  assumes decode_encode: "decode (encode s) = Some s"
    and encode_ascii: "list_all ascii (encode s)"
begin

lemma encode_inject: "encode s = encode t \<longleftrightarrow> s = t"
  by (metis decode_encode option.inject)

lemma decode_all: "map decode (map encode ss) = map Some ss"
  by (simp add: decode_encode)

lemma transport: "concat (map (\<lambda>e. case decode e of Some s \<Rightarrow> s | None \<Rightarrow> []) (map encode ss)) = concat ss"
  by (induction ss) (simp_all add: decode_encode)

lemma encode_runes: "runes (encode s) = map (\<lambda>c. [c]) (encode s)"
  using encode_ascii by (rule runes_all_ascii)

end

section \<open>Base64\<close>

definition std_alphabet :: string where
  "std_alphabet = ''ABCDEFGHIJKLMNOPQRSTUVWXYZabcdefghijklmnopqrstuvwxyz0123456789+/''"

definition url_alphabet :: string where
  "url_alphabet = ''ABCDEFGHIJKLMNOPQRSTUVWXYZabcdefghijklmnopqrstuvwxyz0123456789-_''"

fun b64_encode :: "string \<Rightarrow> bool \<Rightarrow> string \<Rightarrow> string" where
  "b64_encode al pad (a # b # c # s) =
     al ! (byte a div 4) # al ! ((byte a mod 4) * 16 + byte b div 16) #
     al ! ((byte b mod 16) * 4 + byte c div 64) # al ! (byte c mod 64) # b64_encode al pad s"
| "b64_encode al pad [a, b] =
     [al ! (byte a div 4), al ! ((byte a mod 4) * 16 + byte b div 16), al ! ((byte b mod 16) * 4)] @
     (if pad then ''='' else [])"
| "b64_encode al pad [a] =
     [al ! (byte a div 4), al ! ((byte a mod 4) * 16)] @ (if pad then ''=='' else [])"
| "b64_encode al pad [] = []"

definition b64_one :: "nat \<Rightarrow> nat \<Rightarrow> char" where
  "b64_one p q = char_of (p * 4 + q div 16)"

definition b64_two :: "nat \<Rightarrow> nat \<Rightarrow> char" where
  "b64_two q r = char_of ((q mod 16) * 16 + r div 4)"

definition b64_three :: "nat \<Rightarrow> nat \<Rightarrow> char" where
  "b64_three r t = char_of ((r mod 4) * 64 + t)"

text \<open>
  The decoder skips carriage returns and line feeds wherever they stand. With padding the last
  group must be complete; without it a last group of two or three characters is accepted and the
  pad character is an error. Trailing bits are not checked (the encodings are not strict).
\<close>

fun b64_groups :: "string \<Rightarrow> bool \<Rightarrow> string \<Rightarrow> string option" where
  "b64_groups al pad (p # q # r # t # s) =
     (if pad \<and> r = CHR ''='' \<and> t = CHR ''='' \<and> s = [] then
        (case (index_byte al p, index_byte al q) of
           (Some i, Some j) \<Rightarrow> Some [b64_one i j] | _ \<Rightarrow> None)
      else if pad \<and> t = CHR ''='' \<and> s = [] then
        (case (index_byte al p, index_byte al q, index_byte al r) of
           (Some i, Some j, Some k) \<Rightarrow> Some [b64_one i j, b64_two j k] | _ \<Rightarrow> None)
      else
        (case (index_byte al p, index_byte al q, index_byte al r, index_byte al t) of
           (Some i, Some j, Some k, Some l) \<Rightarrow>
             map_option (\<lambda>s'. b64_one i j # b64_two j k # b64_three k l # s') (b64_groups al pad s)
         | _ \<Rightarrow> None))"
| "b64_groups al pad [p, q, r] =
     (if pad then None
      else (case (index_byte al p, index_byte al q, index_byte al r) of
              (Some i, Some j, Some k) \<Rightarrow> Some [b64_one i j, b64_two j k] | _ \<Rightarrow> None))"
| "b64_groups al pad [p, q] =
     (if pad then None
      else (case (index_byte al p, index_byte al q) of
              (Some i, Some j) \<Rightarrow> Some [b64_one i j] | _ \<Rightarrow> None))"
| "b64_groups al pad [p] = None"
| "b64_groups al pad [] = Some []"

definition b64_decode :: "string \<Rightarrow> bool \<Rightarrow> string \<Rightarrow> string option" where
  "b64_decode al pad s = b64_groups al pad (filter (\<lambda>c. byte c \<noteq> 10 \<and> byte c \<noteq> 13) s)"

definition alphabet_ok :: "string \<Rightarrow> bool" where
  "alphabet_ok al \<longleftrightarrow>
     length al = 64 \<and> distinct al \<and> CHR ''='' \<notin> set al \<and>
     list_all (\<lambda>c. ascii c \<and> byte c \<noteq> 10 \<and> byte c \<noteq> 13) al"

lemma std_alphabet_ok: "alphabet_ok std_alphabet"
  by code_simp

lemma url_alphabet_ok: "alphabet_ok url_alphabet"
  by code_simp

lemma index_byte_nth: "distinct al \<Longrightarrow> n < length al \<Longrightarrow> index_byte al (al ! n) = Some n"
proof (induction al arbitrary: n)
  case (Cons x xs)
  then show ?case by (cases n) auto
qed simp

lemma index_alphabet: "alphabet_ok al \<Longrightarrow> n < 64 \<Longrightarrow> index_byte al (al ! n) = Some n"
  by (simp add: alphabet_ok_def index_byte_nth)

lemma alphabet_nth:
  assumes "alphabet_ok al" and "n < 64"
  shows "al ! n \<noteq> CHR ''=''" "ascii (al ! n)" "byte (al ! n) \<noteq> 10" "byte (al ! n) \<noteq> 13"
proof -
  have "al ! n \<in> set al" using assms by (simp add: alphabet_ok_def)
  then show "al ! n \<noteq> CHR ''=''" "ascii (al ! n)" "byte (al ! n) \<noteq> 10" "byte (al ! n) \<noteq> 13"
    using assms(1) by (auto simp: alphabet_ok_def list_all_iff)
qed

lemma byte_less [simp]: "byte c < 256"
  using nat_of_char_less_256 [of c] by simp

lemma nat_byte_bounds:
  fixes m n :: nat
  assumes "m < 256" "n < 256"
  shows "n div 4 < 64" "n mod 64 < 64" "(m mod 4) * 16 + n div 16 < 64"
    "(m mod 16) * 4 + n div 64 < 64" "(m mod 4) * 16 < 64" "(m mod 16) * 4 < 64"
  using assms by linarith+

lemmas byte_bounds [simp] = nat_byte_bounds [OF byte_less byte_less]

text \<open>Reassembling the bits of a byte from its two sextets.\<close>

lemma b64_one_byte [simp]: "b64_one (byte a div 4) ((byte a mod 4) * 16 + byte b div 16) = a"
proof -
  have "((byte a mod 4) * 16 + byte b div 16) div 16 = byte a mod 4"
    using byte_less [of b] by linarith
  then show ?thesis by (simp add: b64_one_def)
qed

lemma b64_one_last [simp]: "b64_one (byte a div 4) ((byte a mod 4) * 16) = a"
  by (simp add: b64_one_def)

lemma b64_two_byte [simp]:
  "b64_two ((byte a mod 4) * 16 + byte b div 16) ((byte b mod 16) * 4 + byte c div 64) = b"
proof -
  have "((byte a mod 4) * 16 + byte b div 16) mod 16 = byte b div 16"
    "((byte b mod 16) * 4 + byte c div 64) div 4 = byte b mod 16"
    using byte_less [of b] byte_less [of c] by (simp_all add: mod_less less_mult_imp_div_less)
  then show ?thesis by (simp add: b64_two_def)
qed

lemma b64_two_last [simp]:
  "b64_two ((byte a mod 4) * 16 + byte b div 16) ((byte b mod 16) * 4) = b"
proof -
  have "((byte a mod 4) * 16 + byte b div 16) mod 16 = byte b div 16"
    using byte_less [of b] by (simp add: mod_less less_mult_imp_div_less)
  then show ?thesis by (simp add: b64_two_def)
qed

lemma b64_three_byte [simp]: "b64_three ((byte b mod 16) * 4 + byte c div 64) (byte c mod 64) = c"
proof -
  have "((byte b mod 16) * 4 + byte c div 64) mod 4 = byte c div 64"
    using byte_less [of c] by (simp add: mod_less less_mult_imp_div_less)
  then show ?thesis by (simp add: b64_three_def)
qed

lemma b64_groups_encode:
  "alphabet_ok al \<Longrightarrow> b64_groups al pad (b64_encode al pad s) = Some s"
  by (induction al pad s rule: b64_encode.induct)
    (simp_all add: index_alphabet alphabet_nth(1))

lemma ascii_pad [simp]: "ascii (CHR ''='')"
  by (simp add: ascii_def)

lemma b64_encode_chars:
  "alphabet_ok al \<Longrightarrow> list_all (\<lambda>c. ascii c \<and> byte c \<noteq> 10 \<and> byte c \<noteq> 13) (b64_encode al pad s)"
  by (induction al pad s rule: b64_encode.induct) (simp_all add: alphabet_nth)

lemma b64_decode_encode:
  assumes "alphabet_ok al"
  shows "b64_decode al pad (b64_encode al pad s) = Some s"
proof -
  have "filter (\<lambda>c. byte c \<noteq> 10 \<and> byte c \<noteq> 13) (b64_encode al pad s) = b64_encode al pad s"
    using b64_encode_chars [OF assms, of pad s] by (auto simp: filter_id_conv list_all_iff)
  then show ?thesis by (simp add: b64_decode_def b64_groups_encode [OF assms])
qed

lemma b64_encode_ascii: "alphabet_ok al \<Longrightarrow> list_all ascii (b64_encode al pad s)"
  using b64_encode_chars [of al pad s] by (simp add: list_all_iff)

abbreviation std_encode :: "string \<Rightarrow> string" where
  "std_encode \<equiv> b64_encode std_alphabet True"

abbreviation std_decode :: "string \<Rightarrow> string option" where
  "std_decode \<equiv> b64_decode std_alphabet True"

abbreviation raw_std_decode :: "string \<Rightarrow> string option" where
  "raw_std_decode \<equiv> b64_decode std_alphabet False"

abbreviation raw_url_encode :: "string \<Rightarrow> string" where
  "raw_url_encode \<equiv> b64_encode url_alphabet False"

interpretation std64: codec std_encode std_decode
  by unfold_locales (rule b64_decode_encode b64_encode_ascii, rule std_alphabet_ok)+

interpretation raw64: codec "b64_encode std_alphabet False" raw_std_decode
  by unfold_locales (rule b64_decode_encode b64_encode_ascii, rule std_alphabet_ok)+

interpretation url64: codec raw_url_encode "b64_decode url_alphabet False"
  by unfold_locales (rule b64_decode_encode b64_encode_ascii, rule url_alphabet_ok)+

section \<open>Hexadecimal\<close>

definition hex_digits :: string where
  "hex_digits = ''0123456789abcdef''"

definition hex_value :: "char \<Rightarrow> nat option" where
  "hex_value c =
     (if 48 \<le> byte c \<and> byte c \<le> 57 then Some (byte c - 48)
      else if 97 \<le> byte c \<and> byte c \<le> 102 then Some (byte c - 87)
      else if 65 \<le> byte c \<and> byte c \<le> 70 then Some (byte c - 55)
      else None)"

fun hex_encode :: "string \<Rightarrow> string" where
  "hex_encode [] = []"
| "hex_encode (c # s) = hex_digits ! (byte c div 16) # hex_digits ! (byte c mod 16) # hex_encode s"

fun hex_decode :: "string \<Rightarrow> string option" where
  "hex_decode [] = Some []"
| "hex_decode [c] = None"
| "hex_decode (p # q # s) =
     (case (hex_value p, hex_value q) of
        (Some i, Some j) \<Rightarrow> map_option (\<lambda>s'. char_of (i * 16 + j) # s') (hex_decode s)
      | _ \<Rightarrow> None)"

lemma hex_digits_all:
  "list_all (\<lambda>n. hex_value (hex_digits ! n) = Some n \<and> ascii (hex_digits ! n)) [0..<16]"
  by code_simp

lemma hex_digit_value: "n < 16 \<Longrightarrow> hex_value (hex_digits ! n) = Some n"
  using hex_digits_all by (simp add: list_all_iff)

lemma hex_digit_ascii: "n < 16 \<Longrightarrow> ascii (hex_digits ! n)"
  using hex_digits_all by (simp add: list_all_iff)

lemma byte_div_16 [simp]: "byte c div 16 < 16"
  using byte_less [of c] by linarith

lemma hex_decode_encode: "hex_decode (hex_encode s) = Some s"
  by (induction s) (simp_all add: hex_digit_value)

lemma hex_encode_ascii: "list_all ascii (hex_encode s)"
  by (induction s) (simp_all add: hex_digit_ascii)

lemma length_hex_encode [simp]: "length (hex_encode s) = 2 * length s"
  by (induction s) simp_all

interpretation hex: codec hex_encode hex_decode
  by unfold_locales (rule hex_decode_encode hex_encode_ascii)+

lemma length_hex_decode: "hex_decode s = Some t \<Longrightarrow> length s = 2 * length t"
  by (induction s arbitrary: t rule: hex_decode.induct) (auto split: option.splits)

end
