(* ===== verification/Redact.thy ===== *)
theory Redact
  imports Utf8 "HOL-Library.Sublist"
begin

text \<open>
  \<open>internal/audit/redact.go\<close>: the secret patterns and \<open>Redact\<close>. Package \<open>regexp\<close> is modelled for
  the operators the patterns use, on runes, with the leftmost-first choice of Go: a match is
  described by the remainders it can leave, in order of preference, and the first one is taken. A
  pattern has no anchors and the only repeated things are classes of runes.
\<close>

section \<open>Regular expressions\<close>

datatype rx =
    Eps
  | Cls "string \<Rightarrow> bool"
  | Rep nat "nat option" bool "string \<Rightarrow> bool"
  | Seq rx rx
  | Alt rx rx

text \<open>
  Up to \<open>m\<close> further runes of a class (\<open>None\<close> is no limit): a greedy repetition prefers to take
  more, a lazy one prefers to stop.
\<close>

fun rep_opt :: "bool \<Rightarrow> (string \<Rightarrow> bool) \<Rightarrow> nat option \<Rightarrow> string list \<Rightarrow> string list list" where
  "rep_opt greedy p m [] = [[]]"
| "rep_opt greedy p m (x # xs) =
     (let more = (if p x \<and> m \<noteq> Some 0 then rep_opt greedy p (map_option (\<lambda>n. n - 1) m) xs else [])
      in if greedy then more @ [x # xs] else (x # xs) # more)"

fun rep_min :: "nat \<Rightarrow> bool \<Rightarrow> (string \<Rightarrow> bool) \<Rightarrow> nat option \<Rightarrow> string list \<Rightarrow> string list list" where
  "rep_min 0 greedy p m s = rep_opt greedy p m s"
| "rep_min (Suc n) greedy p m [] = []"
| "rep_min (Suc n) greedy p m (x # xs) = (if p x then rep_min n greedy p m xs else [])"

lemma rep_min_numeral [simp]:
  "rep_min (numeral k) greedy p m [] = []"
  "rep_min (numeral k) greedy p m (x # xs) = (if p x then rep_min (pred_numeral k) greedy p m xs else [])"
  by (simp_all add: numeral_eq_Suc)

fun rx_match :: "rx \<Rightarrow> string list \<Rightarrow> string list list" where
  "rx_match Eps s = [s]"
| "rx_match (Cls p) s = (case s of x # xs \<Rightarrow> if p x then [xs] else [] | [] \<Rightarrow> [])"
| "rx_match (Rep n m greedy p) s = rep_min n greedy p m s"
| "rx_match (Seq a b) s = concat (map (rx_match b) (rx_match a s))"
| "rx_match (Alt a b) s = rx_match a s @ rx_match b s"

definition marker :: "string list" where
  "marker = map (\<lambda>c. [c]) ''[REDACTED]''"

text \<open>
  \<open>ReplaceAllString\<close>, from left to right, on a pattern that never matches the empty string. The
  guard is what makes it terminate on others.
\<close>

function replace_all :: "rx \<Rightarrow> string list \<Rightarrow> string list" where
  "replace_all r [] = []"
| "replace_all r (x # xs) =
     (case rx_match r (x # xs) of
        t # _ \<Rightarrow> if length t \<le> length xs then marker @ replace_all r t else x # replace_all r xs
      | [] \<Rightarrow> x # replace_all r xs)"
  by pat_completeness auto
termination
  by (relation "measure (\<lambda>(r, s). length s)") auto

definition ReplaceAllString :: "rx \<Rightarrow> string \<Rightarrow> string" where
  "ReplaceAllString r s = concat (replace_all r (runes s))"

section \<open>The patterns\<close>

definition lit :: "char \<Rightarrow> string \<Rightarrow> bool" where
  "lit c r \<longleftrightarrow> r = [c]"

text \<open>
  A letter under \<open>(?i)\<close>, given in both cases: either case, and the two runes of Unicode that fold to
  an ASCII letter, the Kelvin sign U+212A and the long s U+017F.
\<close>

definition lit_i :: "char \<times> char \<Rightarrow> string \<Rightarrow> bool" where
  "lit_i p r \<longleftrightarrow> r = [fst p] \<or> r = [snd p] \<or>
     (fst p = CHR ''k'' \<and> r = [CHR 0xE2, CHR 0x84, CHR 0xAA]) \<or>
     (fst p = CHR ''s'' \<and> r = [CHR 0xC5, CHR 0xBF])"

fun one_of :: "string \<Rightarrow> string \<Rightarrow> bool" where
  "one_of cs [c] = (c \<in> set cs)"
| "one_of cs _ = False"

definition upper :: "string \<Rightarrow> bool" where
  "upper r = (case r of [c] \<Rightarrow> 65 \<le> byte c \<and> byte c \<le> 90 | _ \<Rightarrow> False)"

definition lower :: "string \<Rightarrow> bool" where
  "lower r = (case r of [c] \<Rightarrow> 97 \<le> byte c \<and> byte c \<le> 122 | _ \<Rightarrow> False)"

definition digit :: "string \<Rightarrow> bool" where
  "digit r = (case r of [c] \<Rightarrow> 48 \<le> byte c \<and> byte c \<le> 57 | _ \<Rightarrow> False)"

definition alnum :: "string \<Rightarrow> bool" where
  "alnum r \<longleftrightarrow> upper r \<or> lower r \<or> digit r"

text \<open>\<open>\s\<close> of package \<open>regexp\<close>: tab, newline, form feed, carriage return and space.\<close>

definition rx_space :: "string \<Rightarrow> bool" where
  "rx_space r = one_of [CHR 0x09, CHR 0x0A, CHR 0x0C, CHR 0x0D, CHR '' ''] r"

fun lits :: "('a \<Rightarrow> string \<Rightarrow> bool) \<Rightarrow> 'a list \<Rightarrow> rx" where
  "lits f [] = Eps"
| "lits f (c # cs) = Seq (Cls (f c)) (lits f cs)"

fun seq :: "rx list \<Rightarrow> rx" where
  "seq [] = Eps"
| "seq (r # rs) = Seq r (seq rs)"

abbreviation "plain \<equiv> lits lit"
abbreviation "plain_i s S \<equiv> lits lit_i (zip s S)"
abbreviation "at_least n p \<equiv> Rep n None True p"
abbreviation "exactly n p \<equiv> Rep n (Some 0) True p"
abbreviation "star p \<equiv> Rep 0 None True p"
abbreviation "optional p \<equiv> Rep 0 (Some 1) True p"

definition rx_aws_key :: rx where
  "rx_aws_key = seq [plain ''AKIA'', exactly 16 (\<lambda>r. digit r \<or> upper r)]"

definition rx_aws_secret :: rx where
  "rx_aws_secret =
     seq [plain_i ''aws_secret_access_key'' ''AWS_SECRET_ACCESS_KEY'', star rx_space, plain ''='', star rx_space,
          at_least 1 (\<lambda>r. \<not> rx_space r)]"

definition rx_github :: rx where
  "rx_github = seq [plain ''gh'', Cls (one_of ''pousr''), plain ''_'', at_least 36 alnum]"

definition rx_slack :: rx where
  "rx_slack = seq [plain ''xox'', Cls (one_of ''abprs''), plain ''-'', at_least 10 (\<lambda>r. alnum r \<or> lit CHR ''-'' r)]"

definition rx_sk :: rx where
  "rx_sk = seq [plain ''sk-'', at_least 20 alnum]"

definition b64url :: "string \<Rightarrow> bool" where
  "b64url r \<longleftrightarrow> alnum r \<or> one_of ''_-'' r"

definition rx_vault :: rx where
  "rx_vault = seq [plain ''hvs.'', at_least 20 b64url]"

definition rx_jwt :: rx where
  "rx_jwt =
     seq [plain ''eyJ'', at_least 10 b64url, plain ''.'', at_least 10 b64url, plain ''.'', at_least 10 b64url]"

definition rx_pem :: rx where
  "rx_pem =
     seq [plain ''-----BEGIN '', at_least 1 (\<lambda>r. upper r \<or> lit CHR '' '' r), plain ''PRIVATE KEY-----'',
          Rep 1 None False (\<lambda>r. True),
          plain ''-----END '', at_least 1 (\<lambda>r. upper r \<or> lit CHR '' '' r), plain ''PRIVATE KEY-----'']"

definition rx_keyword :: rx where
  "rx_keyword =
     seq [Alt (plain_i ''password'' ''PASSWORD'') (Alt (plain_i ''passwd'' ''PASSWD'') (Alt (plain_i ''secret'' ''SECRET'') (Alt (plain_i ''token'' ''TOKEN'')
            (seq [plain_i ''api'' ''API'', optional (one_of ''_-''), plain_i ''key'' ''KEY''])))),
          star rx_space, Cls (one_of '':=''), star rx_space, optional (one_of [CHR 0x22, CHR 0x27]),
          at_least 6 (\<lambda>r. \<not> rx_space r \<and> \<not> one_of [CHR 0x22, CHR 0x27] r)]"

definition redactors :: "rx list" where
  "redactors = [rx_aws_key, rx_aws_secret, rx_github, rx_slack, rx_sk, rx_vault, rx_jwt, rx_pem, rx_keyword]"

definition Redact :: "string \<Rightarrow> string" where
  "Redact s = foldl (\<lambda>s re. ReplaceAllString re s) s redactors"

section \<open>What a match leaves\<close>

lemma rep_opt_self [simp]: "s \<in> set (rep_opt greedy p m s)"
  by (cases s) (auto simp: Let_def)

lemma rep_opt_suffix: "t \<in> set (rep_opt greedy p m s) \<Longrightarrow> suffix t s"
  by (induction s arbitrary: m) (auto simp: Let_def suffix_Cons split: if_splits)

lemma rep_min_suffix: "t \<in> set (rep_min n greedy p m s) \<Longrightarrow> suffix t s"
  by (induction n greedy p m s rule: rep_min.induct) (auto simp: suffix_Cons rep_opt_suffix split: if_splits)

lemma rx_match_suffix: "t \<in> set (rx_match r s) \<Longrightarrow> suffix t s"
proof (induction r arbitrary: s t)
  case (Cls p)
  then show ?case by (auto simp: suffix_Cons split: list.splits if_splits)
next
  case (Seq a b)
  then obtain u where "u \<in> set (rx_match a s)" "t \<in> set (rx_match b u)" by auto
  with Seq.IH show ?case using suffix_order.order_trans by blast
qed (auto simp: rep_min_suffix)

text \<open>A match does not depend on what follows the runes it consumes.\<close>

lemma rep_opt_extend: "t \<in> set (rep_opt greedy p m s) \<Longrightarrow> t @ u \<in> set (rep_opt greedy p m (s @ u))"
  by (induction s arbitrary: m) (auto simp: Let_def split: if_splits)

lemma rep_min_extend: "t \<in> set (rep_min n greedy p m s) \<Longrightarrow> t @ u \<in> set (rep_min n greedy p m (s @ u))"
  by (induction n greedy p m s rule: rep_min.induct) (auto simp: rep_opt_extend split: if_splits)

lemma rx_match_extend: "t \<in> set (rx_match r s) \<Longrightarrow> t @ u \<in> set (rx_match r (s @ u))"
proof (induction r arbitrary: s t)
  case (Seq a b)
  then show ?case by fastforce
qed (auto simp: rep_min_extend split: list.splits if_splits)

lemma rep_opt_at: "s \<in> set (rep_min n greedy p m s) \<Longrightarrow> n = 0"
proof (cases n)
  case (Suc k)
  assume "s \<in> set (rep_min n greedy p m s)"
  with Suc show ?thesis
    by (cases s) (auto dest!: rep_min_suffix suffix_length_le split: if_splits)
qed

lemma rx_match_empty: "s \<in> set (rx_match r s) \<Longrightarrow> [] \<in> set (rx_match r [])"
proof (induction r arbitrary: s)
  case (Cls p)
  then show ?case by (auto split: list.splits if_splits)
next
  case (Rep n m greedy p)
  then show ?case using rep_opt_at by fastforce
next
  case (Seq a b)
  then obtain u where u: "u \<in> set (rx_match a s)" "s \<in> set (rx_match b u)" by auto
  then have "suffix u s" "suffix s u" by (auto intro: rx_match_suffix)
  then have "u = s" by (rule suffix_order.antisym)
  with u Seq.IH [of s] show ?case by force
qed auto

lemma rx_match_shorter:
  assumes "rx_match r [] = []" "t \<in> set (rx_match r s)"
  shows "length t < length s"
proof -
  have "suffix t s" using assms(2) by (rule rx_match_suffix)
  moreover have "t \<noteq> s" using assms rx_match_empty by force
  ultimately show ?thesis by (auto simp: suffix_def)
qed

section \<open>Patterns that cannot read a rune of the marker\<close>

text \<open>No class of the pattern accepts the rune \<open>b\<close>, so no match can run across one.\<close>

fun avoids :: "string \<Rightarrow> rx \<Rightarrow> bool" where
  "avoids b Eps = True"
| "avoids b (Cls p) = (\<not> p b)"
| "avoids b (Rep n m greedy p) = (\<not> p b)"
| "avoids b (Seq r r') = (avoids b r \<and> avoids b r')"
| "avoids b (Alt r r') = (avoids b r \<and> avoids b r')"

lemma rep_opt_stop:
  "\<not> p b \<Longrightarrow> t \<in> set (rep_opt greedy p m (s @ b # u)) \<Longrightarrow>
   \<exists>t'. t = t' @ b # u \<and> t' \<in> set (rep_opt greedy p m s)"
  by (induction s arbitrary: m t) (fastforce simp: Let_def split: if_splits)+

lemma rep_min_stop:
  "\<not> p b \<Longrightarrow> t \<in> set (rep_min n greedy p m (s @ b # u)) \<Longrightarrow>
   \<exists>t'. t = t' @ b # u \<and> t' \<in> set (rep_min n greedy p m s)"
proof (induction n arbitrary: s)
  case 0
  then show ?case by (simp add: rep_opt_stop)
next
  case (Suc n)
  then show ?case by (cases s) (auto split: if_splits)
qed

lemma rx_match_stop:
  "avoids b r \<Longrightarrow> t \<in> set (rx_match r (s @ b # u)) \<Longrightarrow>
   \<exists>t'. t = t' @ b # u \<and> t' \<in> set (rx_match r s)"
proof (induction r arbitrary: s t)
  case (Cls p)
  then show ?case by (cases s) (auto split: if_splits)
next
  case (Rep n m greedy p)
  then show ?case by (simp add: rep_min_stop)
next
  case (Seq a c)
  then obtain v where v: "v \<in> set (rx_match a (s @ b # u))" "t \<in> set (rx_match c v)" by auto
  with Seq obtain v' where "v = v' @ b # u" "v' \<in> set (rx_match a s)" by fastforce
  with Seq v show ?case by fastforce
next
  case (Alt a c)
  from Alt.prems have "t \<in> set (rx_match a (s @ b # u)) \<or> t \<in> set (rx_match c (s @ b # u))" by simp
  with Alt.IH [of t s] Alt.prems(1) show ?case by (simp, blast)
qed auto

text \<open>A text is clean of a pattern when it matches at no position.\<close>

fun clean :: "rx \<Rightarrow> string list \<Rightarrow> bool" where
  "clean r [] = (rx_match r [] = [])"
| "clean r (x # xs) = (rx_match r (x # xs) = [] \<and> clean r xs)"

lemma clean_empty: "clean r s \<Longrightarrow> rx_match r [] = []"
  by (induction s) auto

lemma clean_suffix: "clean r s \<Longrightarrow> suffix t s \<Longrightarrow> clean r t"
  by (induction s) (auto simp: suffix_Cons)

lemma no_match_shorter: "rx_match r (s @ u) = [] \<Longrightarrow> rx_match r s = []"
  using rx_match_extend [of _ r s u] by (cases "rx_match r s") force+

lemma no_match_stop: "avoids b r \<Longrightarrow> rx_match r s = [] \<Longrightarrow> rx_match r (s @ b # u) = []"
  using rx_match_stop [of b r _ s u] by (cases "rx_match r (s @ b # u)") force+

lemma clean_cut:
  "avoids b r \<Longrightarrow> clean r (s @ b # u) \<longleftrightarrow> clean r s \<and> clean r u"
proof (induction s)
  case Nil
  then show ?case using no_match_stop [of b r "[]" u] clean_empty [of r u] by (metis append_Nil clean.simps)
next
  case (Cons x s)
  moreover have "rx_match r (x # s @ b # u) = [] \<longleftrightarrow> rx_match r (x # s) = []"
    using no_match_stop [OF Cons.prems, of "x # s" u] no_match_shorter [of r "x # s" "b # u"]
    by (metis append_Cons)
  ultimately show ?case by simp
qed

definition marker_word :: "string list" where
  "marker_word = map (\<lambda>c. [c]) ''REDACTED''"

lemma marker_split: "marker @ u = ''['' # marker_word @ '']'' # u"
  by (simp add: marker_def marker_word_def)

definition marker_proof :: "rx \<Rightarrow> bool" where
  "marker_proof r \<longleftrightarrow> avoids ''['' r \<and> avoids '']'' r \<and> clean r marker_word"

lemma clean_marker:
  assumes "marker_proof r"
  shows "clean r (marker @ u) \<longleftrightarrow> clean r u"
proof -
  have r: "avoids ''['' r" "avoids '']'' r" "clean r marker_word"
    using assms by (simp_all add: marker_proof_def)
  have e: "rx_match r [] = []" by (rule clean_empty [OF r(3)])
  have "clean r (marker @ u) \<longleftrightarrow> clean r (marker_word @ '']'' # u)"
    unfolding marker_split using clean_cut [OF r(1), of "[]" "marker_word @ '']'' # u"] e
    by (simp only: append_Nil clean.simps(1) simp_thms)
  then show ?thesis
    using clean_cut [OF r(2), of marker_word u] r(3) by blast
qed

text \<open>What \<open>ReplaceAllString\<close> keeps before its first marker is a prefix of the text.\<close>

lemma replace_all_prefix:
  "\<exists>kept rest z. s = kept @ rest \<and>
     (replace_all r s = kept \<and> rest = [] \<or> replace_all r s = kept @ ''['' # z)"
proof (induction r s rule: replace_all.induct)
  case (2 r x xs)
  have keep: "\<exists>kept rest z. x # xs = kept @ rest \<and>
      (x # replace_all r xs = kept \<and> rest = [] \<or> x # replace_all r xs = kept @ ''['' # z)"
    if "\<exists>kept rest z. xs = kept @ rest \<and>
      (replace_all r xs = kept \<and> rest = [] \<or> replace_all r xs = kept @ ''['' # z)"
    using that by (metis append_Cons)
  show ?case
  proof (cases "rx_match r (x # xs)")
    case Nil
    then show ?thesis using keep 2 by simp
  next
    case (Cons t ts)
    show ?thesis
    proof (cases "length t \<le> length xs")
      case True
      then have "replace_all r (x # xs) = [] @ ''['' # (marker_word @ '']'' # replace_all r t)"
        using Cons by (simp add: marker_split)
      then show ?thesis by blast
    next
      case False
      then show ?thesis using keep 2(3) [OF Cons False] Cons by simp
    qed
  qed
qed auto

lemma keep_step:
  assumes "avoids ''['' r" "rx_match r (x # xs) = []"
  shows "rx_match r (x # replace_all r' xs) = []"
proof -
  obtain kept rest z where k: "xs = kept @ rest"
      "replace_all r' xs = kept \<and> rest = [] \<or> replace_all r' xs = kept @ ''['' # z"
    using replace_all_prefix by blast
  have "rx_match r (x # kept) = []"
    using assms(2) no_match_shorter [of r "x # kept" rest] by (simp add: k(1))
  then show ?thesis
    using k(2) no_match_stop [OF assms(1), of "x # kept"] by auto
qed

text \<open>A replacement removes every match of its own pattern and brings none of another back.\<close>

lemma replace_all_clean: "marker_proof r \<Longrightarrow> clean r (replace_all r s)"
proof (induction r s rule: replace_all.induct)
  case (1 r)
  then show ?case by (auto simp: marker_proof_def dest: clean_empty)
next
  case (2 r x xs)
  show ?case
  proof (cases "rx_match r (x # xs)")
    case Nil
    then show ?thesis
      using 2 keep_step [of r x xs r] by (simp add: marker_proof_def)
  next
    case (Cons t ts)
    have "rx_match r [] = []"
      using 2(4) by (auto simp: marker_proof_def dest: clean_empty)
    then have "length t \<le> length xs"
      using rx_match_shorter [of r t "x # xs"] Cons by simp
    then show ?thesis
      using 2(2) [OF Cons _ 2(4)] Cons clean_marker [OF 2(4)] by simp
  qed
qed

lemma replace_all_keeps_clean: "marker_proof r \<Longrightarrow> clean r s \<Longrightarrow> clean r (replace_all r' s)"
proof (induction r' s rule: replace_all.induct)
  case (2 r' x xs)
  have keep: "clean r (x # replace_all r' xs)" if "clean r (replace_all r' xs)"
    using that 2(4,5) keep_step [of r x xs r'] by (simp add: marker_proof_def)
  show ?case
  proof (cases "rx_match r' (x # xs)")
    case Nil
    then show ?thesis using keep 2 by simp
  next
    case (Cons t ts)
    then have "suffix t (x # xs)" using rx_match_suffix [of t r' "x # xs"] by simp
    then have t: "clean r t" using 2(5) clean_suffix by blast
    show ?thesis
    proof (cases "length t \<le> length xs")
      case True
      then show ?thesis using 2(2) [OF Cons True 2(4) t] Cons clean_marker [OF 2(4)] by simp
    next
      case False
      then show ?thesis using keep 2(3) [OF Cons False 2(4)] 2(5) Cons by simp
    qed
  qed
qed simp

section \<open>Redacted text is read rune by rune as it was written\<close>

lemma rune_len_cut:
  assumes "rune_len (u @ v) \<le> length u" "u \<noteq> []" "ascii c"
  shows "rune_len (u @ c # w) = rune_len (u @ v)"
proof -
  have c: "\<not> cont_byte c" "\<not> lead2 x c" "\<not> lead3 x c" "\<not> lead4 x c" for x
    using assms(3) by (auto simp: ascii_def cont_byte_def lead2_def lead3_def lead4_def)
  consider x where "u = [x]" | x y where "u = [x, y]" | x y z where "u = [x, y, z]"
    | x y z t u' where "u = x # y # z # t # u'"
    using assms(2) by (metis neq_Nil_conv)
  then show ?thesis
  proof cases
    case 1
    then show ?thesis
      using assms(1) c by (cases "v" rule: rune_len.cases; cases w rule: rune_len.cases) (auto split: if_splits)
  next
    case 2
    then show ?thesis
      using assms(1) c by (cases "v" rule: rune_len.cases; cases w rule: rune_len.cases) (auto split: if_splits)
  next
    case 3
    then show ?thesis
      using assms(1) c by (cases "v" rule: rune_len.cases; cases w rule: rune_len.cases) (auto split: if_splits)
  next
    case 4
    then show ?thesis by simp
  qed
qed

lemma runes_cut:
  "runes (concat kept @ v) = kept @ rest \<Longrightarrow> ascii c \<Longrightarrow>
   runes (concat kept @ c # w) = kept @ runes (c # w)"
proof (induction kept)
  case (Cons x kept)
  let ?s = "concat (x # kept) @ v"
  have "?s \<noteq> []" using Cons.prems(1) by (metis append_Cons list.distinct(1) runes_Nil)
  then have x: "x = take (rune_len ?s) ?s" "runes (drop (rune_len ?s) ?s) = kept @ rest"
    using Cons.prems(1) runes_step [of ?s] by auto
  have le: "rune_len ?s \<le> length ?s" using \<open>?s \<noteq> []\<close> by (rule rune_len_le)
  then have len: "length x = rune_len ?s" using x(1) by (metis length_take min.absorb2)
  then have "drop (rune_len ?s) ?s = concat kept @ v" by simp
  then have IH: "runes (concat kept @ c # w) = kept @ runes (c # w)"
    using Cons x(2) by simp
  have "x @ concat kept \<noteq> []" using len by (metis append_is_Nil_conv length_0_conv rune_len_not_0)
  then have "rune_len ((x @ concat kept) @ c # w) = rune_len ((x @ concat kept) @ v)"
    using len Cons.prems(2) by (intro rune_len_cut) auto
  then have "rune_len (x @ concat kept @ c # w) = length x" using len by simp
  moreover have "x @ concat kept @ c # w \<noteq> []" by simp
  ultimately show ?case using IH runes_step [of "x @ concat kept @ c # w"] by simp
qed simp

definition rune_list :: "string list \<Rightarrow> bool" where
  "rune_list rs \<longleftrightarrow> runes (concat rs) = rs"

lemma rune_list_runes [simp]: "rune_list (runes s)"
  by (simp add: rune_list_def)

lemma rune_list_Nil [simp]: "rune_list []"
  by (simp add: rune_list_def)

lemma rune_list_tl:
  assumes "rune_list (x # xs)"
  shows "rune_list xs"
proof -
  let ?s = "concat (x # xs)"
  let ?t = "drop (rune_len ?s) ?s"
  have "?s \<noteq> []" using assms by (metis list.distinct(1) rune_list_def runes_Nil)
  then have t: "runes ?t = xs"
    using assms runes_step [of ?s] by (simp add: rune_list_def)
  then have "concat xs = ?t" using concat_runes [of ?t] by (simp only:)
  then show ?thesis using t by (simp only: rune_list_def)
qed

lemma rune_list_suffix: "rune_list s \<Longrightarrow> suffix t s \<Longrightarrow> rune_list t"
  by (induction s) (auto simp: suffix_Cons dest: rune_list_tl)

lemma rune_list_marker: "rune_list s \<Longrightarrow> rune_list (marker @ s)"
  by (simp add: rune_list_def marker_def ascii_def)

lemma rune_list_replace: "rune_list s \<Longrightarrow> rune_list (replace_all r s)"
proof (induction r s rule: replace_all.induct)
  case (2 r x xs)
  have keep: "rune_list (x # replace_all r xs)" if IH: "rune_list (replace_all r xs)"
  proof -
    obtain kept rest z where k: "xs = kept @ rest"
      "replace_all r xs = kept \<and> rest = [] \<or> replace_all r xs = kept @ ''['' # z"
      using replace_all_prefix by blast
    show ?thesis
    proof (cases "replace_all r xs = kept \<and> rest = []")
      case True
      then show ?thesis using 2(4) k(1) by auto
    next
      case False
      with k(2) have out: "replace_all r xs = kept @ ''['' # z" by blast
      have a: "ascii CHR ''[''" by (simp add: ascii_def)
      have "runes (concat xs) = kept @ rest" using rune_list_tl [OF 2(4)] k(1) by (simp add: rune_list_def)
      then have "runes (concat kept @ CHR ''['' # concat z) = kept @ runes (CHR ''['' # concat z)"
        using runes_cut [of kept "concat rest" rest] k(1) a by simp
      then have z: "runes (CHR ''['' # concat z) = ''['' # z"
        using IH out by (simp add: rune_list_def)
      have "runes (concat (x # kept) @ concat rest) = (x # kept) @ rest"
        using 2(4) k(1) by (simp add: rune_list_def)
      from runes_cut [OF this a, of "concat z"] show ?thesis
        using out z by (simp add: rune_list_def)
    qed
  qed
  show ?case
  proof (cases "rx_match r (x # xs)")
    case Nil
    then show ?thesis using keep 2 rune_list_tl by simp
  next
    case (Cons t ts)
    then have "suffix t (x # xs)" using rx_match_suffix [of t r "x # xs"] by simp
    then have t: "rune_list t" using 2(4) rune_list_suffix by blast
    show ?thesis
    proof (cases "length t \<le> length xs")
      case True
      then show ?thesis using rune_list_marker [OF 2(2) [OF Cons True t]] Cons by simp
    next
      case False
      then show ?thesis using keep 2(3) [OF Cons False] rune_list_tl [OF 2(4)] Cons by simp
    qed
  qed
qed simp

lemma runes_ReplaceAllString [simp]: "runes (ReplaceAllString r s) = replace_all r (runes s)"
  using rune_list_replace [of "runes s" r] by (simp add: ReplaceAllString_def rune_list_def)

section \<open>Properties\<close>

text \<open>The six patterns that recognise a token by its own prefix.\<close>

definition token_redactors :: "rx list" where
  "token_redactors = [rx_aws_key, rx_github, rx_slack, rx_sk, rx_vault, rx_jwt]"

lemma token_marker_proof: "r \<in> set token_redactors \<Longrightarrow> marker_proof r"
  by (auto simp: token_redactors_def marker_proof_def marker_word_def rx_aws_key_def rx_github_def rx_slack_def
      rx_sk_def rx_vault_def rx_jwt_def lit_def alnum_def upper_def lower_def digit_def b64url_def)

lemma foldl_replace_clean:
  "marker_proof r \<Longrightarrow> r \<in> set rs \<or> clean r (runes s) \<Longrightarrow>
   clean r (runes (foldl (\<lambda>s re. ReplaceAllString re s) s rs))"
proof (induction rs arbitrary: s)
  case (Cons r' rs)
  then have "r \<in> set rs \<or> clean r (runes (ReplaceAllString r' s))"
    using replace_all_clean replace_all_keeps_clean by auto
  with Cons show ?case by simp
qed simp

lemma clean_replace: "clean r s \<Longrightarrow> replace_all r s = s"
  by (induction s) auto

lemma Redact_clean: "r \<in> set token_redactors \<Longrightarrow> clean r (runes (Redact s))"
proof -
  assume r: "r \<in> set token_redactors"
  then have "r \<in> set redactors" by (auto simp: token_redactors_def redactors_def)
  then show ?thesis
    unfolding Redact_def using foldl_replace_clean token_marker_proof [OF r] by blast
qed

lemma Redact_Nil [simp]: "Redact [] = []"
  by (simp add: Redact_def ReplaceAllString_def redactors_def)

text \<open>
  C9. No AWS access key, GitHub, Slack, API, Vault or JSON web token is left anywhere in redacted
  text, whatever the input and although later replacements cut and splice the text; so running
  these patterns over it again changes nothing.
\<close>

theorem redact_removes_tokens:
  "list_all (\<lambda>r. clean r (runes (Redact s)) \<and> ReplaceAllString r (Redact s) = Redact s) token_redactors"
  using Redact_clean clean_replace by (auto simp: list_all_iff ReplaceAllString_def)

lemmas rx_defs = redactors_def rx_aws_key_def rx_aws_secret_def rx_github_def rx_slack_def rx_sk_def
  rx_vault_def rx_jwt_def rx_pem_def rx_keyword_def

lemmas class_defs = lit_def lit_i_def upper_def lower_def digit_def alnum_def rx_space_def b64url_def

text \<open>
  \<open>Redact\<close> is not idempotent, although its comment and its test say so: the value of a
  keyword can start with another keyword, and the marker that replaces it is a value itself.
\<close>

lemma redact_not_idempotent:
  "Redact ''token=token =abcdef'' = ''token=[REDACTED]'' \<and>
   Redact (Redact ''token=token =abcdef'') = ''[REDACTED]''"
  by (simp add: Redact_def rx_defs class_defs ReplaceAllString_def ascii_def marker_def)

end
