(* ===== verification/EnvFile.thy ===== *)
theory EnvFile
  imports Containers Utf8 "HOL-Library.Multiset"
begin

text \<open>
  The environment files: the loaders of \<open>cmd/relay/envfile.go\<close> and \<open>cmd/agent/enroll.go\<close>, the
  agent's \<open>writeEnvFile\<close>, and \<open>removeEnvKey\<close> of \<open>cmd/agent/deviceid.go\<close>, with the way the agent
  replaces a file: a temporary file in the same directory, written, synced and renamed; errors are given
  without the text the code wraps them in. The file
  system is a directory with the file and the temporary file; each call may fail, and the machine may stop before
  it or before the function returns, which loses content that was not synced and may undo a rename.
\<close>

section \<open>Parsing\<close>

text \<open>
  \<open>bufio.Scanner\<close> with its default split: lines without their \<open>\n\<close> and one \<open>\r\<close>; a line that does
  not fit its buffer of 65536 bytes stops the scan with an error.
\<close>

definition drop_cr :: "string \<Rightarrow> string" where
  "drop_cr l = (if l \<noteq> [] \<and> last l = CHR 0x0D then butlast l else l)"

definition raw_lines :: "string \<Rightarrow> string list" where
  "raw_lines s = (let ls = split_byte CHR 0x0A s in if last ls = [] then butlast ls else ls)"

definition scan_lines :: "string \<Rightarrow> string list \<times> bool" where
  "scan_lines s =
     (let ls = raw_lines s; fit = takeWhile (\<lambda>l. length l < 65536) ls
      in (map drop_cr fit, length fit < length ls))"

definition quoted_by :: "char \<Rightarrow> string \<Rightarrow> bool" where
  "quoted_by q v \<longleftrightarrow> 2 \<le> length v \<and> hd v = q \<and> last v = q"

definition unquote :: "string \<Rightarrow> string" where
  "unquote v = (if quoted_by CHR 0x22 v \<or> quoted_by CHR 0x27 v then butlast (tl v) else v)"

definition parse_env_line :: "string \<Rightarrow> (string \<times> string) option" where
  "parse_env_line raw =
     (let line = trim_space raw in
      if line = [] \<or> has_prefix line ''#'' then None
      else
        (let line' = trim_prefix line ''export '' in
         case index_byte line' CHR ''='' of
           None \<Rightarrow> None
         | Some eq \<Rightarrow>
             if eq = 0 then None
             else Some (trim_space (take eq line'), unquote (trim_space (drop (Suc eq) line')))))"

section \<open>Loading\<close>

datatype file_read = NotExist | Unreadable string | Contents bytes

text \<open>The agent's loader: an error and a map, later lines winning.\<close>

definition add_env_line :: "string \<Rightarrow> (string, string) gomap \<Rightarrow> (string, string) gomap" where
  "add_env_line l m = (case parse_env_line l of None \<Rightarrow> m | Some (k, v) \<Rightarrow> gm_set k v m)"

definition loadEnvFile :: "file_read \<Rightarrow> string option \<times> (string, string) gomap" where
  "loadEnvFile r =
     (case r of
        NotExist \<Rightarrow> (None, [])
      | Unreadable e \<Rightarrow> (Some e, [])
      | Contents s \<Rightarrow>
          (case scan_lines s of
             (ls, too_long) \<Rightarrow>
               (if too_long then Some ''bufio.Scanner: token too long'' else None, fold add_env_line ls [])))"

text \<open>
  The relay's loader sets what the process environment does not have yet. \<open>os.Setenv\<close> refuses an
  empty name, a name with \<open>=\<close> and NUL bytes; its error is ignored.
\<close>

definition setenv :: "string \<Rightarrow> string \<Rightarrow> (string, string) gomap \<Rightarrow> (string, string) gomap" where
  "setenv k v env =
     (if k = [] \<or> CHR ''='' \<in> set k \<or> CHR 0x00 \<in> set k \<or> CHR 0x00 \<in> set v then env else gm_set k v env)"

definition add_env_default :: "string \<Rightarrow> (string, string) gomap \<Rightarrow> (string, string) gomap" where
  "add_env_default l env =
     (case parse_env_line l of
        None \<Rightarrow> env
      | Some (k, v) \<Rightarrow> if gm_get env k = None then setenv k v env else env)"

definition relay_loadEnvFile :: "file_read \<Rightarrow> (string, string) gomap \<Rightarrow> (string, string) gomap" where
  "relay_loadEnvFile r env =
     (case r of Contents s \<Rightarrow> fold add_env_default (fst (scan_lines s)) env | _ \<Rightarrow> env)"

section \<open>Writing\<close>

definition envDeviceEnrollmentToken :: string where
  "envDeviceEnrollmentToken = ''HASFY_DEVICE_ENROLLMENT_TOKEN''"

definition env_order :: "string list" where
  "env_order = [''HASFY_API_URL'', ''HASFY_RELAY_URL'', ''HASFY_DEVICE_ID'', ''HASFY_ORG_ID'', envDeviceEnrollmentToken]"

definition env_line :: "string \<times> string \<Rightarrow> string" where
  "env_line e = fst e @ ''='' @ snd e @ [CHR 0x0A]"

text \<open>The entries in the order they are written; \<open>es\<close> is the order in which \<open>range\<close> visits the map.\<close>

definition env_entries :: "(string \<times> string) list \<Rightarrow> (string, string) gomap \<Rightarrow> (string \<times> string) list" where
  "env_entries es vals =
     (let first = filter (\<lambda>e. snd e \<noteq> [])
                    (List.map_filter (\<lambda>k. map_option (Pair k) (gm_get vals k)) env_order)
      in first @ filter (\<lambda>e. fst e \<notin> set (map fst first) \<and> snd e \<noteq> []) es)"

definition env_text :: "(string \<times> string) list \<Rightarrow> (string, string) gomap \<Rightarrow> bytes" where
  "env_text es vals = concat (map env_line (env_entries es vals))"

text \<open>The lines of the file without those of a key; \<open>None\<close> when there is none to remove.\<close>

definition remove_env_lines :: "string \<Rightarrow> bytes \<Rightarrow> bytes option" where
  "remove_env_lines key original =
     (let ls = split_byte CHR 0x0A original; kept = filter (\<lambda>l. \<not> has_prefix l (key @ ''='')) ls
      in if length kept = length ls then None else Some (join [CHR 0x0A] kept))"

section \<open>Replacing a file\<close>

record fs_file =
  fl_mode :: nat
  fl_data :: bytes

record dir =
  d_file :: "fs_file option"
  d_temp :: "fs_file option"

datatype fs_step = MkdirAll | CreateTemp | ChmodTemp nat | WriteTemp bytes | SyncTemp | CloseTemp | RenameTemp

text \<open>
  What becomes of a call: it succeeds, it fails with an error (a failed write may have written a
  prefix), or the machine stops before it. Then \<open>FsCrash n kept\<close> says what the disk had: the first \<open>n\<close>
  bytes of content that was never synced, and whether a new name in the directory had reached it.
\<close>

datatype fs_outcome = FsOk | FsFail string nat | FsCrash nat bool

text \<open>Calls beyond the given outcomes succeed.\<close>

definition next_outcome :: "fs_outcome list \<Rightarrow> fs_outcome" where
  "next_outcome outs = (case outs of [] \<Rightarrow> FsOk | out # _ \<Rightarrow> out)"

definition survives :: "nat \<Rightarrow> bool \<Rightarrow> fs_file \<Rightarrow> fs_file" where
  "survives n synced f = (if synced then f else f\<lparr>fl_data := take n (fl_data f)\<rparr>)"

fun fs_effect :: "fs_step \<Rightarrow> dir \<Rightarrow> dir" where
  "fs_effect MkdirAll d = d"
| "fs_effect CreateTemp d = d\<lparr>d_temp := Some \<lparr>fl_mode = 384, fl_data = []\<rparr>\<rparr>"
| "fs_effect (ChmodTemp m) d = d\<lparr>d_temp := map_option (\<lambda>f. f\<lparr>fl_mode := m\<rparr>) (d_temp d)\<rparr>"
| "fs_effect (WriteTemp b) d = d\<lparr>d_temp := map_option (\<lambda>f. f\<lparr>fl_data := fl_data f @ b\<rparr>) (d_temp d)\<rparr>"
| "fs_effect SyncTemp d = d"
| "fs_effect CloseTemp d = d"
| "fs_effect RenameTemp d = d\<lparr>d_file := d_temp d, d_temp := None\<rparr>"

fun fs_partial :: "fs_step \<Rightarrow> nat \<Rightarrow> dir \<Rightarrow> dir" where
  "fs_partial (WriteTemp b) n d = fs_effect (WriteTemp (take n b)) d"
| "fs_partial _ n d = d"

text \<open>
  The directory as processes see it, whether the content of the temporary file is on the disk, and
  once it has been renamed the file it replaced.
\<close>

record fs_state =
  st_dir :: dir
  st_synced :: bool
  st_before :: "fs_file option option"

definition fs_do :: "fs_step \<Rightarrow> fs_state \<Rightarrow> fs_state" where
  "fs_do st s =
     \<lparr>st_dir = fs_effect st (st_dir s),
      st_synced = (case st of SyncTemp \<Rightarrow> True | WriteTemp b \<Rightarrow> False | _ \<Rightarrow> st_synced s),
      st_before = (if st = RenameTemp then Some (d_file (st_dir s)) else st_before s)\<rparr>"

text \<open>
  What a machine that stopped finds: a rename that was not on the disk is undone, and content that was
  not synced is cut, under whichever name it is found.
\<close>

definition fs_stop :: "nat \<Rightarrow> bool \<Rightarrow> fs_state \<Rightarrow> dir" where
  "fs_stop n kept s =
     (let d = st_dir s in
      case st_before s of
        None \<Rightarrow> d\<lparr>d_temp := map_option (survives n (st_synced s)) (d_temp d)\<rparr>
      | Some old \<Rightarrow>
          if kept then d\<lparr>d_file := map_option (survives n (st_synced s)) (d_file d)\<rparr>
          else \<lparr>d_file = old, d_temp = map_option (survives n (st_synced s)) (d_file d)\<rparr>)"

datatype fs_result = Done | Failed string | Crashed

text \<open>
  A function that makes these calls, returns at the first error and removes its temporary file on
  the way out (\<open>defer os.Remove\<close>), the last point where the machine may stop.
\<close>

fun fs_run :: "fs_step list \<Rightarrow> fs_outcome list \<Rightarrow> fs_state \<Rightarrow> fs_result \<times> dir" where
  "fs_run [] outs s =
     (case next_outcome outs of
        FsCrash n kept \<Rightarrow> (Crashed, fs_stop n kept s)
      | _ \<Rightarrow> (Done, (st_dir s)\<lparr>d_temp := None\<rparr>))"
| "fs_run (st # sts) outs s =
     (case next_outcome outs of
        FsOk \<Rightarrow> fs_run sts (tl outs) (fs_do st s)
      | FsFail e n \<Rightarrow> (Failed e, (fs_partial st n (st_dir s))\<lparr>d_temp := None\<rparr>)
      | FsCrash n kept \<Rightarrow> (Crashed, fs_stop n kept s))"

definition fs_update :: "fs_step list \<Rightarrow> fs_outcome list \<Rightarrow> dir \<Rightarrow> fs_result \<times> dir" where
  "fs_update sts outs d = fs_run sts outs \<lparr>st_dir = d, st_synced = True, st_before = None\<rparr>"

definition writeEnvFile_steps :: "bytes \<Rightarrow> fs_step list" where
  "writeEnvFile_steps buf = [MkdirAll, CreateTemp, ChmodTemp 384, WriteTemp buf, SyncTemp, CloseTemp, RenameTemp]"

definition writeEnvFile ::
  "(string \<times> string) list \<Rightarrow> (string, string) gomap \<Rightarrow> fs_outcome list \<Rightarrow> dir \<Rightarrow> fs_result \<times> dir" where
  "writeEnvFile es vals outs d = fs_update (writeEnvFile_steps (env_text es vals)) outs d"

text \<open>\<open>path\<close> empty is a no-op; a file that cannot be read is an error; the mode is the file's own.\<close>

definition removeEnvKey_steps :: "nat \<Rightarrow> bytes \<Rightarrow> fs_step list" where
  "removeEnvKey_steps mode buf = [CreateTemp, ChmodTemp mode, WriteTemp buf, SyncTemp, CloseTemp, RenameTemp]"

definition removeEnvKey :: "string \<Rightarrow> string \<Rightarrow> fs_outcome list \<Rightarrow> dir \<Rightarrow> fs_result \<times> dir" where
  "removeEnvKey path key outs d =
     (if path = [] then (Done, d)
      else (case d_file d of
              None \<Rightarrow> (Failed ''read env file'', d)
            | Some f \<Rightarrow>
                (case remove_env_lines key (fl_data f) of
                   None \<Rightarrow> (Done, d)
                 | Some buf \<Rightarrow> fs_update (removeEnvKey_steps (fl_mode f) buf) outs d)))"

text \<open>\<open>writeEnrollmentStatus\<close>: the same without a sync, at mode 0640. \<open>body\<close> is the JSON of the status.\<close>

definition writeEnrollmentStatus_steps :: "bytes \<Rightarrow> fs_step list" where
  "writeEnrollmentStatus_steps body =
     [MkdirAll, CreateTemp, ChmodTemp 416, WriteTemp (body @ [CHR 0x0A]), CloseTemp, RenameTemp]"

definition writeEnrollmentStatus :: "string \<Rightarrow> bytes \<Rightarrow> fs_outcome list \<Rightarrow> dir \<Rightarrow> fs_result \<times> dir" where
  "writeEnrollmentStatus path body outs d =
     (if path = [] then (Done, d) else fs_update (writeEnrollmentStatus_steps body) outs d)"

section \<open>Replacing a file is atomic\<close>

text \<open>
  The contract of an update that replaces a file: on success the file is the new one, after an error the old
  one, and no temporary file stays behind.
\<close>

locale file_update =
  fixes update :: "fs_outcome list \<Rightarrow> dir \<Rightarrow> fs_result \<times> dir"
    and new_file :: fs_file
  assumes success: "update outs d = (Done, d') \<Longrightarrow> d_file d' = Some new_file \<and> d_temp d' = None"
    and failure: "update outs d = (Failed e, d') \<Longrightarrow> d_file d' = d_file d \<and> d_temp d' = None"
    and all_ok: "set outs \<subseteq> {FsOk} \<Longrightarrow> \<exists>d'. update outs d = (Done, d')"
begin

text \<open>A later update is not disturbed by an earlier one, whatever became of it.\<close>

lemma retry:
  assumes "update outs d = (r, d')" "set outs' \<subseteq> {FsOk}"
  shows "\<exists>d''. update outs' d' = (Done, d'') \<and> d_file d'' = Some new_file"
  using all_ok [OF assms(2), of d'] success by blast

end

text \<open>The atomic ones: wherever the machine stops, the file is the old one or the new one whole.\<close>

locale atomic_update = file_update +
  assumes crash: "update outs d = (Crashed, d') \<Longrightarrow> d_file d' = d_file d \<or> d_file d' = Some new_file"
begin

lemma old_or_new: "update outs d = (r, d') \<Longrightarrow> d_file d' = d_file d \<or> d_file d' = Some new_file"
  using success failure crash by (cases r) auto

lemma changed_whole: "update outs d = (r, d') \<Longrightarrow> d_file d' \<noteq> d_file d \<Longrightarrow> d_file d' = Some new_file \<and> r \<in> {Done, Crashed}"
  using success [of outs d d'] failure [of outs d _ d'] crash [of outs d d'] by (cases r) auto

end

lemma next_outcome_ok [simp]: "next_outcome [] = FsOk" "next_outcome (out # outs) = out"
  by (simp_all add: next_outcome_def)

lemma fs_run_ok: "set outs \<subseteq> {FsOk} \<Longrightarrow> fst (fs_run sts outs s) = Done"
proof (induction sts arbitrary: outs s)
  case Nil
  then show ?case by (cases outs) auto
next
  case (Cons st sts)
  then show ?case by (cases outs) auto
qed

text \<open>No call but the rename touches the file itself.\<close>

lemma fs_effect_file: "st \<noteq> RenameTemp \<Longrightarrow> d_file (fs_effect st d) = d_file d"
  by (cases st) auto

lemma fs_partial_file: "d_file (fs_partial st n d) = d_file d"
  by (cases st) auto

lemma fs_do_file:
  "st \<noteq> RenameTemp \<Longrightarrow> d_file (st_dir (fs_do st s)) = d_file (st_dir s) \<and> st_before (fs_do st s) = st_before s"
  by (simp add: fs_do_def fs_effect_file)

text \<open>The file after calls that end with a rename; it is cut only if its content was not synced.\<close>

lemma fs_run_file:
  assumes "fs_run (sts @ [RenameTemp]) outs s = (r, d')" "RenameTemp \<notin> set sts" "st_before s = None"
  defines "s' \<equiv> fold fs_do sts s"
  shows "case r of
      Done \<Rightarrow> d_file d' = d_temp (st_dir s') \<and> d_temp d' = None
    | Failed e \<Rightarrow> d_file d' = d_file (st_dir s) \<and> d_temp d' = None
    | Crashed \<Rightarrow> d_file d' = d_file (st_dir s) \<or> (\<exists>n. d_file d' = map_option (survives n (st_synced s')) (d_temp (st_dir s')))"
  using assms(1-3) unfolding s'_def
proof (induction sts arbitrary: outs s)
  case Nil
  show ?case
  proof (cases "next_outcome outs")
    case FsOk
    with Nil show ?thesis
      by (cases "next_outcome (tl outs)") (auto simp: fs_do_def fs_stop_def Let_def split: if_splits)
  qed (use Nil in \<open>auto simp: fs_stop_def Let_def\<close>)
next
  case (Cons st sts)
  have st: "d_file (st_dir (fs_do st s)) = d_file (st_dir s)" "st_before (fs_do st s) = None"
    using Cons.prems(2,3) fs_do_file [of st s] by auto
  show ?case
  proof (cases "next_outcome outs")
    case FsOk
    with Cons.IH [of "tl outs" "fs_do st s"] Cons.prems st show ?thesis by (cases r) auto
  qed (use Cons.prems in \<open>auto simp: fs_partial_file fs_stop_def Let_def\<close>)
qed

text \<open>A sequence of this shape replaces a file; atomically, if it leaves the content synced before the rename.\<close>

lemma update_steps:
  assumes "RenameTemp \<notin> set sts" "\<And>s. d_temp (st_dir (fold fs_do sts s)) = Some f"
  shows "file_update (fs_update (sts @ [RenameTemp])) f"
proof unfold_locales
  fix outs d
  assume "set outs \<subseteq> {FsOk}"
  then have "fst (fs_update (sts @ [RenameTemp]) outs d) = Done" unfolding fs_update_def by (rule fs_run_ok)
  then show "\<exists>d'. fs_update (sts @ [RenameTemp]) outs d = (Done, d')" by (metis prod.collapse)
qed (use fs_run_file [OF _ assms(1)] assms(2) in \<open>force simp: fs_update_def\<close>)+

lemma atomic_steps:
  assumes "RenameTemp \<notin> set sts" "\<And>s. d_temp (st_dir (fold fs_do sts s)) = Some f" "\<And>s. st_synced (fold fs_do sts s)"
  shows "atomic_update (fs_update (sts @ [RenameTemp])) f"
proof (rule atomic_update.intro [OF update_steps [OF assms(1,2)]], unfold_locales)
  fix outs d d'
  assume "fs_update (sts @ [RenameTemp]) outs d = (Crashed, d')"
  from fs_run_file [OF this [unfolded fs_update_def] assms(1)] assms(2,3)
  show "d_file d' = d_file d \<or> d_file d' = Some f" by (auto simp: survives_def)
qed

lemma fs_do_simps:
  "st_dir (fs_do st s) = fs_effect st (st_dir s)"
  "st_synced (fs_do st s) = (case st of SyncTemp \<Rightarrow> True | WriteTemp b \<Rightarrow> False | _ \<Rightarrow> st_synced s)"
  by (simp_all add: fs_do_def)

interpretation env_update: atomic_update "writeEnvFile es vals" "\<lparr>fl_mode = 384, fl_data = env_text es vals\<rparr>"
proof -
  have "writeEnvFile es vals =
      fs_update ([MkdirAll, CreateTemp, ChmodTemp 384, WriteTemp (env_text es vals), SyncTemp, CloseTemp] @ [RenameTemp])"
    by (rule ext)+ (simp add: writeEnvFile_def writeEnvFile_steps_def)
  then show "atomic_update (writeEnvFile es vals) \<lparr>fl_mode = 384, fl_data = env_text es vals\<rparr>"
    by (simp only:) (rule atomic_steps, simp_all add: fs_do_simps)
qed

interpretation key_removal: atomic_update "fs_update (removeEnvKey_steps mode buf)" "\<lparr>fl_mode = mode, fl_data = buf\<rparr>"
proof -
  have "removeEnvKey_steps mode buf = [CreateTemp, ChmodTemp mode, WriteTemp buf, SyncTemp, CloseTemp] @ [RenameTemp]"
    by (simp add: removeEnvKey_steps_def)
  then show "atomic_update (fs_update (removeEnvKey_steps mode buf)) \<lparr>fl_mode = mode, fl_data = buf\<rparr>"
    by (simp only:) (rule atomic_steps, simp_all add: fs_do_simps)
qed

text \<open>The status file is not synced: it is replaced, but a machine that stops can leave it cut.\<close>

interpretation status_update: file_update "fs_update (writeEnrollmentStatus_steps body)"
  "\<lparr>fl_mode = 416, fl_data = body @ [CHR 0x0A]\<rparr>"
proof -
  have "writeEnrollmentStatus_steps body =
      [MkdirAll, CreateTemp, ChmodTemp 416, WriteTemp (body @ [CHR 0x0A]), CloseTemp] @ [RenameTemp]"
    by (simp add: writeEnrollmentStatus_steps_def)
  then show "file_update (fs_update (writeEnrollmentStatus_steps body)) \<lparr>fl_mode = 416, fl_data = body @ [CHR 0x0A]\<rparr>"
    by (simp only:) (rule update_steps, simp_all add: fs_do_simps)
qed

lemma status_file_cut:
  "fs_update (writeEnrollmentStatus_steps body) (replicate 6 FsOk @ [FsCrash n True]) d =
     (Crashed, \<lparr>d_file = Some \<lparr>fl_mode = 416, fl_data = take n (body @ [CHR 0x0A])\<rparr>, d_temp = None\<rparr>)"
  by (cases d) (simp add: fs_update_def writeEnrollmentStatus_steps_def fs_do_def fs_stop_def survives_def Let_def
      numeral_eq_Suc)

section \<open>What is written is read back\<close>

text \<open>The names and values the agent stores: upper-case names, and values that parsing leaves alone.\<close>

definition env_name_char :: "char \<Rightarrow> bool" where
  "env_name_char c \<longleftrightarrow> (65 \<le> byte c \<and> byte c \<le> 90) \<or> (48 \<le> byte c \<and> byte c \<le> 57) \<or> byte c = 95"

definition env_name :: "string \<Rightarrow> bool" where
  "env_name k \<longleftrightarrow> k \<noteq> [] \<and> list_all env_name_char k"

definition env_value :: "string \<Rightarrow> bool" where
  "env_value v \<longleftrightarrow>
     v \<noteq> [] \<and> list_all ascii v \<and> CHR 0x0A \<notin> set v \<and> \<not> space_char (hd v) \<and> \<not> space_char (last v) \<and> unquote v = v"

definition env_entry :: "string \<times> string \<Rightarrow> bool" where
  "env_entry e \<longleftrightarrow> env_name (fst e) \<and> env_value (snd e) \<and> length (fst e) + length (snd e) < 65535"

abbreviation env_body :: "string \<times> string \<Rightarrow> string" where
  "env_body e \<equiv> fst e @ ''='' @ snd e"

lemma env_name_char_facts:
  "env_name_char c \<Longrightarrow> ascii c \<and> \<not> space_char c \<and> c \<noteq> CHR ''='' \<and> c \<noteq> CHR ''#'' \<and> c \<noteq> CHR ''e'' \<and> c \<noteq> CHR 0x0A"
  by (auto simp: env_name_char_def ascii_def space_char_def)

lemma env_name_facts:
  assumes "env_name k"
  shows "list_all ascii k" "CHR ''='' \<notin> set k" "CHR 0x0A \<notin> set k" "trim_space k = k" "k \<noteq> []"
    "\<not> space_char (hd k)" "hd k \<noteq> CHR ''#''" "hd k \<noteq> CHR ''e''"
proof -
  have c: "\<And>c. c \<in> set k \<Longrightarrow> env_name_char c" and ne: "k \<noteq> []"
    using assms by (auto simp: env_name_def list_all_iff)
  then show a: "list_all ascii k" using env_name_char_facts by (auto simp: list_all_iff)
  show "CHR ''='' \<notin> set k" "CHR 0x0A \<notin> set k" using c env_name_char_facts by blast+
  show "k \<noteq> []" by (rule ne)
  show "\<not> space_char (hd k)" "hd k \<noteq> CHR ''#''" "hd k \<noteq> CHR ''e''"
    using c [of "hd k"] ne env_name_char_facts [of "hd k"] by auto
  then show "trim_space k = k"
    using c [of "last k"] ne env_name_char_facts [of "last k"] by (intro trim_space_id a) auto
qed

lemma parse_env_body:
  assumes "env_entry e"
  shows "parse_env_line (env_body e) = Some e"
proof -
  obtain k v where e: "e = (k, v)" by (cases e)
  have k: "env_name k" and v: "env_value v" using assms by (auto simp: env_entry_def e)
  note kf = env_name_facts [OF k]
  have vf: "v \<noteq> []" "list_all ascii v" "\<not> space_char (hd v)" "\<not> space_char (last v)" "unquote v = v"
    using v by (auto simp: env_value_def)
  have tv: "trim_space v = v" using vf by (intro trim_space_id) auto
  have line: "trim_space (k @ CHR ''='' # v) = k @ CHR ''='' # v"
    using kf vf by (intro trim_space_id) (auto simp: ascii_def hd_append)
  obtain c cs where c: "k = c # cs" "c \<noteq> CHR ''#''" "c \<noteq> CHR ''e''"
    using kf(5,7,8) by (cases k) auto
  then have "\<not> has_prefix (k @ CHR ''='' # v) ''#''" "trim_prefix (k @ CHR ''='' # v) ''export '' = k @ CHR ''='' # v"
    by (simp_all add: trim_prefix_def)
  then show ?thesis
    using line kf tv vf by (simp add: parse_env_line_def e Let_def)
qed

lemma split_terminated:
  "(\<And>l. l \<in> set ls \<Longrightarrow> c \<notin> set l) \<Longrightarrow> split_byte c (concat (map (\<lambda>l. l @ [c]) ls)) = ls @ [[]]"
  by (induction ls) (simp_all add: split_byte_append)

lemma env_body_no_nl: "env_entry e \<Longrightarrow> CHR 0x0A \<notin> set (env_body e)"
  using env_name_facts(3) by (auto simp: env_entry_def env_value_def)

lemma env_lines: "concat (map env_line es) = concat (map (\<lambda>l. l @ [CHR 0x0A]) (map env_body es))"
  by (induction es) (simp_all add: env_line_def)

lemma raw_lines_env: "list_all env_entry es \<Longrightarrow> raw_lines (concat (map env_line es)) = map env_body es"
proof -
  assume "list_all env_entry es"
  then have "split_byte CHR 0x0A (concat (map env_line es)) = map env_body es @ [[]]"
    unfolding env_lines using env_body_no_nl by (intro split_terminated) (auto simp: list_all_iff)
  then show ?thesis by (simp add: raw_lines_def Let_def)
qed

lemma drop_cr_env: "env_entry e \<Longrightarrow> drop_cr (env_body e) = env_body e"
  by (auto simp: drop_cr_def env_entry_def env_value_def space_char_def)

lemma scan_env: "list_all env_entry es \<Longrightarrow> scan_lines (concat (map env_line es)) = (map env_body es, False)"
proof -
  assume es: "list_all env_entry es"
  have t: "takeWhile (\<lambda>l. length l < 65536) (map env_body es) = map env_body es"
    using es by (auto simp: takeWhile_eq_all_conv env_entry_def list_all_iff)
  have "map drop_cr (map env_body es) = map env_body es"
    using es drop_cr_env by (induction es) auto
  then show ?thesis
    by (simp only: scan_lines_def raw_lines_env [OF es] Let_def t) simp
qed

text \<open>Loading entries of distinct names gives the map of these entries.\<close>

lemma load_entries:
  assumes "list_all env_entry es" "distinct (map fst es)"
  shows "loadEnvFile (Contents (concat (map env_line es))) = (None, fold (\<lambda>(k, v). gm_set k v) es [])"
    and "gm_get (fold (\<lambda>(k, v). gm_set k v) es []) k = map_of es k"
proof -
  have "fold add_env_line (map env_body es) m = fold (\<lambda>(k, v). gm_set k v) es m" for m
    using assms(1)
  proof (induction es arbitrary: m)
    case (Cons e es)
    then have "add_env_line (env_body e) m = (case e of (k, v) \<Rightarrow> gm_set k v m)"
      using parse_env_body [of e] by (simp add: add_env_line_def)
    with Cons show ?case by (cases e) simp
  qed simp
  then show "loadEnvFile (Contents (concat (map env_line es))) = (None, fold (\<lambda>(k, v). gm_set k v) es [])"
    using scan_env [OF assms(1)] by (simp add: loadEnvFile_def)
  have "gm_get (fold (\<lambda>(k, v). gm_set k v) es m) k = (case map_of es k of Some v \<Rightarrow> Some v | None \<Rightarrow> gm_get m k)" for m
    using assms(2)
  proof (induction es arbitrary: m)
    case (Cons e es)
    then have "fst e \<notin> fst ` set es" by simp
    then have "map_of es (fst e) = None" by (simp add: map_of_eq_None_iff)
    with Cons show ?case by (cases e) (auto split: option.splits)
  qed simp
  from this [of "[]"] show "gm_get (fold (\<lambda>(k, v). gm_set k v) es []) k = map_of es k"
    by (auto split: option.splits)
qed

lemma map_filter_fst:
  "map fst (List.map_filter (\<lambda>k. map_option (Pair k) (m k)) ks) = filter (\<lambda>k. m k \<noteq> None) ks"
  by (induction ks) (auto simp: List.map_filter_def)

lemma set_map_filter_pairs:
  "set (List.map_filter (\<lambda>k. map_option (Pair k) (m k)) ks) = {(k, v). k \<in> set ks \<and> m k = Some v}"
  by (induction ks) (auto simp: List.map_filter_def)

lemma distinct_fst_filter: "distinct (map fst xs) \<Longrightarrow> distinct (map fst (filter P xs))"
  by (induction xs) (auto simp: image_iff)

lemma filter_fst_disjoint: "A \<inter> set (map fst (filter (\<lambda>e. fst e \<notin> A \<and> P e) es)) = {}"
  by auto

lemma env_order_distinct: "distinct env_order"
  by (simp add: env_order_def envDeviceEnrollmentToken_def)

text \<open>The written entries are the non-empty ones of the map, each once.\<close>

lemma env_entries_spec:
  assumes "gm_wf vals" "mset es = mset vals"
  shows "set (env_entries es vals) = {e \<in> set vals. snd e \<noteq> []}"
    and "distinct (map fst (env_entries es vals))"
    and "map_of (env_entries es vals) k = (case gm_get vals k of Some v \<Rightarrow> if v = [] then None else Some v | None \<Rightarrow> None)"
proof -
  let ?first = "filter (\<lambda>e. snd e \<noteq> []) (List.map_filter (\<lambda>k. map_option (Pair k) (gm_get vals k)) env_order)"
  let ?rest = "filter (\<lambda>e. fst e \<notin> set (map fst ?first) \<and> snd e \<noteq> []) es"
  have entries: "env_entries es vals = ?first @ ?rest" by (simp add: env_entries_def Let_def)
  have es: "set es = set vals" using assms(2) by (metis set_mset_mset)
  have get: "gm_get vals k = Some v \<longleftrightarrow> (k, v) \<in> set vals" for k v
    by (rule gm_get_mem [OF assms(1)])
  have first: "set ?first = {(k, v). k \<in> set env_order \<and> (k, v) \<in> set vals \<and> v \<noteq> []}"
    by (auto simp: set_map_filter_pairs get)
  have uniq: "v = w" if "(k, v) \<in> set vals" "(k, w) \<in> set vals" for k v w
    using that get by (metis option.inject)
  show sub: "set (env_entries es vals) = {e \<in> set vals. snd e \<noteq> []}"
    unfolding entries set_append first using es uniq by (force simp: first [simplified])
  have "distinct (map fst ?first)"
    using env_order_distinct by (intro distinct_fst_filter) (simp add: map_filter_fst)
  moreover have "distinct (map fst ?rest)"
    using assms by (intro distinct_fst_filter) (metis gm_wf_def mset_eq_imp_distinct_iff mset_map)
  moreover have "set (map fst ?first) \<inter> set (map fst ?rest) = {}" by (rule filter_fst_disjoint)
  ultimately show dist: "distinct (map fst (env_entries es vals))"
    unfolding entries map_append distinct_append by blast
  show "map_of (env_entries es vals) k = (case gm_get vals k of Some v \<Rightarrow> if v = [] then None else Some v | None \<Rightarrow> None)"
  proof (cases "gm_get vals k")
    case None
    then have "k \<notin> fst ` set (env_entries es vals)"
      unfolding sub by (auto simp: gm_get_None_iff)
    then show ?thesis using None by (simp add: map_of_eq_None_iff)
  next
    case (Some v)
    show ?thesis
    proof (cases "v = []")
      case True
      then have "k \<notin> fst ` set (env_entries es vals)"
        unfolding sub using Some uniq get by fastforce
      then show ?thesis using Some True by (simp add: map_of_eq_None_iff)
    next
      case False
      then have "(k, v) \<in> set (env_entries es vals)" unfolding sub using Some get by simp
      then show ?thesis using Some False dist by simp
    qed
  qed
qed

definition env_clean :: "(string, string) gomap \<Rightarrow> bool" where
  "env_clean vals \<longleftrightarrow> gm_wf vals \<and> list_all env_entry (filter (\<lambda>e. snd e \<noteq> []) vals)"

lemma load_env_text:
  assumes "env_clean vals" "mset es = mset vals"
  shows "\<exists>m. loadEnvFile (Contents (env_text es vals)) = (None, m) \<and>
    (\<forall>k. gm_get m k = (case gm_get vals k of Some v \<Rightarrow> if v = [] then None else Some v | None \<Rightarrow> None))"
proof -
  have wf: "gm_wf vals" using assms(1) by (simp add: env_clean_def)
  note spec = env_entries_spec [OF wf assms(2)]
  have "list_all env_entry (env_entries es vals)"
    using assms(1) spec(1) by (auto simp: env_clean_def list_all_iff)
  from load_entries [OF this spec(2)] show ?thesis by (simp add: env_text_def spec(3))
qed

section \<open>Properties\<close>

text \<open>
  C14. Whatever entries \<open>writeEnvFile\<close> is given, whichever of its calls fails and wherever the machine stops, also
  between the rename and the return, and whatever of the unsynced data that loses: the environment file
  is the old one, untouched, after an error; the new one, whole and of mode 0600, on success; and one of these two
  when the machine stopped. For entries that are clean (names of capital letters, digits and underscores, and
  values without line breaks, surrounding quotes or spaces, which the code does not check), the new file is read
  back by the loader, without error and in whatever order the map was ranged over, to the entries that were
  written, but for those with an empty value.
\<close>

theorem env_update_atomic:
  assumes "mset es = mset vals" and "writeEnvFile es vals outs d = (r, d')"
  defines "new \<equiv> Some \<lparr>fl_mode = 384, fl_data = env_text es vals\<rparr>"
  shows "(case r of
        Done \<Rightarrow> d_file d' = new \<and> d_temp d' = None
      | Failed e \<Rightarrow> d_file d' = d_file d \<and> d_temp d' = None
      | Crashed \<Rightarrow> d_file d' = d_file d \<or> d_file d' = new) \<and>
    (env_clean vals \<longrightarrow>
      (\<exists>m. loadEnvFile (Contents (env_text es vals)) = (None, m) \<and>
        (\<forall>k. gm_get m k = (case gm_get vals k of Some v \<Rightarrow> if v = [] then None else Some v | None \<Rightarrow> None))))"
  using load_env_text [OF _ assms(1)] env_update.success [of es vals outs d d'] assms(2)
    env_update.failure [of es vals outs d _ d'] env_update.crash [of es vals outs d d']
  by (cases r) (auto simp: new_def)

definition demo_env :: "(string, string) gomap" where
  "demo_env =
     [(''HASFY_DEVICE_ID'', ''d1''), (envDeviceEnrollmentToken, ''one-shot''), (''HASFY_ORG_ID'', []),
      (''HASFY_RELAY_URL'', ''wss://relay.hasfy.fr/agent/ws''), (''EXTRA'', ''x=1'')]"

lemma demo_env_clean: "env_clean demo_env"
  by (simp add: env_clean_def demo_env_def gm_wf_def envDeviceEnrollmentToken_def env_entry_def env_name_def
      env_name_char_def env_value_def ascii_def space_char_def unquote_def quoted_by_def)

definition empty_dir :: dir where
  "empty_dir = \<lparr>d_file = None, d_temp = None\<rparr>"

theorem env_update_atomic_witness:
  "\<exists>d' f m. writeEnvFile demo_env demo_env [FsOk, FsOk] empty_dir = (Done, d') \<and> d_file d' = Some f \<and>
     loadEnvFile (Contents (fl_data f)) = (None, m) \<and> gm_get m ''EXTRA'' = Some ''x=1'' \<and> gm_get m ''HASFY_ORG_ID'' = None"
proof -
  obtain d' where w: "writeEnvFile demo_env demo_env [FsOk, FsOk] empty_dir = (Done, d')"
    using env_update.all_ok [of "[FsOk, FsOk]" demo_env demo_env empty_dir] by auto
  from env_update_atomic [OF refl w] demo_env_clean obtain m where
    f: "d_file d' = Some \<lparr>fl_mode = 384, fl_data = env_text demo_env demo_env\<rparr>"
      "loadEnvFile (Contents (env_text demo_env demo_env)) = (None, m)"
      "\<And>k. gm_get m k = (case gm_get demo_env k of Some v \<Rightarrow> if v = [] then None else Some v | None \<Rightarrow> None)"
    by auto
  have "gm_get m ''EXTRA'' = Some ''x=1''" "gm_get m ''HASFY_ORG_ID'' = None"
    unfolding f(3) by (simp_all add: demo_env_def gm_get_def envDeviceEnrollmentToken_def)
  with w f show ?thesis by auto
qed

lemma map_of_remove_key: "map_of (filter (\<lambda>e. fst e \<noteq> key) es) k = (if k = key then None else map_of es k)"
  by (induction es) auto

lemma join_terminated: "join [c] (ls @ [[]]) = concat (map (\<lambda>l. l @ [c]) ls)"
proof (induction ls)
  case (Cons l ls)
  then show ?case by (cases "ls @ [[]]") auto
qed simp

lemma env_body_prefix:
  assumes "env_entry e" "env_name key"
  shows "has_prefix (env_body e) (key @ ''='') \<longleftrightarrow> fst e = key"
proof
  assume "has_prefix (env_body e) (key @ ''='')"
  then obtain r where r: "fst e @ CHR ''='' # snd e = key @ CHR ''='' # r" by (auto simp: has_prefix_iff)
  have "CHR ''='' \<notin> set (fst e)" "CHR ''='' \<notin> set key"
    using assms env_name_facts(2) by (auto simp: env_entry_def)
  then have "index_byte (fst e @ CHR ''='' # snd e) CHR ''='' = Some (length (fst e))"
    "index_byte (key @ CHR ''='' # r) CHR ''='' = Some (length key)"
    by simp_all
  then have "length (fst e) = length key" using r by simp
  then show "fst e = key" using r by simp
qed (auto simp: has_prefix_iff)

lemma remove_env_entries:
  assumes "list_all env_entry es" "env_name key"
  shows "remove_env_lines key (concat (map env_line es)) =
    (if key \<in> fst ` set es then Some (concat (map env_line (filter (\<lambda>e. fst e \<noteq> key) es))) else None)"
proof -
  let ?keep = "\<lambda>l. \<not> has_prefix l (key @ ''='')"
  have split: "split_byte CHR 0x0A (concat (map env_line es)) = map env_body es @ [[]]"
    unfolding env_lines using assms(1) env_body_no_nl by (intro split_terminated) (auto simp: list_all_iff)
  have kept: "filter ?keep (map env_body es @ [[]]) = map env_body (filter (\<lambda>e. fst e \<noteq> key) es) @ [[]]"
    using assms(1)
  proof (induction es)
    case Nil
    then show ?case by (cases key) simp_all
  next
    case (Cons e es)
    then show ?case using env_body_prefix [of e key] assms(2) by simp
  qed
  have "length (filter (\<lambda>e. fst e \<noteq> key) es) = length es \<longleftrightarrow> key \<notin> fst ` set es"
  proof (cases "key \<in> fst ` set es")
    case True
    then obtain e where "e \<in> set es" "\<not> fst e \<noteq> key" by auto
    then show ?thesis using True length_filter_less [of e es "\<lambda>e. fst e \<noteq> key"] by simp
  next
    case False
    then have "filter (\<lambda>e. fst e \<noteq> key) es = es" by (intro filter_True) auto
    then show ?thesis using False by simp
  qed
  then show ?thesis
    unfolding remove_env_lines_def Let_def split kept by (simp add: join_terminated env_lines del: map_append)
qed

text \<open>
  Removing the spent enrolment secret, or any other key, from a file the agent wrote: on success
  the loader finds every entry but that key, as before, and the mode is unchanged; after an error the file is
  untouched, and a machine that stops finds it in one of these two states.
\<close>

lemma spent_key_removed:
  assumes "env_clean vals" and "mset es = mset vals" and "env_name key" and "path \<noteq> []"
    and "d_file d = Some \<lparr>fl_mode = mode, fl_data = env_text es vals\<rparr>"
    and "removeEnvKey path key outs d = (r, d')"
  defines "removed \<equiv> \<exists>f m. d_file d' = Some f \<and> fl_mode f = mode \<and> loadEnvFile (Contents (fl_data f)) = (None, m) \<and>
           (\<forall>k. gm_get m k = (if k = key then None
                              else case gm_get vals k of Some v \<Rightarrow> if v = [] then None else Some v | None \<Rightarrow> None))"
  shows "case r of Done \<Rightarrow> removed | Failed e \<Rightarrow> d_file d' = d_file d | Crashed \<Rightarrow> d_file d' = d_file d \<or> removed"
proof -
  let ?es = "env_entries es vals"
  let ?kept = "filter (\<lambda>e. fst e \<noteq> key) ?es"
  have wf: "gm_wf vals" using assms(1) by (simp add: env_clean_def)
  note spec = env_entries_spec [OF wf assms(2)]
  have ok: "list_all env_entry ?es" using assms(1) spec(1) by (auto simp: env_clean_def list_all_iff)
  have get: "map_of ?kept k = (if k = key then None
      else case gm_get vals k of Some v \<Rightarrow> if v = [] then None else Some v | None \<Rightarrow> None)" for k
    unfolding spec(3) [symmetric] by (rule map_of_remove_key)
  have "list_all env_entry ?kept" "distinct (map fst ?kept)"
    using ok spec(2) by (auto simp: list_all_iff intro: distinct_fst_filter)
  note load = load_entries [OF this, unfolded get]
  have rm: "remove_env_lines key (env_text es vals) =
      (if key \<in> fst ` set ?es then Some (concat (map env_line ?kept)) else None)"
    unfolding env_text_def by (rule remove_env_entries [OF ok assms(3)])
  show ?thesis
  proof (cases "key \<in> fst ` set ?es")
    case True
    then have run: "fs_update (removeEnvKey_steps mode (concat (map env_line ?kept))) outs d = (r, d')"
      using assms(4-6) rm by (simp add: removeEnvKey_def)
    show ?thesis
      using key_removal.success [of mode "concat (map env_line ?kept)" outs d d']
        key_removal.failure [of mode "concat (map env_line ?kept)" outs d _ d']
        key_removal.crash [of mode "concat (map env_line ?kept)" outs d d'] run load
      by (cases r) (auto simp: removed_def)
  next
    case False
    then have "r = Done \<and> d' = d" using assms(4-6) rm by (simp add: removeEnvKey_def)
    moreover have "?kept = ?es" using False by (intro filter_True) auto
    ultimately show ?thesis using load assms(5) by (auto simp: env_text_def removed_def)
  qed
qed

lemma demo_env_token: "env_name envDeviceEnrollmentToken"
  by (simp add: envDeviceEnrollmentToken_def env_name_def env_name_char_def)

lemma spent_key_removed_witness:
  "\<exists>d' f m. removeEnvKey ''/etc/hasfy/agent.env'' envDeviceEnrollmentToken []
       (empty_dir\<lparr>d_file := Some \<lparr>fl_mode = 384, fl_data = env_text demo_env demo_env\<rparr>\<rparr>) = (Done, d') \<and>
     d_file d' = Some f \<and> loadEnvFile (Contents (fl_data f)) = (None, m) \<and>
     gm_get m envDeviceEnrollmentToken = None \<and> gm_get m ''HASFY_DEVICE_ID'' = Some ''d1''"
proof -
  let ?d = "empty_dir\<lparr>d_file := Some \<lparr>fl_mode = 384, fl_data = env_text demo_env demo_env\<rparr>\<rparr>"
  let ?path = "''/etc/hasfy/agent.env''"
  obtain r d' where w: "removeEnvKey ?path envDeviceEnrollmentToken [] ?d = (r, d')" by fastforce
  have "fst (removeEnvKey ?path envDeviceEnrollmentToken [] ?d) = Done"
    using fs_run_ok [of "[]"] by (simp add: removeEnvKey_def fs_update_def split: option.split)
  then have "r = Done" using w by simp
  with spent_key_removed [OF demo_env_clean refl demo_env_token _ _ w] obtain f m where
    "d_file d' = Some f" "loadEnvFile (Contents (fl_data f)) = (None, m)"
      "\<And>k. gm_get m k = (if k = envDeviceEnrollmentToken then None
         else case gm_get demo_env k of Some v \<Rightarrow> if v = [] then None else Some v | None \<Rightarrow> None)"
    by auto
  then show ?thesis
    using w \<open>r = Done\<close> by (auto simp: demo_env_def gm_get_def envDeviceEnrollmentToken_def)
qed

text \<open>
  Removal looks for the name at the start of a line only, but the loaders also accept \<open>export\<close>
  before it: a secret in such a line stays on disk, is still loaded, and its removal reports success.
\<close>

lemma exported_key_survives:
  "removeEnvKey ''/etc/hasfy/agent.env'' envDeviceEnrollmentToken []
      (empty_dir\<lparr>d_file := Some \<lparr>fl_mode = 384, fl_data = ''export HASFY_DEVICE_ENROLLMENT_TOKEN=s'' @ [CHR 0x0A]\<rparr>\<rparr>)
     = (Done, empty_dir\<lparr>d_file := Some \<lparr>fl_mode = 384, fl_data = ''export HASFY_DEVICE_ENROLLMENT_TOKEN=s'' @ [CHR 0x0A]\<rparr>\<rparr>) \<and>
   gm_get (snd (loadEnvFile (Contents (''export HASFY_DEVICE_ENROLLMENT_TOKEN=s'' @ [CHR 0x0A])))) envDeviceEnrollmentToken
     = Some ''s''"
proof
  show "removeEnvKey ''/etc/hasfy/agent.env'' envDeviceEnrollmentToken []
      (empty_dir\<lparr>d_file := Some \<lparr>fl_mode = 384, fl_data = ''export HASFY_DEVICE_ENROLLMENT_TOKEN=s'' @ [CHR 0x0A]\<rparr>\<rparr>)
     = (Done, empty_dir\<lparr>d_file := Some \<lparr>fl_mode = 384, fl_data = ''export HASFY_DEVICE_ENROLLMENT_TOKEN=s'' @ [CHR 0x0A]\<rparr>\<rparr>)"
    by (simp add: removeEnvKey_def remove_env_lines_def envDeviceEnrollmentToken_def)
  have t: "trim_space ''export HASFY_DEVICE_ENROLLMENT_TOKEN=s'' = ''export HASFY_DEVICE_ENROLLMENT_TOKEN=s''"
    "trim_space ''HASFY_DEVICE_ENROLLMENT_TOKEN'' = ''HASFY_DEVICE_ENROLLMENT_TOKEN''" "trim_space ''s'' = ''s''"
    by (rule trim_space_id; simp add: ascii_def space_char_def)+
  show "gm_get (snd (loadEnvFile (Contents (''export HASFY_DEVICE_ENROLLMENT_TOKEN=s'' @ [CHR 0x0A])))) envDeviceEnrollmentToken
     = Some ''s''"
    by (simp add: loadEnvFile_def scan_lines_def raw_lines_def drop_cr_def add_env_line_def parse_env_line_def Let_def t
        trim_prefix_def unquote_def quoted_by_def envDeviceEnrollmentToken_def)
qed

text \<open>
  Nothing checks the values that the server gives: one with a line break becomes two entries of the file, and
  one in quotes is read back without them.
\<close>

lemma line_break_adds_entry:
  defines "vals \<equiv> [(''HASFY_ORG_ID'', ''o1'' @ [CHR 0x0A] @ ''HASFY_API_URL=u'')]"
  shows "gm_get vals ''HASFY_API_URL'' = None \<and>
    gm_get (snd (loadEnvFile (Contents (env_text vals vals)))) ''HASFY_API_URL'' = Some ''u''"
proof -
  have t: "trim_space ''HASFY_ORG_ID=o1'' = ''HASFY_ORG_ID=o1''" "trim_space ''HASFY_API_URL=u'' = ''HASFY_API_URL=u''"
    "trim_space ''HASFY_ORG_ID'' = ''HASFY_ORG_ID''" "trim_space ''HASFY_API_URL'' = ''HASFY_API_URL''"
    "trim_space ''o1'' = ''o1''" "trim_space ''u'' = ''u''"
    by (rule trim_space_id; simp add: ascii_def space_char_def)+
  have "env_text vals vals = ''HASFY_ORG_ID=o1'' @ [CHR 0x0A] @ ''HASFY_API_URL=u'' @ [CHR 0x0A]"
    by (simp add: vals_def env_text_def env_entries_def env_order_def env_line_def gm_get_def envDeviceEnrollmentToken_def
        List.map_filter_def)
  then show ?thesis
    by (simp add: vals_def loadEnvFile_def scan_lines_def raw_lines_def drop_cr_def add_env_line_def parse_env_line_def Let_def t
        trim_prefix_def unquote_def quoted_by_def gm_get_def gm_set_def)
qed

lemma quotes_are_lost:
  "parse_env_line (''HASFY_ORG_ID='' @ [CHR 0x22] @ ''o1'' @ [CHR 0x22]) = Some (''HASFY_ORG_ID'', ''o1'')"
proof -
  have t: "trim_space (''HASFY_ORG_ID='' @ [CHR 0x22] @ ''o1'' @ [CHR 0x22]) = ''HASFY_ORG_ID='' @ [CHR 0x22] @ ''o1'' @ [CHR 0x22]"
    "trim_space ''HASFY_ORG_ID'' = ''HASFY_ORG_ID''"
    "trim_space ([CHR 0x22] @ ''o1'' @ [CHR 0x22]) = [CHR 0x22] @ ''o1'' @ [CHR 0x22]"
    by (rule trim_space_id; simp add: ascii_def space_char_def)+
  show ?thesis using t by (simp add: parse_env_line_def Let_def trim_prefix_def unquote_def quoted_by_def)
qed

lemma add_env_default_keeps: "gm_get env k \<noteq> None \<Longrightarrow> gm_get (add_env_default l env) k = gm_get env k"
  by (auto simp: add_env_default_def setenv_def split: option.splits)

lemma fold_default_keeps: "gm_get env k \<noteq> None \<Longrightarrow> gm_get (fold add_env_default ls env) k = gm_get env k"
  by (induction ls arbitrary: env) (simp_all add: add_env_default_keeps)

text \<open>
  The relay's loader never overrides a variable of the process and adds every other variable of a
  file of clean entries.
\<close>

lemma relay_env_defaults:
  assumes "env_clean vals" and "mset es = mset vals" and "list_all (\<lambda>e. CHR 0x00 \<notin> set (snd e)) vals"
  shows "gm_get (relay_loadEnvFile (Contents (env_text es vals)) env) k =
    (case gm_get env k of
       Some v \<Rightarrow> Some v
     | None \<Rightarrow> (case gm_get vals k of Some v \<Rightarrow> if v = [] then None else Some v | None \<Rightarrow> None))"
proof -
  let ?es = "env_entries es vals"
  have wf: "gm_wf vals" using assms(1) by (simp add: env_clean_def)
  note spec = env_entries_spec [OF wf assms(2)]
  have ok: "list_all env_entry ?es" using assms(1) spec(1) by (auto simp: env_clean_def list_all_iff)
  have nul: "list_all (\<lambda>e. CHR 0x00 \<notin> set (snd e)) ?es" using assms(3) spec(1) by (auto simp: list_all_iff)
  have "gm_get (fold add_env_default (map env_body xs) env) k =
      (case gm_get env k of Some v \<Rightarrow> Some v | None \<Rightarrow> map_of xs k)"
    if "list_all env_entry xs" "list_all (\<lambda>e. CHR 0x00 \<notin> set (snd e)) xs" for xs env
    using that
  proof (induction xs arbitrary: env)
    case (Cons x xs)
    obtain n v where x: "x = (n, v)" by (cases x)
    have n: "env_name n" using Cons.prems by (simp add: x env_entry_def)
    then have "CHR 0x00 \<notin> set n" by (auto simp: env_name_def list_all_iff env_name_char_def)
    then have "add_env_default (env_body x) env = (if gm_get env n = None then gm_set n v env else env)"
      using Cons.prems parse_env_body [of x] env_name_facts [OF n] by (simp add: x add_env_default_def setenv_def)
    with Cons.IH [of "add_env_default (env_body x) env"] Cons.prems x show ?case by (auto split: option.splits)
  qed (simp split: option.split)
  from this [OF ok nul, of env] show ?thesis
    using scan_env [OF ok] by (cases "gm_get env k") (simp_all add: relay_loadEnvFile_def env_text_def spec(3))
qed

lemma relay_env_defaults_witness:
  "gm_get (relay_loadEnvFile (Contents (env_text demo_env demo_env)) [(''EXTRA'', ''kept'')]) ''EXTRA'' = Some ''kept'' \<and>
   gm_get (relay_loadEnvFile (Contents (env_text demo_env demo_env)) []) ''EXTRA'' = Some ''x=1''"
proof -
  have "list_all (\<lambda>e. CHR 0x00 \<notin> set (snd e)) demo_env"
    by (simp add: demo_env_def envDeviceEnrollmentToken_def)
  note w = relay_env_defaults [OF demo_env_clean refl this]
  show ?thesis unfolding w by (simp add: gm_get_def demo_env_def envDeviceEnrollmentToken_def)
qed

end
