(* ===== verification/AgentExec.thy ===== *)
theory AgentExec
  imports Proto Encoding Redact EnvFile
begin

text \<open>
  One command on the device: \<open>cmd/agent/buffer.go\<close>, \<open>cmd/agent/script.go\<close> and \<open>runExec\<close>,
  \<open>emitOutput\<close> and \<open>isSensitiveEnvName\<close> of \<open>cmd/agent/exec.go\<close>. The operating system is an input,
  the record \<open>exec_world\<close>: what becomes of the file system calls and of the start of the process,
  the chunks read from its two pipes, and how it ends. \<open>runExec\<close> gives the frames it sends, in
  order, the command it starts and what is left of the script's directory.
\<close>

section \<open>Capped buffers\<close>

record capBuffer =
  cb_buf :: bytes
  cb_max :: int
  cb_full :: bool

definition newCapBuffer :: "int \<Rightarrow> capBuffer" where
  "newCapBuffer n = \<lparr>cb_buf = [], cb_max = n, cb_full = False\<rparr>"

text \<open>The count that \<open>Write\<close> reports; its error is always nil.\<close>

definition capBuffer_Write :: "bytes \<Rightarrow> capBuffer \<Rightarrow> nat \<times> capBuffer" where
  "capBuffer_Write p b =
     (if cb_full b then (length p, b)
      else
        (let remain = cb_max b - int (length (cb_buf b)) in
         if remain \<le> 0 then (length p, b\<lparr>cb_full := True\<rparr>)
         else
           (let b' = (if remain < int (length p) then b\<lparr>cb_full := True\<rparr> else b);
                p' = (if remain < int (length p) then take (nat remain) p else p)
            in (length p', b'\<lparr>cb_buf := cb_buf b' @ p'\<rparr>))))"

text \<open>
  \<open>io.Copy\<close> from a pipe into a writer, as \<open>os/exec\<close> runs it for a writer that is not a file: a write
  that reports fewer bytes than it was given ends the copy with \<open>ErrShortWrite\<close>.
\<close>

fun io_copy :: "bytes list \<Rightarrow> capBuffer \<Rightarrow> bool \<times> capBuffer" where
  "io_copy [] b = (False, b)"
| "io_copy (p # ps) b =
     (case capBuffer_Write p b of (n, b') \<Rightarrow> if n \<noteq> length p then (True, b') else io_copy ps b')"

section \<open>Scripts\<close>

text \<open>\<open>quote\<close> is the \<open>%q\<close> verb of package fmt.\<close>

definition interpreterCommand :: "(string \<Rightarrow> string) \<Rightarrow> string \<Rightarrow> string \<Rightarrow> string + (string \<times> string)" where
  "interpreterCommand quote goos name =
     (if name = ''bash'' then Inr (''bash'', ''.sh'')
      else if name = ''sh'' then Inr (''sh'', ''.sh'')
      else if name = ''python'' \<or> name = ''python3'' then Inr (''python3'', ''.py'')
      else if name = ''powershell'' \<or> name = ''pwsh'' then
        (if goos = ''windows'' then Inr (''powershell.exe'', ''.ps1'') else Inr (''pwsh'', ''.ps1''))
      else Inl (''unsupported interpreter '' @ quote name))"

text \<open>The private directory: its mode and the script file.\<close>

record script_dir =
  sd_mode :: nat
  sd_file :: "(string \<times> fs_file) option"

datatype script_step = SMkdirTemp | SChmod | SOpen string | SWrite bytes | SSync | SClose

fun script_effect :: "script_step \<Rightarrow> script_dir option \<Rightarrow> script_dir option" where
  "script_effect SMkdirTemp d = Some \<lparr>sd_mode = 448, sd_file = None\<rparr>"
| "script_effect SChmod d = map_option (\<lambda>x. x\<lparr>sd_mode := 448\<rparr>) d"
| "script_effect (SOpen path) d = map_option (\<lambda>x. x\<lparr>sd_file := Some (path, \<lparr>fl_mode = 384, fl_data = []\<rparr>)\<rparr>) d"
| "script_effect (SWrite b) d =
     map_option (\<lambda>x. x\<lparr>sd_file := map_option (\<lambda>(p, f). (p, f\<lparr>fl_data := fl_data f @ b\<rparr>)) (sd_file x)\<rparr>) d"
| "script_effect SSync d = d"
| "script_effect SClose d = d"

fun script_error :: "script_step \<Rightarrow> string" where
  "script_error SMkdirTemp = ''create script directory: ''"
| "script_error SChmod = ''chmod script directory: ''"
| "script_error (SOpen path) = ''create script file: ''"
| "script_error (SWrite b) = ''write script: ''"
| "script_error SSync = ''sync script: ''"
| "script_error SClose = ''close script: ''"

text \<open>
  The calls in order; the first that fails (\<open>Some\<close> error) removes the directory and is returned.
  Calls beyond the list of outcomes succeed.
\<close>

fun script_run :: "script_step list \<Rightarrow> string option list \<Rightarrow> script_dir option \<Rightarrow> string option \<times> script_dir option" where
  "script_run [] outs d = (None, d)"
| "script_run (st # sts) [] d = script_run sts [] (script_effect st d)"
| "script_run (st # sts) (None # outs) d = script_run sts outs (script_effect st d)"
| "script_run (st # sts) (Some e # outs) d = (Some (script_error st @ e), None)"

definition script_argv :: "string \<Rightarrow> string \<Rightarrow> string \<Rightarrow> string list" where
  "script_argv interpreter cmd path =
     (if interpreter = ''powershell'' \<or> interpreter = ''pwsh''
      then [cmd, ''-NoProfile'', ''-NonInteractive'', ''-ExecutionPolicy'', ''Bypass'', ''-File'', path]
      else [cmd, path])"

text \<open>\<open>dir\<close> is the name \<open>MkdirTemp\<close> makes; the second result is the directory left behind.\<close>

definition script_path :: "string \<Rightarrow> string \<Rightarrow> string \<Rightarrow> string" where
  "script_path goos dir ext = dir @ (if goos = ''windows'' then [CHR 0x5C] else ''/'') @ ''script'' @ ext"

definition materialiseScript ::
  "(string \<Rightarrow> string) \<Rightarrow> string \<Rightarrow> string \<Rightarrow> string option list \<Rightarrow> Script \<Rightarrow> (string + string list) \<times> script_dir option" where
  "materialiseScript quote goos dir outs script =
     (case interpreterCommand quote goos (s_Interpreter script) of
        Inl e \<Rightarrow> (Inl e, None)
      | Inr (cmd, ext) \<Rightarrow>
          if s_Content script = [] then (Inl ''script body is empty'', None)
          else
            (let path = script_path goos dir ext in
             case script_run [SMkdirTemp, SChmod, SOpen path, SWrite (s_Content script), SSync, SClose] outs None of
               (Some e, d) \<Rightarrow> (Inl e, d)
             | (None, d) \<Rightarrow> (Inr (script_argv (s_Interpreter script) cmd path), d)))"

section \<open>Running a command\<close>

definition isSensitiveEnvName :: "string \<Rightarrow> bool" where
  "isSensitiveEnvName k \<longleftrightarrow>
     k \<in> {''HASFY_RELAY_TOKEN'', ''HASFY_DEVICE_ID'', ''HASFY_ORG_ID'', ''HASFY_RELAY_URL''} \<or>
     (5 < length k \<and> (take 5 k = ''AWS_S'' \<or> take 5 k = ''AWS_A''))"

text \<open>What is started: \<open>cm_env\<close> is \<open>None\<close> when the agent's own environment is inherited as it is.\<close>

record command =
  cm_argv :: "string list"
  cm_dir :: string
  cm_env :: "string list option"
  cm_stdin :: bytes
  cm_timeout :: time

datatype proc_end = Exited int | Killed

record exec_world =
  ew_quote :: "string \<Rightarrow> string"
  ew_goos :: string
  ew_dir :: string
  ew_outs :: "string option list"
  ew_environ :: "string list"
  ew_envorder :: "string list"
  ew_start :: "string + int"
  ew_stdout :: "bytes list"
  ew_stderr :: "bytes list"
  ew_end :: proc_end
  ew_ctx_err :: bool
  ew_started :: time
  ew_ended :: time

definition defaultTimeoutMs :: int where "defaultTimeoutMs = 60000"

definition emitOutput :: "string \<Rightarrow> string \<Rightarrow> FrameType \<Rightarrow> bytes \<Rightarrow> Frame" where
  "emitOutput sid eid t b = (frame t sid eid)\<lparr>f_Output := Some \<lparr>o_Data = std_encode (Redact b)\<rparr>\<rparr>"

definition extra_env :: "(string \<times> string) list \<Rightarrow> string list" where
  "extra_env es = map (\<lambda>(k, v). k @ ''='' @ v) (filter (\<lambda>(k, v). \<not> isSensitiveEnvName k) es)"

text \<open>
  What \<open>range\<close> meets in a map: every entry once, in an order the map does not fix. \<open>keys\<close> is the order this time;
  a key it leaves out comes at the end.
\<close>

definition range_order :: "string list \<Rightarrow> (string, string) gomap \<Rightarrow> (string \<times> string) list" where
  "range_order keys m =
     concat (map (\<lambda>k. case gm_get m k of Some v \<Rightarrow> [(k, v)] | None \<Rightarrow> []) (remdups (keys @ map fst m)))"

definition exec_command :: "exec_world \<Rightarrow> Exec \<Rightarrow> string list \<Rightarrow> command" where
  "exec_command w x argv =
     \<lparr>cm_argv = argv, cm_dir = x_Cwd x,
      cm_env = (if x_Env x = [] then None else Some (ew_environ w @ extra_env (range_order (ew_envorder w) (x_Env x)))),
      cm_stdin = (case (if x_Stdin x = [] then None else std_decode (x_Stdin x)) of Some b \<Rightarrow> b | None \<Rightarrow> []),
      cm_timeout = wrap64 ((if x_TimeoutMs x \<le> 0 then defaultTimeoutMs else x_TimeoutMs x) * millisecond)\<rparr>"

text \<open>
  The exit code from \<open>cmd.Wait\<close>: the process's own when it is not zero, -1 when it was killed, and -1
  for a process that succeeded if the context had expired or a copy failed.
\<close>

definition wait_code :: "proc_end \<Rightarrow> bool \<Rightarrow> bool \<Rightarrow> int" where
  "wait_code e ctx_err copy_err =
     (case e of
        Exited n \<Rightarrow> if n \<noteq> 0 then n else if ctx_err \<or> copy_err then -1 else 0
      | Killed \<Rightarrow> -1)"

definition exec_limit :: "Exec \<Rightarrow> int" where
  "exec_limit x = (if x_OutputCap x \<le> 0 then 2 ^ 20 else x_OutputCap x)"

definition output_frames :: "string \<Rightarrow> string \<Rightarrow> bytes \<Rightarrow> bytes \<Rightarrow> Frame list" where
  "output_frames sid eid stdout stderr =
     (if stdout \<noteq> [] then [emitOutput sid eid TypeStdout stdout] else []) @
     (if stderr \<noteq> [] then [emitOutput sid eid TypeStderr stderr] else [])"

definition ack_frame :: "string \<Rightarrow> string \<Rightarrow> time \<Rightarrow> int \<Rightarrow> Frame" where
  "ack_frame sid eid now pid =
     (frame TypeExecAck sid eid)\<lparr>f_ExecAck := Some \<lparr>ea_StartedAt = now, ea_PID = pid\<rparr>\<rparr>"

definition exit_frame :: "string \<Rightarrow> string \<Rightarrow> int \<Rightarrow> time \<Rightarrow> bool \<Rightarrow> Frame" where
  "exit_frame sid eid code now truncated =
     (frame TypeExit sid eid)
       \<lparr>f_Exit := Some \<lparr>e_ExitCode = code, e_EndedAt = now, e_Truncated = truncated\<rparr>\<rparr>"

text \<open>
  \<open>runExec\<close> for the payload \<open>x\<close> of the frame with ids \<open>sid\<close> and \<open>eid\<close>. The results are the frames
  sent, the command given to the operating system, if one was, and the script directory that is
  there while it runs; the deferred \<open>cleanup\<close> removes it.
\<close>

definition prepare_argv :: "exec_world \<Rightarrow> Exec \<Rightarrow> (string + string list) \<times> script_dir option" where
  "prepare_argv w x =
     (case x_Script x of
        None \<Rightarrow> (Inr (x_Argv x), None)
      | Some sc \<Rightarrow> materialiseScript (ew_quote w) (ew_goos w) (ew_dir w) (ew_outs w) sc)"

definition runExec :: "exec_world \<Rightarrow> string \<Rightarrow> string \<Rightarrow> Exec \<Rightarrow> Frame list \<times> command option \<times> script_dir option" where
  "runExec w sid eid x =
     (case prepare_argv w x of
        (Inl e, _) \<Rightarrow> ([refusal sid eid (ew_ended w) ''script_prepare_failed'' e], None, None)
      | (Inr argv, d) \<Rightarrow>
          if argv = [] then ([refusal sid eid (ew_ended w) ''exec_empty_argv'' ''no command to run''], None, None)
          else
            (let cmd = exec_command w x argv in
             case ew_start w of
               Inl e \<Rightarrow> ([refusal sid eid (ew_ended w) ''exec_start_failed'' e], Some cmd, d)
             | Inr pid \<Rightarrow>
                 (let (err1, stdout) = io_copy (ew_stdout w) (newCapBuffer (exec_limit x));
                      (err2, stderr) = io_copy (ew_stderr w) (newCapBuffer (exec_limit x));
                      code = wait_code (ew_end w) (ew_ctx_err w) (err1 \<or> err2)
                  in (ack_frame sid eid (ew_started w) pid
                      # output_frames sid eid (cb_buf stdout) (cb_buf stderr)
                      @ [exit_frame sid eid code (ew_ended w) (cb_full stdout \<or> cb_full stderr)],
                      Some cmd, d))))"

section \<open>What a capped buffer keeps\<close>

lemma newCapBuffer_simps [simp]:
  "cb_buf (newCapBuffer n) = []" "cb_max (newCapBuffer n) = n" "cb_full (newCapBuffer n) = False"
  by (simp_all add: newCapBuffer_def)

lemma io_copy_full: "cb_full b \<Longrightarrow> io_copy ps b = (False, b)"
  by (induction ps) (simp_all add: capBuffer_Write_def)

lemma io_copy_room:
  "\<not> cb_full b \<Longrightarrow> int (length (cb_buf b) + length p) \<le> cb_max b \<Longrightarrow> p \<noteq> [] \<Longrightarrow>
   io_copy (p # ps) b = io_copy ps (b\<lparr>cb_buf := cb_buf b @ p\<rparr>)"
  by (cases p) (simp_all add: capBuffer_Write_def Let_def)

lemma io_copy_at_cap:
  "\<not> cb_full b \<Longrightarrow> int (length (cb_buf b)) = cb_max b \<Longrightarrow> io_copy (p # ps) b = (False, b\<lparr>cb_full := True\<rparr>)"
  by (simp add: capBuffer_Write_def io_copy_full)

lemma io_copy_straddle:
  "\<not> cb_full b \<Longrightarrow> int (length (cb_buf b)) < cb_max b \<Longrightarrow> cb_max b < int (length (cb_buf b) + length p) \<Longrightarrow>
   io_copy (p # ps) b =
     (True, b\<lparr>cb_full := True, cb_buf := cb_buf b @ take (nat (cb_max b) - length (cb_buf b)) p\<rparr>)"
  by (auto simp: capBuffer_Write_def Let_def nat_diff_distrib')

declare io_copy.simps(2) [simp del]

text \<open>
  A chunk straddles the limit when it begins below it and ends beyond it: the buffer then reports a
  short write. No chunk straddles when the limit is reached exactly at the end of one.
\<close>

fun straddles :: "int \<Rightarrow> bytes list \<Rightarrow> bool" where
  "straddles room [] = False"
| "straddles room (p # ps) = (0 < room \<and> (room < int (length p) \<or> straddles (room - int (length p)) ps))"

lemma io_copy_capture:
  assumes "\<not> cb_full b" "int (length (cb_buf b)) \<le> cb_max b" "[] \<notin> set ps"
  shows "io_copy ps b =
    (straddles (cb_max b - int (length (cb_buf b))) ps,
     b\<lparr>cb_buf := take (nat (cb_max b)) (cb_buf b @ concat ps),
       cb_full := cb_max b < int (length (cb_buf b @ concat ps))\<rparr>)"
  using assms
proof (induction ps arbitrary: b)
  case (Cons p ps)
  let ?n = "length (cb_buf b)"
  consider "int ?n = cb_max b" | "int ?n < cb_max b" "cb_max b < int (?n + length p)"
    | "int (?n + length p) \<le> cb_max b"
    using Cons.prems(2) by linarith
  then show ?case
  proof cases
    case 1
    then have "nat (cb_max b) = ?n" by simp
    moreover from Cons.prems have "0 < int (length p) + int (length (concat ps))" by (cases p) auto
    ultimately show ?thesis using Cons.prems 1 by (simp add: io_copy_at_cap)
  next
    case 2
    then show ?thesis using Cons.prems by (simp add: io_copy_straddle)
  next
    case 3
    let ?b = "b\<lparr>cb_buf := cb_buf b @ p\<rparr>"
    from Cons.prems have "0 < length p" by auto
    with 3 have "0 < cb_max b - int ?n" by linarith
    moreover have "io_copy (p # ps) b = io_copy ps ?b"
      using Cons.prems 3 by (auto intro: io_copy_room)
    moreover have "io_copy ps ?b =
        (straddles (cb_max b - int ?n - int (length p)) ps,
         b\<lparr>cb_buf := take (nat (cb_max b)) (cb_buf b @ p @ concat ps),
           cb_full := cb_max b < int (length (cb_buf b @ p @ concat ps))\<rparr>)"
      using Cons.IH [of ?b] Cons.prems 3 by (simp add: algebra_simps)
    ultimately show ?thesis using 3 by simp
  qed
qed simp

lemma straddles_total: "straddles n ps \<Longrightarrow> n < int (length (concat ps))"
  by (induction n ps rule: straddles.induct) auto

lemma io_copy_new:
  assumes "0 < n" "[] \<notin> set ps"
  shows "io_copy ps (newCapBuffer n) =
    (straddles n ps, \<lparr>cb_buf = take (nat n) (concat ps), cb_max = n, cb_full = n < int (length (concat ps))\<rparr>)"
  using io_copy_capture [of "newCapBuffer n" ps] assms by (simp add: newCapBuffer_def)

lemma straddlesI:
  "int (length (concat as)) < n \<Longrightarrow> n < int (length (concat as) + length p) \<Longrightarrow> straddles n (as @ p # bs)"
  by (induction as arbitrary: n) auto

lemma straddlesE:
  assumes "straddles n ps"
  obtains as p bs where "ps = as @ p # bs" "int (length (concat as)) < n" "n < int (length (concat as) + length p)"
  using assms
proof (induction n ps arbitrary: thesis rule: straddles.induct)
  case (2 n q ps)
  show ?case
  proof (cases "n < int (length q)")
    case True
    with "2.prems" show ?thesis by (intro "2.prems"(1) [of "[]" q ps]) auto
  next
    case False
    with "2.prems" have "straddles (n - int (length q)) ps" "0 < n" by auto
    with "2.IH" False obtain as p bs where "ps = as @ p # bs"
      "int (length (concat as)) < n - int (length q)" "n - int (length q) < int (length (concat as) + length p)"
      by metis
    then show ?thesis by (intro "2.prems"(1) [of "q # as" p bs]) auto
  qed
qed simp

lemma straddles_iff:
  "straddles n ps \<longleftrightarrow>
    (\<exists>as p bs. ps = as @ p # bs \<and> int (length (concat as)) < n \<and> n < int (length (concat as) + length p))"
  by (blast intro: straddlesI elim: straddlesE)

text \<open>
  The output a command's pipe delivers, in non-empty chunks and with a positive limit, is kept up to
  the limit and no further, and it is marked truncated exactly when it was longer. The copy ends with
  an error, which the caller reports as a failed command, exactly when some chunk begins below
  the limit and ends beyond it: \<open>Write\<close> then returns less than the length it was given.
\<close>

lemma cap_buffer_captures:
  assumes "0 < n" "[] \<notin> set ps"
  shows "cb_buf (snd (io_copy ps (newCapBuffer n))) = take (nat n) (concat ps) \<and>
    (cb_full (snd (io_copy ps (newCapBuffer n))) \<longleftrightarrow> n < int (length (concat ps))) \<and>
    (fst (io_copy ps (newCapBuffer n)) \<longleftrightarrow>
      (\<exists>as p bs. ps = as @ p # bs \<and> int (length (concat as)) < n \<and> n < int (length (concat as) + length p)))"
  using assms by (simp add: io_copy_new straddles_iff)

lemma cap_buffer_captures_witness:
  "cb_buf (snd (io_copy [''abc'', ''def''] (newCapBuffer 4))) = ''abcd'' \<and>
   cb_full (snd (io_copy [''abc'', ''def''] (newCapBuffer 4))) \<and>
   fst (io_copy [''abc'', ''def''] (newCapBuffer 4))"
proof -
  have "\<exists>as p bs. [''abc'', ''def''] = as @ p # bs \<and> int (length (concat as)) < 4 \<and>
      4 < int (length (concat as) + length p)"
    by (intro exI [of _ "[''abc'']"] exI [of _ "''def''"] exI [of _ "[]"]) simp
  then show ?thesis using cap_buffer_captures [of 4 "[''abc'', ''def'']"] by simp
qed

section \<open>Scripts stay in private files\<close>

lemma script_run_result:
  "script_run sts outs d = (r, d') \<Longrightarrow> d' = (case r of None \<Rightarrow> fold script_effect sts d | Some e \<Rightarrow> None)"
  by (induction sts outs d arbitrary: r d' rule: script_run.induct) (auto split: option.split)

lemma script_run_errors: "map script_error sts = map script_error sts' \<Longrightarrow>
   fst (script_run sts outs d) = fst (script_run sts' outs d')"
proof (induction sts arbitrary: sts' outs d d')
  case (Cons st sts)
  then obtain st' ts where sts': "sts' = st' # ts" "script_error st = script_error st'"
    "map script_error sts = map script_error ts"
    by (cases sts') auto
  show ?case
  proof (cases outs)
    case Nil
    with sts' Cons.IH [of ts] show ?thesis by simp
  next
    case (Cons out outs')
    with sts' Cons.IH [of ts] show ?thesis by (cases out) simp_all
  qed
qed simp

abbreviation script_steps :: "string \<Rightarrow> bytes \<Rightarrow> script_step list" where
  "script_steps path content \<equiv> [SMkdirTemp, SChmod, SOpen path, SWrite content, SSync, SClose]"

lemma script_written:
  "fold script_effect (script_steps path content) None =
     Some \<lparr>sd_mode = 448, sd_file = Some (path, \<lparr>fl_mode = 384, fl_data = content\<rparr>)\<rparr>"
  by simp

lemma script_argv_ends [simp]:
  "hd (script_argv i cmd path) = cmd" "last (script_argv i cmd path) = path" "script_argv i cmd path \<noteq> []"
  by (simp_all add: script_argv_def)

lemma interpreterCommand_Inr:
  "interpreterCommand quote goos i = Inr (cmd, ext) \<Longrightarrow>
   cmd \<in> {''bash'', ''sh'', ''python3'', ''pwsh'', ''powershell.exe''}"
  by (auto simp: interpreterCommand_def split: if_splits)

lemma materialise_cases:
  assumes "materialiseScript quote goos dir outs sc = (r, d)"
  obtains (failed) e where "r = Inl e" "d = None"
  | (ready) cmd ext where "interpreterCommand quote goos (s_Interpreter sc) = Inr (cmd, ext)" "s_Content sc \<noteq> []"
      "fst (script_run (script_steps (script_path goos dir ext) (s_Content sc)) outs None) = None"
      "r = Inr (script_argv (s_Interpreter sc) cmd (script_path goos dir ext))"
      "d = Some \<lparr>sd_mode = 448, sd_file = Some (script_path goos dir ext, \<lparr>fl_mode = 384, fl_data = s_Content sc\<rparr>)\<rparr>"
proof (cases "interpreterCommand quote goos (s_Interpreter sc)")
  case (Inl e)
  with assms have "r = Inl e" "d = None" by (auto simp: materialiseScript_def)
  then show ?thesis by (rule failed)
next
  case (Inr ce)
  obtain cmd ext where ce: "ce = (cmd, ext)" by (cases ce)
  obtain o1 d1 where run: "script_run (script_steps (script_path goos dir ext) (s_Content sc)) outs None = (o1, d1)"
    by (cases "script_run (script_steps (script_path goos dir ext) (s_Content sc)) outs None")
  note d1 = script_run_result [OF run, unfolded script_written]
  show ?thesis
  proof (cases "s_Content sc = []")
    case True
    with assms Inr ce have "r = Inl ''script body is empty''" "d = None" by (auto simp: materialiseScript_def)
    then show ?thesis by (rule failed)
  next
    case False
    show ?thesis
    proof (cases o1)
      case None
      with assms False Inr ce run d1 have
        "r = Inr (script_argv (s_Interpreter sc) cmd (script_path goos dir ext))"
        "d = Some \<lparr>sd_mode = 448, sd_file = Some (script_path goos dir ext, \<lparr>fl_mode = 384, fl_data = s_Content sc\<rparr>)\<rparr>"
        by (auto simp: materialiseScript_def Let_def simp del: script_run.simps)
      with Inr ce run None False show ?thesis by (intro ready [of cmd ext]) simp_all
    next
      case (Some e)
      with assms False Inr ce run d1 have "r = Inl e" "d = None"
        by (auto simp: materialiseScript_def Let_def simp del: script_run.simps)
      then show ?thesis by (rule failed)
    qed
  qed
qed

text \<open>
  C24. A script body reaches the device as file data only. When \<open>materialiseScript\<close> succeeds, the
  directory has mode 0700, the one file in it has mode 0600 and holds exactly the body, the command
  is one of five fixed interpreters run on that file, and any other body would have given the same
  argument vector. When it fails, nothing is left on disk.
\<close>

theorem script_stays_private:
  "case materialiseScript quote goos dir outs sc of
     (Inl e, d) \<Rightarrow> d = None
   | (Inr argv, d) \<Rightarrow>
       d = Some \<lparr>sd_mode = 448, sd_file = Some (last argv, \<lparr>fl_mode = 384, fl_data = s_Content sc\<rparr>)\<rparr> \<and>
       hd argv \<in> {''bash'', ''sh'', ''python3'', ''pwsh'', ''powershell.exe''} \<and>
       (\<forall>body. body \<noteq> [] \<longrightarrow> fst (materialiseScript quote goos dir outs (sc\<lparr>s_Content := body\<rparr>)) = Inr argv)"
proof (cases "materialiseScript quote goos dir outs sc")
  case (Pair r d)
  then show ?thesis
  proof (cases rule: materialise_cases)
    case (failed e)
    with Pair show ?thesis by simp
  next
    case (ready cmd ext)
    have "fst (materialiseScript quote goos dir outs (sc\<lparr>s_Content := body\<rparr>)) = r" if "body \<noteq> []" for body
    proof -
      have "fst (script_run (script_steps (script_path goos dir ext) body) outs None) = None"
        using ready(3) script_run_errors [of "script_steps (script_path goos dir ext) body"
            "script_steps (script_path goos dir ext) (s_Content sc)" outs None None] by simp
      with ready that show ?thesis
        by (auto simp: materialiseScript_def Let_def split: prod.splits option.splits simp del: script_run.simps)
    qed
    with Pair ready show ?thesis by (simp add: interpreterCommand_Inr [simplified])
  qed
qed

definition demo_script :: Script where
  "demo_script = \<lparr>s_Interpreter = ''bash'', s_Content = ''id''\<rparr>"

theorem script_stays_private_witness:
  "fst (materialiseScript (\<lambda>s. s) ''linux'' ''/tmp/hasfy-script-1'' [] (demo_script\<lparr>s_Content := ''rm -rf /''\<rparr>)) =
     Inr [''bash'', ''/tmp/hasfy-script-1/script.sh'']"
proof -
  have "materialiseScript (\<lambda>s. s) ''linux'' ''/tmp/hasfy-script-1'' [] demo_script =
      (Inr [''bash'', ''/tmp/hasfy-script-1/script.sh''],
       Some \<lparr>sd_mode = 448, sd_file = Some (''/tmp/hasfy-script-1/script.sh'', \<lparr>fl_mode = 384, fl_data = ''id''\<rparr>)\<rparr>)"
    by (simp add: demo_script_def materialiseScript_def interpreterCommand_def script_path_def script_argv_def Let_def)
  with script_stays_private [where quote = "\<lambda>s. s" and goos = "''linux''" and dir = "''/tmp/hasfy-script-1''"
      and outs = "[]" and sc = demo_script] show ?thesis
    by simp
qed

section \<open>What a command's run reports\<close>

definition reports_once :: "string \<Rightarrow> string \<Rightarrow> Frame list \<Rightarrow> bool" where
  "reports_once sid eid fs \<longleftrightarrow>
     list_all (\<lambda>f. f_SessionID f = sid \<and> f_ExecID f = eid) fs \<and>
     fs \<noteq> [] \<and> f_Type (last fs) = TypeExit \<and> f_Exit (last fs) \<noteq> None \<and>
     list_all (\<lambda>f. f_Type f \<in> {TypeExecAck, TypeStdout, TypeStderr} \<and> f_Exit f = None) (butlast fs) \<and>
     distinct (map f_Type fs)"

lemma emitOutput_simps [simp]:
  "f_Type (emitOutput sid eid t b) = t" "f_SessionID (emitOutput sid eid t b) = sid"
  "f_ExecID (emitOutput sid eid t b) = eid" "f_Exit (emitOutput sid eid t b) = None"
  "f_Output (emitOutput sid eid t b) = Some \<lparr>o_Data = std_encode (Redact b)\<rparr>"
  "f_Error (emitOutput sid eid t b) = None"
  by (simp_all add: emitOutput_def)

lemma ack_frame_simps [simp]:
  "f_Type (ack_frame sid eid now pid) = TypeExecAck" "f_SessionID (ack_frame sid eid now pid) = sid"
  "f_ExecID (ack_frame sid eid now pid) = eid" "f_Exit (ack_frame sid eid now pid) = None"
  "f_Output (ack_frame sid eid now pid) = None" "f_Error (ack_frame sid eid now pid) = None"
  by (simp_all add: ack_frame_def)

lemma exit_frame_simps [simp]:
  "f_Type (exit_frame sid eid code now tr) = TypeExit" "f_SessionID (exit_frame sid eid code now tr) = sid"
  "f_ExecID (exit_frame sid eid code now tr) = eid" "f_Error (exit_frame sid eid code now tr) = None"
  "f_Exit (exit_frame sid eid code now tr) = Some \<lparr>e_ExitCode = code, e_EndedAt = now, e_Truncated = tr\<rparr>"
  "f_Output (exit_frame sid eid code now tr) = None"
  by (simp_all add: exit_frame_def)

lemma refusal_ids [simp]: "f_ExecID (refusal sid eid now code msg) = eid"
  by (simp add: refusal_def)

lemma reports_refusal [simp]: "reports_once sid eid [refusal sid eid now code msg]"
  by (simp add: reports_once_def)

lemma reports_run [simp]:
  "reports_once sid eid (ack_frame sid eid now pid # output_frames sid eid so se @ [exit_frame sid eid code now' tr])"
  by (simp add: reports_once_def output_frames_def)

lemma runExec_reports: "reports_once sid eid (fst (runExec w sid eid x))"
  by (simp add: runExec_def Let_def split: prod.split sum.split)

text \<open>
  The run of a command that starts, in closed form: what the pipes delivered is cut at the limit
  and redacted, and the exit frame tells whether a stream was longer than the limit.
\<close>

definition exec_started :: "exec_world \<Rightarrow> Exec \<Rightarrow> int \<Rightarrow> bool" where
  "exec_started w x pid \<longleftrightarrow>
     (case prepare_argv w x of (Inr argv, d) \<Rightarrow> argv \<noteq> [] | _ \<Rightarrow> False) \<and> ew_start w = Inr pid \<and>
     [] \<notin> set (ew_stdout w) \<and> [] \<notin> set (ew_stderr w)"

definition captured :: "Exec \<Rightarrow> bytes list \<Rightarrow> bytes" where
  "captured x ps = take (nat (exec_limit x)) (concat ps)"

definition overflowed :: "Exec \<Rightarrow> bytes list \<Rightarrow> bool" where
  "overflowed x ps \<longleftrightarrow> exec_limit x < int (length (concat ps))"

lemma exec_limit_pos [simp]: "0 < exec_limit x"
  by (simp add: exec_limit_def)

lemma runExec_started:
  assumes "exec_started w x pid"
  shows "fst (runExec w sid eid x) =
    ack_frame sid eid (ew_started w) pid
    # output_frames sid eid (captured x (ew_stdout w)) (captured x (ew_stderr w))
    @ [exit_frame sid eid
         (wait_code (ew_end w) (ew_ctx_err w)
           (straddles (exec_limit x) (ew_stdout w) \<or> straddles (exec_limit x) (ew_stderr w)))
         (ew_ended w) (overflowed x (ew_stdout w) \<or> overflowed x (ew_stderr w))]"
  using assms
  by (auto simp: exec_started_def runExec_def io_copy_new captured_def overflowed_def split: prod.splits sum.splits)

text \<open>
  C23. Every request to run a command is answered by exactly one exit frame, the last frame sent, in
  all branches: refusals, a start that fails, a run. All frames carry the ids of the request, and
  no frame type comes twice. A command that starts and ends by itself with code 0 within its time
  is reported as 0 unless a chunk of its output straddled the limit: then it is reported as -1,
  truncated, although it succeeded.
\<close>

theorem exec_reports_once:
  assumes "exec_started w x pid" "ew_end w = Exited 0" "\<not> ew_ctx_err w"
  shows "reports_once sid eid (fst (runExec w' sid eid x')) \<and>
    (\<exists>e. f_Exit (last (fst (runExec w sid eid x))) = Some e \<and>
       e_Truncated e = (overflowed x (ew_stdout w) \<or> overflowed x (ew_stderr w)) \<and>
       e_ExitCode e = (if straddles (exec_limit x) (ew_stdout w) \<or> straddles (exec_limit x) (ew_stderr w) then -1 else 0))"
  using assms by (simp add: runExec_reports runExec_started wait_code_def)

definition demo_world :: "bytes list \<Rightarrow> exec_world" where
  "demo_world out =
     \<lparr>ew_quote = (\<lambda>s. s), ew_goos = ''linux'', ew_dir = ''/tmp/hasfy-script-1'', ew_outs = [], ew_environ = [],
      ew_envorder = [], ew_start = Inr 42, ew_stdout = out, ew_stderr = [], ew_end = Exited 0,
      ew_ctx_err = False, ew_started = 0, ew_ended = 1\<rparr>"

definition demo_exec :: Exec where
  "demo_exec = \<lparr>x_Argv = [''id''], x_Cwd = [], x_Env = [], x_Stdin = [], x_TimeoutMs = 0, x_OutputCap = 4, x_Script = None\<rparr>"

theorem exec_reports_once_witness:
  "(\<exists>e. f_Exit (last (fst (runExec (demo_world [''abc'', ''def'']) ''s'' ''e'' demo_exec))) = Some e \<and>
     e_Truncated e \<and> e_ExitCode e = -1)"
proof -
  have "exec_started (demo_world [''abc'', ''def'']) demo_exec 42" "ew_end (demo_world [''abc'', ''def'']) = Exited 0"
    "\<not> ew_ctx_err (demo_world [''abc'', ''def''])"
    by (simp_all add: exec_started_def prepare_argv_def demo_world_def demo_exec_def)
  from exec_reports_once [OF this, of "''s''" "''e''" "demo_world []" demo_exec] show ?thesis
    by (simp add: demo_world_def demo_exec_def overflowed_def exec_limit_def)
qed

section \<open>The environment of a command\<close>

lemma range_order_mem: "(k, v) \<in> set (range_order keys m) \<longleftrightarrow> gm_get m k = Some v"
proof -
  have "(k, v) \<in> set (concat (map (\<lambda>k. case gm_get m k of Some v \<Rightarrow> [(k, v)] | None \<Rightarrow> []) ks))
      \<longleftrightarrow> k \<in> set ks \<and> gm_get m k = Some v" for ks
    by (induction ks) (auto split: option.split)
  moreover have "k \<in> fst ` set m" if "gm_get m k = Some v"
    using that by (force simp: gm_get_def dest: map_of_SomeD)
  ultimately show ?thesis
    unfolding range_order_def by (simp only: set_remdups set_append set_map Un_iff) blast
qed

lemma range_order_once: "distinct (map fst (range_order keys m))"
proof -
  have "map fst (concat (map (\<lambda>k. case gm_get m k of Some v \<Rightarrow> [(k, v)] | None \<Rightarrow> []) ks))
      = filter (\<lambda>k. gm_get m k \<noteq> None) ks" for ks
    by (induction ks) (auto split: option.split)
  then show ?thesis by (simp add: range_order_def)
qed

text \<open>The command's environment: the agent's own, and then every variable of the frame that is not sensitive.\<close>

lemma exec_command_env:
  assumes "x_Env x \<noteq> []"
  shows "\<exists>extra. cm_env (exec_command w x argv) = Some (ew_environ w @ extra) \<and>
    (\<forall>kv. kv \<in> set extra \<longleftrightarrow> (\<exists>k v. gm_get (x_Env x) k = Some v \<and> \<not> isSensitiveEnvName k \<and> kv = k @ ''='' @ v))"
  using assms range_order_mem by (auto simp: exec_command_def extra_env_def image_iff split_beta)

text \<open>A variable of the agent's own configuration that the filter lets through.\<close>

lemma enrollment_token_passes: "\<not> isSensitiveEnvName envDeviceEnrollmentToken"
  by (simp add: isSensitiveEnvName_def envDeviceEnrollmentToken_def)

end
