(* ===== verification/Pty.thy ===== *)
theory Pty
  imports AgentExec
begin

text \<open>
  Interactive shells: \<open>cmd/agent/pty.go\<close>, \<open>pty_unix.go\<close> and \<open>pty_windows.go\<close>. A session object is
  a pointer into a heap, because the registry, the reader goroutine and the frame loop share it;
  the heap keeps objects that have left the registry, so that a shell nobody holds any more is still
  visible. What the shell writes, and whether a system call succeeds, is an input.
\<close>

section \<open>Pseudo-terminals\<close>

text \<open>
  \<open>Wait\<close> runs its body once (\<open>sync.Once\<close>) and then repeats its result. \<open>um_state\<close> is the
  \<open>ProcessState\<close> that \<open>exec.Cmd\<close> may already hold.
\<close>

datatype wait_result = WaitOk | WaitExit int | WaitFail string

record ptyMaster =
  um_once :: "(int \<times> string option) option"
  um_state :: "int option"
  um_open :: bool

definition unix_Wait :: "wait_result \<Rightarrow> ptyMaster \<Rightarrow> (int \<times> string option) \<times> ptyMaster" where
  "unix_Wait w m =
     (case um_once m of
        Some r \<Rightarrow> (r, m)
      | None \<Rightarrow>
          (let r = (case um_state m of
                      Some code \<Rightarrow> (code, None)
                    | None \<Rightarrow> (case w of WaitOk \<Rightarrow> (0, None) | WaitExit n \<Rightarrow> (n, None) | WaitFail e \<Rightarrow> (-1, Some e)))
           in (r, m\<lparr>um_once := Some r\<rparr>)))"

text \<open>ConPTY reports an exit code that the code converts with \<open>int(code)\<close>, or an error.\<close>

definition windows_Wait :: "string + 32 word \<Rightarrow> ptyMaster \<Rightarrow> (int \<times> string option) \<times> ptyMaster" where
  "windows_Wait w m =
     (case um_once m of
        Some r \<Rightarrow> (r, m)
      | None \<Rightarrow>
          (let r = (case w of Inl e \<Rightarrow> (-1, Some e) | Inr code \<Rightarrow> (uint code, None))
           in (r, m\<lparr>um_once := Some r\<rparr>)))"

text \<open>
  \<open>Close\<close> on Unix: the terminal is closed, the shell gets SIGHUP, and SIGKILL when it has not ended
  within 200 ms. A started shell always has a process.
\<close>

datatype signal = Sighup | Sigkill

definition unix_Close :: "bool \<Rightarrow> ptyMaster \<Rightarrow> signal list \<times> ptyMaster" where
  "unix_Close ends_in_time m =
     (if ends_in_time then [Sighup] else [Sighup, Sigkill], m\<lparr>um_open := False\<rparr>)"

text \<open>
  What the callers of the interface \<open>ptyMaster\<close> rely on: \<open>Wait\<close> may be called any number of times,
  also after \<open>Close\<close>, and always gives its first result; \<open>Close\<close> may be repeated.
\<close>

locale pty_master =
  fixes wait :: "'w \<Rightarrow> 'm \<Rightarrow> (int \<times> string option) \<times> 'm"
    and close :: "'m \<Rightarrow> 'm"
    and waited :: "'m \<Rightarrow> (int \<times> string option) option"
  assumes wait_first: "waited m = None \<Longrightarrow> waited (snd (wait w m)) = Some (fst (wait w m))"
    and wait_again: "waited m = Some r \<Longrightarrow> wait w m = (r, m)"
    and close_waited: "waited (close m) = waited m"
    and close_twice: "close (close m) = close m"
begin

lemma waited_after: "waited (snd (wait w m)) = Some (fst (wait w m))"
  by (cases "waited m") (simp_all add: wait_first wait_again)

lemma wait_stable: "fst (wait w' (snd (wait w m))) = fst (wait w m)"
  by (simp add: wait_again [OF waited_after])

lemma wait_after_close: "fst (wait w' (close (snd (wait w m)))) = fst (wait w m)"
  by (simp add: wait_again [OF trans [OF close_waited waited_after]])

lemma waits_agree: "waited m = Some r \<Longrightarrow> map (\<lambda>w. fst (wait w m)) ws = replicate (length ws) r"
  by (induction ws) (simp_all add: wait_again)

end

interpretation unix_master: pty_master unix_Wait "\<lambda>m. snd (unix_Close True m)" um_once
  by unfold_locales (simp_all add: unix_Wait_def unix_Close_def Let_def)

interpretation windows_master: pty_master windows_Wait "\<lambda>m. m\<lparr>um_open := False\<rparr>" um_once
  by unfold_locales (simp_all add: windows_Wait_def Let_def)

section \<open>The shell's command\<close>

definition ptyEnv :: "string \<Rightarrow> string \<Rightarrow> string \<Rightarrow> string \<Rightarrow> string list" where
  "ptyEnv goos home term_name shell =
     [''TERM='' @ term_name,
      ''HOME='' @ (if home = [] then ''/'' else home),
      ''SHELL='' @ shell,
      ''LANG=en_US.UTF-8'',
      ''LC_ALL=en_US.UTF-8'',
      ''PATH=/usr/local/bin:/usr/local/sbin:/usr/bin:/usr/sbin:/bin:/sbin'' @
        (if goos = ''darwin'' then '':/opt/homebrew/bin:/opt/homebrew/sbin'' else [])]"

definition winPtyEnv :: "string \<Rightarrow> string list \<Rightarrow> string list" where
  "winPtyEnv term_name environ =
     (let kept = filter (\<lambda>kv. \<not> has_prefix kv ''HASFY_'') environ
      in if list_ex (\<lambda>kv. has_prefix kv ''TERM='') kept then kept else kept @ [''TERM='' @ term_name])"

fun first_existing :: "(string \<Rightarrow> bool) \<Rightarrow> string list \<Rightarrow> string" where
  "first_existing exists [] = ''/bin/sh''"
| "first_existing exists (p # ps) = (if exists p then p else first_existing exists ps)"

definition defaultShell :: "string \<Rightarrow> (string \<Rightarrow> bool) \<Rightarrow> string \<Rightarrow> string" where
  "defaultShell goos exists comspec =
     (if goos = ''windows'' then (if comspec \<noteq> [] then comspec else ''cmd.exe'')
      else if goos = ''darwin'' then first_existing exists [''/bin/zsh'', ''/bin/bash'', ''/bin/sh'']
      else first_existing exists [''/bin/bash'', ''/bin/zsh'', ''/bin/sh''])"

text \<open>What the device offers: its system, its files, environment and home, and whether the shell starts.\<close>

record pty_world =
  pw_goos :: string
  pw_exists :: "string \<Rightarrow> bool"
  pw_comspec :: string
  pw_home :: string
  pw_environ :: "string list"
  pw_conpty :: bool
  pw_spawn :: "string + int"

record shell_command =
  sh_argv :: "string list"
  sh_env :: "string list"
  sh_cols :: "16 word"
  sh_rows :: "16 word"

definition spawnShell :: "pty_world \<Rightarrow> string \<Rightarrow> string \<Rightarrow> 16 word \<Rightarrow> 16 word \<Rightarrow> string + (shell_command \<times> int)" where
  "spawnShell w shell term_name cols rows =
     (if pw_goos w = ''windows'' then
        (if \<not> pw_conpty w then Inl ''ConPTY not available; Hasfy agent requires Windows 10 1809+ or Windows Server 2019+''
         else map_sum id (Pair \<lparr>sh_argv = [shell], sh_env = winPtyEnv term_name (pw_environ w), sh_cols = cols, sh_rows = rows\<rparr>)
                (pw_spawn w))
      else map_sum id
             (Pair \<lparr>sh_argv = [shell, ''-l''], sh_env = ptyEnv (pw_goos w) (pw_home w) term_name shell, sh_cols = cols, sh_rows = rows\<rparr>)
             (pw_spawn w))"

section \<open>Sessions and their registry\<close>

record ptySession =
  pt_sid :: string
  pt_cmd :: shell_command
  pt_cancelled :: bool
  pt_open :: bool
  pt_stdin :: bytes
  pt_size :: "16 word \<times> 16 word"

record ptyRegistry =
  pr_sessions :: "(string, nat) gomap"
  pr_heap :: "ptySession list"

definition newPtyRegistry :: ptyRegistry where
  "newPtyRegistry = \<lparr>pr_sessions = [], pr_heap = []\<rparr>"

definition maxParallelPtys :: nat where "maxParallelPtys = 8"

definition pty_update :: "nat \<Rightarrow> (ptySession \<Rightarrow> ptySession) \<Rightarrow> ptyRegistry \<Rightarrow> ptyRegistry" where
  "pty_update p f r = r\<lparr>pr_heap := (pr_heap r)[p := f (pr_heap r ! p)]\<rparr>"

definition pty_close :: "nat \<Rightarrow> ptyRegistry \<Rightarrow> ptyRegistry" where
  "pty_close p r = pty_update p (\<lambda>s. s\<lparr>pt_cancelled := True, pt_open := False\<rparr>) r"

text \<open>A write to a closed terminal fails; to an open one it may.\<close>

definition pty_writeStdin :: "bool \<Rightarrow> nat \<Rightarrow> bytes \<Rightarrow> ptyRegistry \<Rightarrow> bool \<times> ptyRegistry" where
  "pty_writeStdin os_fails p b r =
     (if \<not> pt_open (pr_heap r ! p) \<or> os_fails then (False, r)
      else (True, pty_update p (\<lambda>s. s\<lparr>pt_stdin := pt_stdin s @ b\<rparr>) r))"

definition pty_resize :: "bool \<Rightarrow> nat \<Rightarrow> 16 word \<Rightarrow> 16 word \<Rightarrow> ptyRegistry \<Rightarrow> bool \<times> ptyRegistry" where
  "pty_resize os_fails p cols rows r =
     (if cols = 0 \<or> rows = 0 then (True, r)
      else if \<not> pt_open (pr_heap r ! p) \<or> os_fails then (False, r)
      else (True, pty_update p (\<lambda>s. s\<lparr>pt_size := (cols, rows)\<rparr>) r))"

definition pty_get :: "ptyRegistry \<Rightarrow> string \<Rightarrow> nat option" where
  "pty_get r sid = gm_get (pr_sessions r) sid"

definition pty_put :: "string \<Rightarrow> nat \<Rightarrow> ptyRegistry \<Rightarrow> bool \<times> ptyRegistry" where
  "pty_put sid p r =
     (if gm_get (pr_sessions r) sid \<noteq> None then (False, r)
      else if maxParallelPtys \<le> gm_len (pr_sessions r) then (False, r)
      else (True, r\<lparr>pr_sessions := gm_set sid p (pr_sessions r)\<rparr>))"

definition pty_delete :: "string \<Rightarrow> ptyRegistry \<Rightarrow> nat option \<times> ptyRegistry" where
  "pty_delete sid r = (gm_get (pr_sessions r) sid, r\<lparr>pr_sessions := gm_delete sid (pr_sessions r)\<rparr>)"

definition pty_closeAll :: "ptyRegistry \<Rightarrow> ptyRegistry" where
  "pty_closeAll r = fold (\<lambda>(sid, p). pty_close p) (pr_sessions r) (r\<lparr>pr_sessions := []\<rparr>)"

text \<open>\<open>delete\<close> and then \<open>close\<close> of what was there, as the loop and the reader goroutine both do.\<close>

definition pty_remove :: "string \<Rightarrow> ptyRegistry \<Rightarrow> ptyRegistry" where
  "pty_remove sid r =
     (case pty_delete sid r of (None, r') \<Rightarrow> r' | (Some p, r') \<Rightarrow> pty_close p r')"

definition orDefault :: "'a \<Rightarrow> 'a \<Rightarrow> 'a \<Rightarrow> 'a" where
  "orDefault zero d v = (if v = zero then d else v)"

definition startPty :: "pty_world \<Rightarrow> string \<Rightarrow> PtyStart \<Rightarrow> ptyRegistry \<Rightarrow> (string + nat) \<times> ptyRegistry" where
  "startPty w sid params r =
     (if sid = [] then (Inl ''empty session id'', r)
      else
        (let shell = orDefault [] (defaultShell (pw_goos w) (pw_exists w) (pw_comspec w)) (ps_Shell params);
             term_name = orDefault [] ''xterm-256color'' (ps_Term params);
             cols = orDefault 0 80 (ps_Cols params);
             rows = orDefault 0 24 (ps_Rows params)
         in case spawnShell w shell term_name cols rows of
              Inl e \<Rightarrow> (Inl e, r)
            | Inr (cmd, pid) \<Rightarrow>
                (let p = length (pr_heap r);
                     sess = \<lparr>pt_sid = sid, pt_cmd = cmd, pt_cancelled = False, pt_open = True, pt_stdin = [], pt_size = (cols, rows)\<rparr>;
                     r1 = r\<lparr>pr_heap := pr_heap r @ [sess]\<rparr>
                 in case pty_put sid p r1 of
                      (False, r2) \<Rightarrow> (Inl ''pty already exists for session or capacity reached'', pty_close p r2)
                    | (True, r2) \<Rightarrow> (Inr p, r2))))"

text \<open>
  The two halves of a start, between which the lock is free: the shell is running before \<open>put\<close> has been asked,
  and a refused one until \<open>close\<close> has returned. \<open>startPty\<close> is the two in sequence.
\<close>

definition startPty_spawn :: "pty_world \<Rightarrow> string \<Rightarrow> PtyStart \<Rightarrow> ptyRegistry \<Rightarrow> (string + nat) \<times> ptyRegistry" where
  "startPty_spawn w sid params r =
     (if sid = [] then (Inl ''empty session id'', r)
      else
        (let cols = orDefault 0 80 (ps_Cols params); rows = orDefault 0 24 (ps_Rows params)
         in case spawnShell w (orDefault [] (defaultShell (pw_goos w) (pw_exists w) (pw_comspec w)) (ps_Shell params))
                   (orDefault [] ''xterm-256color'' (ps_Term params)) cols rows of
              Inl e \<Rightarrow> (Inl e, r)
            | Inr (cmd, pid) \<Rightarrow>
                (Inr (length (pr_heap r)),
                 r\<lparr>pr_heap := pr_heap r @ [\<lparr>pt_sid = sid, pt_cmd = cmd, pt_cancelled = False, pt_open = True, pt_stdin = [],
                                         pt_size = (cols, rows)\<rparr>]\<rparr>)))"

definition startPty_put :: "string \<Rightarrow> nat \<Rightarrow> ptyRegistry \<Rightarrow> (string + nat) \<times> ptyRegistry" where
  "startPty_put sid p r =
     (case pty_put sid p r of
        (False, r2) \<Rightarrow> (Inl ''pty already exists for session or capacity reached'', pty_close p r2)
      | (True, r2) \<Rightarrow> (Inr p, r2))"

lemma startPty_halves:
  "startPty w sid params r =
     (case startPty_spawn w sid params r of (Inl e, r1) \<Rightarrow> (Inl e, r1) | (Inr p, r1) \<Rightarrow> startPty_put sid p r1)"
  by (simp add: startPty_def startPty_spawn_def startPty_put_def Let_def split: sum.split prod.split bool.split)

section \<open>The reader goroutine\<close>

text \<open>
  One round: what \<open>Read\<close> gave, whether each of the two \<open>select\<close>s took its \<open>ctx.Done\<close> branch, and the
  code \<open>Wait\<close> would give. The results are the frames sent and whether the goroutine returns.
\<close>

record pty_read =
  rd_chunk :: bytes
  rd_err :: bool
  rd_done_data :: bool
  rd_done_exit :: bool
  rd_code :: int

definition pty_data_frame :: "string \<Rightarrow> bytes \<Rightarrow> Frame" where
  "pty_data_frame sid b = (frame TypePtyData sid [])\<lparr>f_PtyData := Some \<lparr>pd_Data = std_encode b\<rparr>\<rparr>"

definition pty_exit_frame :: "string \<Rightarrow> int \<Rightarrow> Frame" where
  "pty_exit_frame sid code = (frame TypePtyExit sid [])\<lparr>f_PtyExit := Some \<lparr>pe_ExitCode = code\<rparr>\<rparr>"

definition pty_reader_step :: "string \<Rightarrow> pty_read \<Rightarrow> Frame list \<times> bool" where
  "pty_reader_step sid e =
     (if rd_chunk e \<noteq> [] \<and> rd_done_data e then ([], True)
      else
        (let fs = (if rd_chunk e \<noteq> [] then [pty_data_frame sid (rd_chunk e)] else [])
         in if rd_err e then (fs @ (if rd_done_exit e then [] else [pty_exit_frame sid (rd_code e)]), True)
            else (fs, False)))"

fun pty_reader :: "string \<Rightarrow> pty_read list \<Rightarrow> Frame list \<times> bool" where
  "pty_reader sid [] = ([], False)"
| "pty_reader sid (e # es) =
     (case pty_reader_step sid e of
        (fs, True) \<Rightarrow> (fs, True)
      | (fs, False) \<Rightarrow> (case pty_reader sid es of (gs, stop) \<Rightarrow> (fs @ gs, stop)))"

section \<open>The session table\<close>

lemma pty_put_True:
  "pty_put sid p r = (True, r') \<longleftrightarrow>
     gm_get (pr_sessions r) sid = None \<and> gm_len (pr_sessions r) < maxParallelPtys \<and>
     r' = r\<lparr>pr_sessions := gm_set sid p (pr_sessions r)\<rparr>"
  by (auto simp: pty_put_def)

lemma pty_put_False: "pty_put sid p r = (False, r') \<Longrightarrow> r' = r"
  by (auto simp: pty_put_def split: if_splits)

interpretation shells: exclusive_table pty_get pty_put "\<lambda>sid r. snd (pty_delete sid r)"
    "\<lambda>r. gm_len (pr_sessions r) < maxParallelPtys"
  by unfold_locales (auto simp: pty_get_def pty_put_def pty_delete_def split: if_splits)

section \<open>No shell outlives its entry\<close>

text \<open>
  Every open shell is the one the registry holds for its session id, and every entry of the registry is an
  open shell with that id.
\<close>

definition pty_ok :: "ptyRegistry \<Rightarrow> bool" where
  "pty_ok r \<longleftrightarrow>
     gm_wf (pr_sessions r) \<and> gm_len (pr_sessions r) \<le> maxParallelPtys \<and>
     (\<forall>sid p. gm_get (pr_sessions r) sid = Some p \<longrightarrow>
        p < length (pr_heap r) \<and> pt_sid (pr_heap r ! p) = sid \<and>
        pt_open (pr_heap r ! p) \<and> \<not> pt_cancelled (pr_heap r ! p)) \<and>
     (\<forall>p < length (pr_heap r). pt_open (pr_heap r ! p) \<longrightarrow>
        gm_get (pr_sessions r) (pt_sid (pr_heap r ! p)) = Some p)"

lemma pty_update_heap [simp]:
  "length (pr_heap (pty_update p f r)) = length (pr_heap r)"
  "pr_sessions (pty_update p f r) = pr_sessions r"
  "q < length (pr_heap r) \<Longrightarrow> pr_heap (pty_update p f r) ! q = (if q = p then f (pr_heap r ! p) else pr_heap r ! q)"
  by (simp_all add: pty_update_def nth_list_update)

text \<open>The operations other goroutines perform on the registry, one at a time.\<close>

datatype pty_op =
    OpStart pty_world string PtyStart
  | OpWrite bool nat bytes
  | OpResize bool nat "16 word" "16 word"
  | OpRemove string
  | OpCloseAll

fun pty_apply :: "pty_op \<Rightarrow> ptyRegistry \<Rightarrow> ptyRegistry" where
  "pty_apply (OpStart w sid params) r = snd (startPty w sid params r)"
| "pty_apply (OpWrite fails p b) r = snd (pty_writeStdin fails p b r)"
| "pty_apply (OpResize fails p cols rows) r = snd (pty_resize fails p cols rows r)"
| "pty_apply (OpRemove sid) r = pty_remove sid r"
| "pty_apply OpCloseAll r = pty_closeAll r"

inductive pty_reachable :: "ptyRegistry \<Rightarrow> bool" where
  start: "pty_reachable newPtyRegistry"
| step: "pty_reachable r \<Longrightarrow> pty_reachable (pty_apply op r)"

lemma pty_okI:
  assumes "gm_wf (pr_sessions r)" "gm_len (pr_sessions r) \<le> maxParallelPtys"
    and "\<And>sid p. gm_get (pr_sessions r) sid = Some p \<Longrightarrow> p < length (pr_heap r) \<and> pt_sid (pr_heap r ! p) = sid \<and>
      pt_open (pr_heap r ! p) \<and> \<not> pt_cancelled (pr_heap r ! p)"
    and "\<And>p. p < length (pr_heap r) \<Longrightarrow> pt_open (pr_heap r ! p) \<Longrightarrow>
      gm_get (pr_sessions r) (pt_sid (pr_heap r ! p)) = Some p"
  shows "pty_ok r"
  unfolding pty_ok_def using assms by blast

lemma pty_okD:
  assumes "pty_ok r"
  shows "gm_wf (pr_sessions r)" "gm_len (pr_sessions r) \<le> maxParallelPtys"
    and "gm_get (pr_sessions r) sid = Some p \<Longrightarrow> p < length (pr_heap r) \<and> pt_sid (pr_heap r ! p) = sid \<and>
      pt_open (pr_heap r ! p) \<and> \<not> pt_cancelled (pr_heap r ! p)"
    and "p < length (pr_heap r) \<Longrightarrow> pt_open (pr_heap r ! p) \<Longrightarrow>
      gm_get (pr_sessions r) (pt_sid (pr_heap r ! p)) = Some p"
  using assms unfolding pty_ok_def by blast+

lemma pty_ok_update:
  assumes "pty_ok r"
    and "pt_sid (f (pr_heap r ! p)) = pt_sid (pr_heap r ! p)" "pt_open (f (pr_heap r ! p)) = pt_open (pr_heap r ! p)"
      "pt_cancelled (f (pr_heap r ! p)) = pt_cancelled (pr_heap r ! p)"
  shows "pty_ok (pty_update p f r)"
proof (rule pty_okI)
  fix sid q
  assume "gm_get (pr_sessions (pty_update p f r)) sid = Some q"
  with pty_okD(3) [OF assms(1), of sid q] assms(2-4)
  show "q < length (pr_heap (pty_update p f r)) \<and> pt_sid (pr_heap (pty_update p f r) ! q) = sid \<and>
      pt_open (pr_heap (pty_update p f r) ! q) \<and> \<not> pt_cancelled (pr_heap (pty_update p f r) ! q)"
    by (cases "q = p") simp_all
next
  fix q
  assume "q < length (pr_heap (pty_update p f r))" "pt_open (pr_heap (pty_update p f r) ! q)"
  with pty_okD(4) [OF assms(1), of q] assms(2-4)
  show "gm_get (pr_sessions (pty_update p f r)) (pt_sid (pr_heap (pty_update p f r) ! q)) = Some q"
    by (cases "q = p") simp_all
qed (simp_all add: pty_okD(1,2) [OF assms(1)])

lemma pty_ok_remove:
  assumes "pty_ok r" shows "pty_ok (pty_remove sid r)"
proof -
  have small: "gm_len (gm_delete sid (pr_sessions r)) \<le> maxParallelPtys"
    using gomap.size_del_le [OF pty_okD(1) [OF assms], of sid] pty_okD(2) [OF assms] by simp
  show ?thesis
  proof (cases "gm_get (pr_sessions r) sid")
    case None
    show ?thesis
    proof (rule pty_okI)
      fix p
      assume "p < length (pr_heap (pty_remove sid r))" "pt_open (pr_heap (pty_remove sid r) ! p)"
      with None pty_okD(4) [OF assms, of p]
      show "gm_get (pr_sessions (pty_remove sid r)) (pt_sid (pr_heap (pty_remove sid r) ! p)) = Some p"
        by (auto simp: pty_remove_def pty_delete_def)
    qed (use None small pty_okD(1,3) [OF assms] in
      \<open>auto simp: pty_remove_def pty_delete_def gm_wf_delete split: if_splits\<close>)
  next
    case (Some p)
    have r': "pty_remove sid r = pty_close p (r\<lparr>pr_sessions := gm_delete sid (pr_sessions r)\<rparr>)"
      using Some by (simp add: pty_remove_def pty_delete_def)
    note at_p = pty_okD(3) [OF assms Some]
    show ?thesis unfolding r'
    proof (rule pty_okI)
      fix q
      assume "q < length (pr_heap (pty_close p (r\<lparr>pr_sessions := gm_delete sid (pr_sessions r)\<rparr>)))"
        "pt_open (pr_heap (pty_close p (r\<lparr>pr_sessions := gm_delete sid (pr_sessions r)\<rparr>)) ! q)"
      with at_p pty_okD(4) [OF assms, of q] Some
      show "gm_get (pr_sessions (pty_close p (r\<lparr>pr_sessions := gm_delete sid (pr_sessions r)\<rparr>)))
          (pt_sid (pr_heap (pty_close p (r\<lparr>pr_sessions := gm_delete sid (pr_sessions r)\<rparr>)) ! q)) = Some q"
        by (auto simp: pty_close_def split: if_splits)
    next
      fix sid' q
      assume "gm_get (pr_sessions (pty_close p (r\<lparr>pr_sessions := gm_delete sid (pr_sessions r)\<rparr>))) sid' = Some q"
      with at_p pty_okD(3) [OF assms, of sid' q] Some
      show "q < length (pr_heap (pty_close p (r\<lparr>pr_sessions := gm_delete sid (pr_sessions r)\<rparr>))) \<and>
          pt_sid (pr_heap (pty_close p (r\<lparr>pr_sessions := gm_delete sid (pr_sessions r)\<rparr>)) ! q) = sid' \<and>
          pt_open (pr_heap (pty_close p (r\<lparr>pr_sessions := gm_delete sid (pr_sessions r)\<rparr>)) ! q) \<and>
          \<not> pt_cancelled (pr_heap (pty_close p (r\<lparr>pr_sessions := gm_delete sid (pr_sessions r)\<rparr>)) ! q)"
        by (auto simp: pty_close_def split: if_splits)
    qed (use small pty_okD(1) [OF assms] in \<open>auto simp: pty_close_def gm_wf_delete\<close>)
  qed
qed

text \<open>A spawned session that the registry refuses is closed at once; one it takes is registered.\<close>

lemma pty_ok_refused:
  assumes "pty_ok r"
  shows "pty_ok (pty_close (length (pr_heap r)) (r\<lparr>pr_heap := pr_heap r @ [s]\<rparr>))"
proof (rule pty_okI)
  fix p
  assume "p < length (pr_heap (pty_close (length (pr_heap r)) (r\<lparr>pr_heap := pr_heap r @ [s]\<rparr>)))"
    "pt_open (pr_heap (pty_close (length (pr_heap r)) (r\<lparr>pr_heap := pr_heap r @ [s]\<rparr>)) ! p)"
  with pty_okD(4) [OF assms, of p]
  show "gm_get (pr_sessions (pty_close (length (pr_heap r)) (r\<lparr>pr_heap := pr_heap r @ [s]\<rparr>)))
      (pt_sid (pr_heap (pty_close (length (pr_heap r)) (r\<lparr>pr_heap := pr_heap r @ [s]\<rparr>)) ! p)) = Some p"
    by (auto simp: pty_close_def nth_append less_Suc_eq split: if_splits)
next
  fix sid p
  assume "gm_get (pr_sessions (pty_close (length (pr_heap r)) (r\<lparr>pr_heap := pr_heap r @ [s]\<rparr>))) sid = Some p"
  with pty_okD(3) [OF assms, of sid p]
  show "p < length (pr_heap (pty_close (length (pr_heap r)) (r\<lparr>pr_heap := pr_heap r @ [s]\<rparr>))) \<and>
      pt_sid (pr_heap (pty_close (length (pr_heap r)) (r\<lparr>pr_heap := pr_heap r @ [s]\<rparr>)) ! p) = sid \<and>
      pt_open (pr_heap (pty_close (length (pr_heap r)) (r\<lparr>pr_heap := pr_heap r @ [s]\<rparr>)) ! p) \<and>
      \<not> pt_cancelled (pr_heap (pty_close (length (pr_heap r)) (r\<lparr>pr_heap := pr_heap r @ [s]\<rparr>)) ! p)"
    by (auto simp: pty_close_def nth_append)
qed (simp_all add: pty_okD(1,2) [OF assms] pty_close_def)

lemma pty_ok_registered:
  assumes "pty_ok r" "pt_sid s = sid" "pt_open s" "\<not> pt_cancelled s" "gm_get (pr_sessions r) sid = None"
    "gm_len (pr_sessions r) < maxParallelPtys"
  shows "pty_ok (r\<lparr>pr_heap := pr_heap r @ [s], pr_sessions := gm_set sid (length (pr_heap r)) (pr_sessions r)\<rparr>)"
    (is "pty_ok ?r")
proof (rule pty_okI)
  show "gm_len (pr_sessions ?r) \<le> maxParallelPtys"
    using assms gomap.size_put_le [OF pty_okD(1) [OF assms(1)], of sid "length (pr_heap r)"] by simp
  fix p
  assume p: "p < length (pr_heap ?r)" "pt_open (pr_heap ?r ! p)"
  show "gm_get (pr_sessions ?r) (pt_sid (pr_heap ?r ! p)) = Some p"
  proof (cases "p < length (pr_heap r)")
    case True
    with p pty_okD(4) [OF assms(1), of p] assms(5) show ?thesis by (auto simp: nth_append)
  next
    case False
    with p assms show ?thesis by (simp add: nth_append)
  qed
next
  fix sid' p
  assume "gm_get (pr_sessions ?r) sid' = Some p"
  with pty_okD(3) [OF assms(1), of sid' p] assms(2-4)
  show "p < length (pr_heap ?r) \<and> pt_sid (pr_heap ?r ! p) = sid' \<and> pt_open (pr_heap ?r ! p) \<and> \<not> pt_cancelled (pr_heap ?r ! p)"
    by (auto simp: nth_append split: if_splits)
qed (use pty_okD(1) [OF assms(1)] in \<open>simp add: gm_wf_set\<close>)

lemma startPty_cases:
  assumes "startPty w sid params r = (res, r')"
  obtains (failed) e where "res = Inl e" "r' = r"
  | (refused) e s where "res = Inl e" "r' = pty_close (length (pr_heap r)) (r\<lparr>pr_heap := pr_heap r @ [s]\<rparr>)"
  | (started) shell term_name cmd pid where
      "spawnShell w (orDefault [] shell (ps_Shell params)) term_name (orDefault 0 80 (ps_Cols params)) (orDefault 0 24 (ps_Rows params)) = Inr (cmd, pid)"
      "gm_get (pr_sessions r) sid = None" "gm_len (pr_sessions r) < maxParallelPtys" "res = Inr (length (pr_heap r))"
      "r' = r\<lparr>pr_heap := pr_heap r @ [\<lparr>pt_sid = sid, pt_cmd = cmd, pt_cancelled = False, pt_open = True, pt_stdin = [],
             pt_size = (orDefault 0 80 (ps_Cols params), orDefault 0 24 (ps_Rows params))\<rparr>],
           pr_sessions := gm_set sid (length (pr_heap r)) (pr_sessions r)\<rparr>"
proof (cases "sid = []")
  case True
  with assms failed show ?thesis by (auto simp: startPty_def)
next
  case False
  let ?shell = "defaultShell (pw_goos w) (pw_exists w) (pw_comspec w)"
  let ?spawn = "spawnShell w (orDefault [] ?shell (ps_Shell params)) (orDefault [] ''xterm-256color'' (ps_Term params))
      (orDefault 0 80 (ps_Cols params)) (orDefault 0 24 (ps_Rows params))"
  show ?thesis
  proof (cases ?spawn)
    case (Inl e)
    with assms False failed show ?thesis by (auto simp: startPty_def)
  next
    case (Inr cp)
    obtain cmd pid where cp: "cp = (cmd, pid)" by (cases cp)
    let ?s = "\<lparr>pt_sid = sid, pt_cmd = cmd, pt_cancelled = False, pt_open = True, pt_stdin = [],
        pt_size = (orDefault 0 80 (ps_Cols params), orDefault 0 24 (ps_Rows params))\<rparr>"
    obtain ok r2 where put: "pty_put sid (length (pr_heap r)) (r\<lparr>pr_heap := pr_heap r @ [?s]\<rparr>) = (ok, r2)"
      by (cases "pty_put sid (length (pr_heap r)) (r\<lparr>pr_heap := pr_heap r @ [?s]\<rparr>)")
    show ?thesis
    proof (cases ok)
      case True
      with put have "gm_get (pr_sessions r) sid = None" "gm_len (pr_sessions r) < maxParallelPtys"
        "r2 = r\<lparr>pr_heap := pr_heap r @ [?s], pr_sessions := gm_set sid (length (pr_heap r)) (pr_sessions r)\<rparr>"
        by (auto simp: pty_put_True)
      moreover from assms False Inr cp put True have "res = Inr (length (pr_heap r))" "r' = r2"
        by (auto simp: startPty_def Let_def)
      ultimately show ?thesis using Inr cp by (intro started) auto
    next
      case ok: False
      with put have "r2 = r\<lparr>pr_heap := pr_heap r @ [?s]\<rparr>" by (auto dest: pty_put_False)
      moreover from assms False Inr cp put ok
      have "res = Inl ''pty already exists for session or capacity reached''" "r' = pty_close (length (pr_heap r)) r2"
        by (auto simp: startPty_def Let_def)
      ultimately show ?thesis by (intro refused) auto
    qed
  qed
qed

lemma pty_ok_start: "pty_ok r \<Longrightarrow> pty_ok (snd (startPty w sid params r))"
  by (rule startPty_cases [of w sid params r, OF surjective_pairing]) (auto intro: pty_ok_refused pty_ok_registered)

lemma close_open:
  "q < length (pr_heap r) \<Longrightarrow> pt_open (pr_heap (pty_close p r) ! q) \<longleftrightarrow> pt_open (pr_heap r ! q) \<and> q \<noteq> p"
  "length (pr_heap (pty_close p r)) = length (pr_heap r)"
  "pr_sessions (pty_close p r) = pr_sessions r"
  by (simp_all add: pty_close_def)

lemma fold_close:
  "pr_sessions (fold (\<lambda>(sid, p). pty_close p) es r) = pr_sessions r \<and>
   length (pr_heap (fold (\<lambda>(sid, p). pty_close p) es r)) = length (pr_heap r) \<and>
   (q < length (pr_heap r) \<longrightarrow>
     (pt_open (pr_heap (fold (\<lambda>(sid, p). pty_close p) es r) ! q) \<longleftrightarrow> pt_open (pr_heap r ! q) \<and> q \<notin> snd ` set es))"
proof (induction es arbitrary: r)
  case (Cons e es)
  obtain sid p where e: "e = (sid, p)" by (cases e)
  show ?case using Cons.IH [of "pty_close p r"] by (auto simp: close_open e)
qed simp

lemma closeAll_closes:
  assumes "pty_ok r"
  shows "pr_sessions (pty_closeAll r) = []" "length (pr_heap (pty_closeAll r)) = length (pr_heap r)"
    "p < length (pr_heap r) \<Longrightarrow> \<not> pt_open (pr_heap (pty_closeAll r) ! p)"
proof -
  show "pr_sessions (pty_closeAll r) = []" "length (pr_heap (pty_closeAll r)) = length (pr_heap r)"
    by (simp_all add: pty_closeAll_def fold_close)
  assume p: "p < length (pr_heap r)"
  have "p \<in> snd ` set (pr_sessions r)" if "pt_open (pr_heap r ! p)"
    using pty_okD(4) [OF assms p that] pty_okD(1) [OF assms] by (force simp: gm_get_mem)
  with p show "\<not> pt_open (pr_heap (pty_closeAll r) ! p)"
    using fold_close [of "pr_sessions r" "r\<lparr>pr_sessions := []\<rparr>" p] by (auto simp: pty_closeAll_def)
qed

lemma pty_ok_apply: 
  assumes "pty_ok r" shows "pty_ok (pty_apply op r)"
proof (cases op)
  case OpCloseAll
  then show ?thesis using closeAll_closes [OF assms] by (simp add: pty_ok_def gm_len_def)
qed (use assms in \<open>auto simp: pty_ok_start pty_ok_remove pty_writeStdin_def pty_resize_def intro: pty_ok_update\<close>)

lemma pty_reachable_ok: "pty_reachable r \<Longrightarrow> pty_ok r"
proof (induction rule: pty_reachable.induct)
  case start
  then show ?case by (simp add: pty_ok_def newPtyRegistry_def gm_len_def)
next
  case (step r op)
  then show ?case by (simp add: pty_ok_apply)
qed

lemma open_shells_bounded:
  assumes "pty_ok r"
  shows "card {p. p < length (pr_heap r) \<and> pt_open (pr_heap r ! p)} \<le> maxParallelPtys"
proof -
  have "{p. p < length (pr_heap r) \<and> pt_open (pr_heap r ! p)} \<subseteq> snd ` set (pr_sessions r)"
    using pty_okD(4) [OF assms] pty_okD(1) [OF assms] by (force simp: gm_get_mem)
  then have "card {p. p < length (pr_heap r) \<and> pt_open (pr_heap r ! p)} \<le> card (snd ` set (pr_sessions r))"
    by (intro card_mono) auto
  also have "\<dots> \<le> gm_len (pr_sessions r)"
    unfolding gm_len_def by (metis card_image_le card_length finite_set le_trans)
  finally show ?thesis using assms by (simp add: pty_ok_def)
qed

text \<open>
  Within an operation the count can be one off. Between the halves of a start there can be a ninth open shell, the
  new one, which no session id names yet; if it is refused, the second half ends it. Between the
  \<open>delete\<close> and the \<open>close\<close> of a removal the shell is open and no longer registered.
\<close>

lemma ninth_shell:
  assumes "pty_ok r" "startPty_spawn w sid params r = (Inr p, r1)"
  shows "p = length (pr_heap r) \<and> pt_open (pr_heap r1 ! p) \<and> pr_sessions r1 = pr_sessions r \<and>
    card {p. p < length (pr_heap r1) \<and> pt_open (pr_heap r1 ! p)} \<le> Suc maxParallelPtys \<and>
    (\<forall>e r2. startPty_put sid p r1 = (Inl e, r2) \<longrightarrow> \<not> pt_open (pr_heap r2 ! p))"
proof -
  obtain se where r1: "p = length (pr_heap r)" "r1 = r\<lparr>pr_heap := pr_heap r @ [se]\<rparr>" "pt_open se"
    using assms(2) by (auto simp: startPty_spawn_def Let_def split: if_splits sum.splits)
  then have "{p. p < length (pr_heap r1) \<and> pt_open (pr_heap r1 ! p)}
      = insert p {p. p < length (pr_heap r) \<and> pt_open (pr_heap r ! p)}"
    by (auto simp: nth_append less_Suc_eq)
  then have "card {p. p < length (pr_heap r1) \<and> pt_open (pr_heap r1 ! p)} \<le> Suc maxParallelPtys"
    using open_shells_bounded [OF assms(1)] r1(1) by simp
  moreover have "\<not> pt_open (pr_heap r2 ! p)" if "startPty_put sid p r1 = (Inl e, r2)" for e r2
  proof -
    obtain b r3 where put: "pty_put sid p r1 = (b, r3)" by fastforce
    with that have "\<not> b" "r2 = pty_close p r3" by (auto simp: startPty_put_def split: bool.splits)
    with put pty_put_False [of sid p r1 r3] r1 show ?thesis by (simp add: pty_close_def)
  qed
  ultimately show ?thesis using r1 by simp
qed

lemma removal_halves:
  "pty_get r sid = Some p \<Longrightarrow>
   pty_delete sid r = (Some p, r\<lparr>pr_sessions := gm_delete sid (pr_sessions r)\<rparr>) \<and>
   pr_heap (snd (pty_delete sid r)) = pr_heap r \<and> pty_remove sid r = pty_close p (snd (pty_delete sid r))"
  by (simp add: pty_get_def pty_delete_def pty_remove_def)

text \<open>
  C22. In every interleaving of starts, writes, resizes, kills and disconnects, counted between the operations, at
  most eight shells are open on a device, each of them is the one registered under its session id, where the next
  \<open>cancel\<close> or the end of the connection finds it, and after \<open>closeAll\<close> none is open.
\<close>

theorem no_shell_leaks:
  assumes "pty_reachable r"
  shows "card {p. p < length (pr_heap r) \<and> pt_open (pr_heap r ! p)} \<le> maxParallelPtys \<and>
    (\<forall>p < length (pr_heap r). pt_open (pr_heap r ! p) \<longrightarrow> pty_get r (pt_sid (pr_heap r ! p)) = Some p) \<and>
    (\<forall>p < length (pr_heap r). \<not> pt_open (pr_heap (pty_closeAll r) ! p))"
  using pty_reachable_ok [OF assms] open_shells_bounded closeAll_closes
  by (auto simp: pty_ok_def pty_get_def)

definition demo_pty_world :: pty_world where
  "demo_pty_world =
     \<lparr>pw_goos = ''linux'', pw_exists = (\<lambda>p. p = ''/bin/sh''), pw_comspec = [], pw_home = ''/root'',
      pw_environ = [''HASFY_RELAY_TOKEN=secret''], pw_conpty = False, pw_spawn = Inr 7\<rparr>"

definition demo_start :: PtyStart where
  "demo_start = \<lparr>ps_Cols = 0, ps_Rows = 0, ps_Shell = [], ps_Term = []\<rparr>"

definition demo_registry :: ptyRegistry where
  "demo_registry = pty_apply (OpStart demo_pty_world ''s'' demo_start) newPtyRegistry"

lemma demo_registry:
  "demo_registry =
     \<lparr>pr_sessions = [(''s'', 0)],
      pr_heap = [\<lparr>pt_sid = ''s'', pt_cmd = \<lparr>sh_argv = [''/bin/sh'', ''-l''],
          sh_env = ptyEnv ''linux'' ''/root'' ''xterm-256color'' ''/bin/sh'', sh_cols = 80, sh_rows = 24\<rparr>,
          pt_cancelled = False, pt_open = True, pt_stdin = [], pt_size = (80, 24)\<rparr>]\<rparr>"
  by (simp add: demo_registry_def startPty_def demo_pty_world_def demo_start_def newPtyRegistry_def spawnShell_def
      orDefault_def defaultShell_def pty_put_def gm_len_def gm_set_def maxParallelPtys_def Let_def)

theorem no_shell_leaks_witness:
  "pty_get demo_registry ''s'' = Some 0 \<and> \<not> pt_open (pr_heap (pty_closeAll demo_registry) ! 0)"
proof -
  have "pty_reachable demo_registry"
    unfolding demo_registry_def by (intro pty_reachable.intros)
  from no_shell_leaks [OF this] show ?thesis by (simp add: demo_registry)
qed

section \<open>What a shell sees\<close>

lemma unix_env_clean: "\<not> list_ex (\<lambda>kv. has_prefix kv ''HASFY_'') (ptyEnv goos home term_name shell)"
  by (simp add: ptyEnv_def)

lemma windows_env_clean: "\<not> list_ex (\<lambda>kv. has_prefix kv ''HASFY_'') (winPtyEnv term_name environ)"
  by (auto simp: winPtyEnv_def Let_def list_ex_iff)

lemma spawnShell_clean:
  "spawnShell w shell term_name cols rows = Inr (cmd, pid) \<Longrightarrow>
   \<not> list_ex (\<lambda>kv. has_prefix kv ''HASFY_'') (sh_env cmd) \<and> hd (sh_argv cmd) = shell \<and> sh_cols cmd = cols \<and> sh_rows cmd = rows"
  by (auto simp: spawnShell_def unix_env_clean windows_env_clean map_sum_def split: if_splits sum.splits)

text \<open>
  A shell that \<open>startPty\<close> opens is new, registered under its session id, and started without any
  \<open>HASFY_\<close> variable of the agent; its size is never zero in either direction, and its \<open>TERM\<close> and its program are
  those the operator asked for, or defaults. A second start for the session, or a ninth shell, is
  refused and leaves nothing open.
\<close>

lemma shell_started_clean:
  assumes "pty_ok r" "startPty w sid params r = (res, r')"
  shows "case res of
      Inl e \<Rightarrow> pr_sessions r' = pr_sessions r \<and>
        (\<forall>p < length (pr_heap r'). length (pr_heap r) \<le> p \<longrightarrow> \<not> pt_open (pr_heap r' ! p))
    | Inr p \<Rightarrow> pty_get r sid = None \<and> pty_get r' sid = Some p \<and> length (pr_sessions r) < 8 \<and>
        pt_sid (pr_heap r' ! p) = sid \<and> pt_open (pr_heap r' ! p) \<and>
        \<not> list_ex (\<lambda>kv. has_prefix kv ''HASFY_'') (sh_env (pt_cmd (pr_heap r' ! p))) \<and>
        sh_cols (pt_cmd (pr_heap r' ! p)) \<noteq> 0 \<and> sh_rows (pt_cmd (pr_heap r' ! p)) \<noteq> 0 \<and>
        (ps_Shell params \<noteq> [] \<longrightarrow> hd (sh_argv (pt_cmd (pr_heap r' ! p))) = ps_Shell params)"
proof (rule startPty_cases [OF assms(2)], goal_cases failed refused started)
  case (started shell term_name cmd pid)
  with spawnShell_clean [OF started(1)] show ?case
    by (simp add: pty_get_def gm_len_def maxParallelPtys_def orDefault_def)
qed (auto simp: nth_append less_Suc_eq close_open)

lemma shell_started_clean_witness:
  "\<not> list_ex (\<lambda>kv. has_prefix kv ''HASFY_'') (sh_env (pt_cmd (pr_heap demo_registry ! 0)))"
proof -
  have "pty_ok newPtyRegistry" by (rule pty_reachable_ok [OF pty_reachable.start])
  moreover have "startPty demo_pty_world ''s'' demo_start newPtyRegistry = (Inr 0, demo_registry)"
    by (simp add: demo_registry_def startPty_def demo_pty_world_def demo_start_def newPtyRegistry_def spawnShell_def
        orDefault_def defaultShell_def pty_put_def gm_len_def gm_set_def maxParallelPtys_def Let_def)
  ultimately show ?thesis using shell_started_clean by fastforce
qed

section \<open>What the operator sees of a shell\<close>

definition pty_payload :: "Frame \<Rightarrow> bytes" where
  "pty_payload f =
     (case f_PtyData f of Some d \<Rightarrow> (case std_decode (pd_Data d) of Some b \<Rightarrow> b | None \<Rightarrow> []) | None \<Rightarrow> [])"

lemma pty_frames [simp]:
  "f_Type (pty_data_frame sid b) = TypePtyData" "f_SessionID (pty_data_frame sid b) = sid"
  "f_Type (pty_exit_frame sid code) = TypePtyExit" "f_SessionID (pty_exit_frame sid code) = sid"
  "pty_payload (pty_data_frame sid b) = b" "pty_payload (pty_exit_frame sid code) = []"
  "f_PtyExit (pty_exit_frame sid code) = Some \<lparr>pe_ExitCode = code\<rparr>" "f_PtyExit (pty_data_frame sid b) = None"
  by (simp_all add: pty_data_frame_def pty_exit_frame_def pty_payload_def std64.decode_encode)

text \<open>The rounds that happen: up to the first error.\<close>

fun until_err :: "pty_read list \<Rightarrow> pty_read list" where
  "until_err [] = []"
| "until_err (e # es) = (if rd_err e then [e] else e # until_err es)"

lemma pty_reader_calm:
  assumes "list_all (\<lambda>e. \<not> rd_done_data e \<and> \<not> rd_done_exit e) es"
  shows "fst (pty_reader sid es) =
      map (pty_data_frame sid) (filter (\<lambda>b. b \<noteq> []) (map rd_chunk (until_err es))) @
      (if list_ex rd_err es then [pty_exit_frame sid (rd_code (last (until_err es)))] else []) \<and>
    snd (pty_reader sid es) = list_ex rd_err es"
  using assms
proof (induction es)
  case (Cons e es)
  have "until_err es \<noteq> []" if "list_ex rd_err es"
    using that by (cases es) auto
  with Cons show ?case
    by (cases "pty_reader sid es") (auto simp: pty_reader_step_def)
qed simp

lemma concat_filter_nonempty: "concat (filter (\<lambda>b. b \<noteq> []) bs) = concat bs"
  by (induction bs) auto

text \<open>
  While nobody cancels the session, the frames of a shell carry exactly the bytes read from its
  terminal, in order and unaltered, up to the read that fails; the last frame is then \<open>pty.exit\<close> with the
  shell's exit code, and it comes once. Nothing is redacted on this path.
\<close>

lemma pty_stream_faithful:
  assumes "list_all (\<lambda>e. \<not> rd_done_data e \<and> \<not> rd_done_exit e) es"
  shows "concat (map pty_payload (fst (pty_reader sid es))) = concat (map rd_chunk (until_err es)) \<and>
    list_all (\<lambda>f. f_SessionID f = sid) (fst (pty_reader sid es)) \<and>
    filter (\<lambda>f. f_Type f = TypePtyExit) (fst (pty_reader sid es)) =
      (if list_ex rd_err es then [last (fst (pty_reader sid es))] else []) \<and>
    (list_ex rd_err es \<longrightarrow>
      f_PtyExit (last (fst (pty_reader sid es))) = Some \<lparr>pe_ExitCode = rd_code (last (until_err es))\<rparr>)"
  using pty_reader_calm [OF assms, of sid]
  by (auto simp: concat_filter_nonempty list_all_iff filter_empty_conv comp_def)

lemma pty_stream_faithful_witness:
  "concat (map pty_payload (fst (pty_reader ''s''
     [\<lparr>rd_chunk = ''ab'', rd_err = False, rd_done_data = False, rd_done_exit = False, rd_code = 0\<rparr>,
      \<lparr>rd_chunk = ''c'', rd_err = True, rd_done_data = False, rd_done_exit = False, rd_code = 3\<rparr>]))) = ''abc''"
  by (rule pty_stream_faithful [THEN conjunct1, of _ "''s''", THEN trans]) simp_all

text \<open>
  The reader's deferred \<open>delete\<close> goes by session id, not by session: when the terminal of a session that was
  killed reports its end only after the id has been used again, the new shell is closed.
\<close>

lemma late_reader_kills_successor:
  assumes "pty_ok r" "pty_get r sid = Some p"
  shows "pt_open (pr_heap r ! p)" "\<not> pt_open (pr_heap (pty_remove sid r) ! p)"
  using pty_okD(3) [OF assms(1), of sid p] assms(2)
  by (auto simp: pty_get_def pty_remove_def pty_delete_def close_open)

end
