(* ===== verification/AgentLoop.thy ===== *)
theory AgentLoop
  imports Pty
begin

text \<open>
  One connection of the agent: \<open>runOnce\<close> of \<open>cmd/agent/exec.go\<close>. Its goroutines are the frame loop, the
  writer, one per running command and one per shell; they share the channel \<open>out\<close> of 32 frames, the
  table \<open>cancels\<close>, the semaphore of eight slots and the shell registry. A step is what one of
  them does between two waits. \<open>None\<close> means that the goroutine has to wait.
\<close>

section \<open>State\<close>

record agent_conn =
  ac_out :: "Frame chan"
  ac_writing :: bool
  ac_pending :: "Frame option"
  ac_sem :: nat
  ac_ctxs :: "bool list"
  ac_cancels :: "(string, nat) gomap"
  ac_running :: "(nat \<times> Frame) list"
  ac_ptys :: ptyRegistry

text \<open>
  \<open>ac_ctxs\<close> has one entry for each context made for a command, true once it is cancelled, and
  \<open>ac_cancels\<close> maps an execution id to the context its \<open>CancelFunc\<close> cancels. \<open>ac_pending\<close> is the
  frame that the loop is about to put on \<open>out\<close>; it reads no further frame before it has. \<open>ac_writing\<close> is
  false when the writer goroutine has returned.
\<close>

definition maxParallelExec :: nat where "maxParallelExec = 8"

definition runOnce_start :: agent_conn where
  "runOnce_start =
     \<lparr>ac_out = make_chan 32, ac_writing = True, ac_pending = None, ac_sem = 0, ac_ctxs = [], ac_cancels = [],
      ac_running = [], ac_ptys = newPtyRegistry\<rparr>"

definition cancel_ctx :: "nat \<Rightarrow> agent_conn \<Rightarrow> agent_conn" where
  "cancel_ctx c s = s\<lparr>ac_ctxs := (ac_ctxs s)[c := True]\<rparr>"

section \<open>The frame loop\<close>

text \<open>What the device does during an iteration.\<close>

record loop_input =
  li_world :: pty_world
  li_fails :: bool
  li_now :: time

definition loop_exec :: "loop_input \<Rightarrow> Frame \<Rightarrow> agent_conn \<Rightarrow> agent_conn" where
  "loop_exec i f s =
     (case f_Exec f of
        None \<Rightarrow> s
      | Some x \<Rightarrow>
          if f_SessionID f = [] \<or> f_ExecID f = [] then s
          else if x_Argv x = [] \<and> x_Script x = None then s
          else
            (let c = length (ac_ctxs s);
                 s1 = s\<lparr>ac_ctxs := ac_ctxs s @ [False], ac_cancels := gm_set (f_ExecID f) c (ac_cancels s)\<rparr>
             in if ac_sem s1 < maxParallelExec
                then s1\<lparr>ac_sem := Suc (ac_sem s1), ac_running := ac_running s1 @ [(c, f)]\<rparr>
                else (cancel_ctx c s1)
                  \<lparr>ac_pending := Some (refusal (f_SessionID f) (f_ExecID f) (li_now i) ''busy'' ''agent at exec capacity'')\<rparr>))"

definition loop_cancel :: "Frame \<Rightarrow> agent_conn \<Rightarrow> agent_conn" where
  "loop_cancel f s =
     (if f_ExecID f = [] then
        (if f_SessionID f \<noteq> [] then s\<lparr>ac_ptys := pty_remove (f_SessionID f) (ac_ptys s)\<rparr> else s)
      else (case gm_get (ac_cancels s) (f_ExecID f) of Some c \<Rightarrow> cancel_ctx c s | None \<Rightarrow> s))"

definition loop_pty_start :: "loop_input \<Rightarrow> Frame \<Rightarrow> agent_conn \<Rightarrow> agent_conn" where
  "loop_pty_start i f s =
     (case f_PtyStart f of
        None \<Rightarrow> s
      | Some params \<Rightarrow>
          if f_SessionID f = [] then s
          else (case startPty (li_world i) (f_SessionID f) params (ac_ptys s) of
                  (Inr p, r) \<Rightarrow> s\<lparr>ac_ptys := r\<rparr>
                | (Inl e, r) \<Rightarrow>
                    s\<lparr>ac_ptys := r,
                      ac_pending := Some ((frame TypeError (f_SessionID f) [])
                        \<lparr>f_Error := Some \<lparr>em_Code = ''pty_start_failed'', em_Message = e\<rparr>\<rparr>)\<rparr>))"

definition loop_pty_data :: "loop_input \<Rightarrow> Frame \<Rightarrow> agent_conn \<Rightarrow> agent_conn" where
  "loop_pty_data i f s =
     (case f_PtyData f of
        None \<Rightarrow> s
      | Some d \<Rightarrow>
          if f_SessionID f = [] then s
          else (case pty_get (ac_ptys s) (f_SessionID f) of
                  None \<Rightarrow> s
                | Some p \<Rightarrow>
                    (case std_decode (pd_Data d) of
                       None \<Rightarrow> s
                     | Some raw \<Rightarrow>
                         (case pty_writeStdin (li_fails i) p raw (ac_ptys s) of
                            (True, r) \<Rightarrow> s\<lparr>ac_ptys := r\<rparr>
                          | (False, r) \<Rightarrow> s\<lparr>ac_ptys := pty_remove (f_SessionID f) r\<rparr>))))"

definition loop_pty_resize :: "loop_input \<Rightarrow> Frame \<Rightarrow> agent_conn \<Rightarrow> agent_conn" where
  "loop_pty_resize i f s =
     (case f_PtyResize f of
        None \<Rightarrow> s
      | Some z \<Rightarrow>
          if f_SessionID f = [] then s
          else (case pty_get (ac_ptys s) (f_SessionID f) of
                  None \<Rightarrow> s
                | Some p \<Rightarrow> s\<lparr>ac_ptys := snd (pty_resize (li_fails i) p (pr_Cols z) (pr_Rows z) (ac_ptys s))\<rparr>))"

definition runOnce_frame :: "loop_input \<Rightarrow> Frame \<Rightarrow> agent_conn \<Rightarrow> agent_conn" where
  "runOnce_frame i f s =
     (case f_Type f of
        TypePing \<Rightarrow> s\<lparr>ac_pending := Some (frame TypePong [] [])\<rparr>
      | TypeExec \<Rightarrow> loop_exec i f s
      | TypeCancel \<Rightarrow> loop_cancel f s
      | TypePtyStart \<Rightarrow> loop_pty_start i f s
      | TypePtyData \<Rightarrow> loop_pty_data i f s
      | TypePtyResize \<Rightarrow> loop_pty_resize i f s
      | _ \<Rightarrow> s)"

section \<open>Steps\<close>

text \<open>A send to \<open>out\<close> from a goroutine: it waits while the channel is full and panics when it is closed.\<close>

definition send_out :: "Frame \<Rightarrow> agent_conn \<Rightarrow> (panic + agent_conn) option" where
  "send_out f s =
     (case try_send (ac_out s) f of
        Inl p \<Rightarrow> Some (Inl p)
      | Inr (True, c) \<Rightarrow> Some (Inr (s\<lparr>ac_out := c\<rparr>))
      | Inr (False, c) \<Rightarrow> None)"

definition exec_ends :: "nat \<Rightarrow> Frame \<Rightarrow> agent_conn \<Rightarrow> agent_conn" where
  "exec_ends c f s =
     (cancel_ctx c s)\<lparr>ac_sem := ac_sem s - 1, ac_cancels := gm_delete (f_ExecID f) (ac_cancels s),
        ac_running := filter (\<lambda>(d, g). d \<noteq> c) (ac_running s)\<rparr>"

text \<open>
  The return of \<open>runOnce\<close>: its deferred calls close the shells, then \<open>out\<close>, and cancel the
  connection's context, from which the contexts of the commands are derived.
\<close>

definition runOnce_return :: "agent_conn \<Rightarrow> agent_conn" where
  "runOnce_return s =
     s\<lparr>ac_ptys := pty_closeAll (ac_ptys s), ac_out := (ac_out s)\<lparr>ch_closed := True\<rparr>,
       ac_ctxs := map (\<lambda>_. True) (ac_ctxs s)\<rparr>"

datatype agent_event =
    Received loop_input Frame
  | LoopSends
  | LoopReturns
  | WriterTakes
  | WriterFails
  | ExecSends nat Frame
  | ExecEnds nat
  | ShellSends Frame
  | ShellEnds string

fun agent_step :: "agent_event \<Rightarrow> agent_conn \<Rightarrow> (panic + agent_conn) option" where
  "agent_step (Received i f) s =
     (if ac_pending s = None \<and> \<not> ch_closed (ac_out s) then Some (Inr (runOnce_frame i f s)) else None)"
| "agent_step LoopSends s =
     (case ac_pending s of
        None \<Rightarrow> None
      | Some f \<Rightarrow>
          (case send_out f s of
             None \<Rightarrow> None
           | Some (Inl p) \<Rightarrow> Some (Inl p)
           | Some (Inr s1) \<Rightarrow> Some (Inr (s1\<lparr>ac_pending := None\<rparr>))))"
| "agent_step LoopReturns s =
     (if ac_pending s = None \<and> \<not> ch_closed (ac_out s) then Some (Inr (runOnce_return s)) else None)"
| "agent_step WriterTakes s =
     (if ac_writing s then
        (case try_recv (ac_out s) of
           (Value f, c) \<Rightarrow> Some (Inr (s\<lparr>ac_out := c\<rparr>))
         | (Drained, c) \<Rightarrow> Some (Inr (s\<lparr>ac_writing := False\<rparr>))
         | (Empty, c) \<Rightarrow> None)
      else None)"
| "agent_step WriterFails s = (if ac_writing s then Some (Inr (s\<lparr>ac_writing := False\<rparr>)) else None)"
| "agent_step (ExecSends c f) s = (if c \<in> fst ` set (ac_running s) then send_out f s else None)"
| "agent_step (ExecEnds c) s =
     (case map_of (ac_running s) c of None \<Rightarrow> None | Some f \<Rightarrow> Some (Inr (exec_ends c f s)))"
| "agent_step (ShellSends f) s = send_out f s"
| "agent_step (ShellEnds sid) s = Some (Inr (s\<lparr>ac_ptys := pty_remove sid (ac_ptys s)\<rparr>))"

text \<open>The states of a connection that no goroutine of it has panicked in.\<close>

inductive conn_reachable :: "agent_conn \<Rightarrow> bool" where
  start: "conn_reachable runOnce_start"
| step: "conn_reachable s \<Longrightarrow> agent_step e s = Some (Inr s') \<Longrightarrow> conn_reachable s'"

inductive conn_run :: "agent_conn \<Rightarrow> agent_event list \<Rightarrow> agent_conn \<Rightarrow> bool" where
  stop: "conn_run s [] s"
| more: "agent_step e s = Some (Inr s1) \<Longrightarrow> conn_run s1 es s' \<Longrightarrow> conn_run s (e # es) s'"

inductive_cases conn_run_NilE [elim!]: "conn_run s [] s'"
inductive_cases conn_run_ConsE [elim!]: "conn_run s (e # es) s'"

section \<open>Invariant\<close>

definition command_ok :: "Frame \<Rightarrow> bool" where
  "command_ok f \<longleftrightarrow> f_SessionID f \<noteq> [] \<and> f_ExecID f \<noteq> [] \<and>
     (case f_Exec f of None \<Rightarrow> False | Some x \<Rightarrow> x_Argv x \<noteq> [] \<or> x_Script x \<noteq> None)"

definition conn_ok :: "agent_conn \<Rightarrow> bool" where
  "conn_ok s \<longleftrightarrow>
     ac_sem s = length (ac_running s) \<and> ac_sem s \<le> maxParallelExec \<and>
     ch_cap (ac_out s) = 32 \<and> chan_wf (ac_out s) \<and> distinct (map fst (ac_running s)) \<and>
     list_all (\<lambda>(c, f). c < length (ac_ctxs s) \<and> command_ok f) (ac_running s) \<and> pty_ok (ac_ptys s)"

lemma conn_ok_start: "conn_ok runOnce_start"
  by (simp add: conn_ok_def runOnce_start_def pty_reachable_ok [OF pty_reachable.start])

lemma conn_ok_updates [simp]:
  "conn_ok (s\<lparr>ac_pending := p\<rparr>) = conn_ok s"
  "conn_ok (s\<lparr>ac_writing := b\<rparr>) = conn_ok s"
  "conn_ok (s\<lparr>ac_cancels := m\<rparr>) = conn_ok s"
  "conn_ok (cancel_ctx c s) = conn_ok s"
  by (simp_all add: conn_ok_def cancel_ctx_def)

lemma conn_ok_ptys: "conn_ok s \<Longrightarrow> pty_ok r \<Longrightarrow> conn_ok (s\<lparr>ac_ptys := r\<rparr>)"
  by (simp add: conn_ok_def)

lemma conn_ok_pty [simp]: "conn_ok s \<Longrightarrow> pty_ok (ac_ptys s)"
  by (simp add: conn_ok_def)

lemma pty_ok_write [simp]: "pty_ok r \<Longrightarrow> pty_ok (snd (pty_writeStdin fails p b r))"
  using pty_ok_apply [of r "OpWrite fails p b"] by simp

lemma pty_ok_resize [simp]: "pty_ok r \<Longrightarrow> pty_ok (snd (pty_resize fails p cols rows r))"
  using pty_ok_apply [of r "OpResize fails p cols rows"] by simp

lemma send_out_Inr:
  "send_out f s = Some (Inr s') \<longleftrightarrow>
     \<not> ch_closed (ac_out s) \<and> length (ch_buf (ac_out s)) < ch_cap (ac_out s) \<and>
     s' = s\<lparr>ac_out := (ac_out s)\<lparr>ch_buf := ch_buf (ac_out s) @ [f]\<rparr>\<rparr>"
  by (auto simp: send_out_def try_send_def)

lemma send_out_Inl: "send_out f s = Some (Inl p) \<longleftrightarrow> ch_closed (ac_out s) \<and> p = SendOnClosed"
  by (auto simp: send_out_def try_send_def)

lemma conn_ok_send: "conn_ok s \<Longrightarrow> send_out f s = Some (Inr s') \<Longrightarrow> conn_ok s'"
  by (auto simp: send_out_Inr conn_ok_def chan_wf_def)

lemma loop_exec_cases:
  obtains (ignored) "loop_exec i f s = s" "\<not> command_ok f"
  | (accepted) "command_ok f" "ac_sem s < maxParallelExec"
      "loop_exec i f s = s\<lparr>ac_ctxs := ac_ctxs s @ [False], ac_cancels := gm_set (f_ExecID f) (length (ac_ctxs s)) (ac_cancels s),
         ac_sem := Suc (ac_sem s), ac_running := ac_running s @ [(length (ac_ctxs s), f)]\<rparr>"
  | (busy) "command_ok f" "maxParallelExec \<le> ac_sem s"
      "loop_exec i f s = s\<lparr>ac_ctxs := ac_ctxs s @ [True], ac_cancels := gm_set (f_ExecID f) (length (ac_ctxs s)) (ac_cancels s),
         ac_pending := Some (refusal (f_SessionID f) (f_ExecID f) (li_now i) ''busy'' ''agent at exec capacity'')\<rparr>"
proof (cases "command_ok f")
  case False
  then show ?thesis using ignored by (auto simp: loop_exec_def command_ok_def split: option.splits)
next
  case True
  then show ?thesis
    using accepted busy by (cases "ac_sem s < maxParallelExec")
      (auto simp: loop_exec_def command_ok_def cancel_ctx_def Let_def split: option.splits)
qed

lemma conn_ok_exec: 
  assumes "conn_ok s" shows "conn_ok (loop_exec i f s)"
proof (cases rule: loop_exec_cases [of i f s])
  case accepted
  then show ?thesis using assms by (auto simp: conn_ok_def list_all_iff)
next
  case busy
  then show ?thesis using assms by (auto simp: conn_ok_def list_all_iff)
qed (use assms in simp)

lemma startPty_ok: "startPty w sid params r = (res, r') \<Longrightarrow> pty_ok r \<Longrightarrow> pty_ok r'"
  using pty_ok_start [of r w sid params] by simp

lemma writeStdin_ok: "pty_writeStdin fails p b r = (res, r') \<Longrightarrow> pty_ok r \<Longrightarrow> pty_ok r'"
  using pty_ok_write [of r fails p b] by simp

lemma conn_ok_loop_ptys:
  assumes "conn_ok s"
  shows "conn_ok (loop_pty_start i f s)" "conn_ok (loop_pty_data i f s)" "conn_ok (loop_pty_resize i f s)"
    "conn_ok (loop_cancel f s)"
  using assms
  by (auto simp: loop_cancel_def loop_pty_start_def loop_pty_data_def loop_pty_resize_def
      intro!: conn_ok_ptys pty_ok_remove intro: startPty_ok writeStdin_ok
      split: option.split sum.split prod.split bool.split)

lemma conn_ok_frame: "conn_ok s \<Longrightarrow> conn_ok (runOnce_frame i f s)"
  by (simp add: runOnce_frame_def conn_ok_exec conn_ok_loop_ptys split: FrameType.split)

lemma conn_ok_recv:
  "conn_ok s \<Longrightarrow> try_recv (ac_out s) = (r, c) \<Longrightarrow> conn_ok (s\<lparr>ac_out := c\<rparr>)"
  by (auto simp: try_recv_def conn_ok_def chan_wf_def split: list.splits if_splits)

lemma distinct_filter_out:
  "distinct (map fst xs) \<Longrightarrow> (c, f) \<in> set xs \<Longrightarrow> length (filter (\<lambda>(d, g). d \<noteq> c) xs) = length xs - 1"
proof (induction xs)
  case (Cons x xs)
  then show ?case
  proof (cases "fst x = c")
    case True
    with Cons.prems have "c \<notin> fst ` set xs" by simp
    then have "filter (\<lambda>(d, g). d \<noteq> c) xs = xs" by (intro filter_True) force
    with True show ?thesis by (cases x) simp
  next
    case False
    with Cons.prems have "(c, f) \<in> set xs" by auto
    then have "0 < length xs" by auto
    with False Cons show ?thesis by (auto simp: case_prod_beta)
  qed
qed simp

lemma conn_ok_ends:
  assumes "conn_ok s" "map_of (ac_running s) c = Some f"
  shows "conn_ok (exec_ends c f s)"
proof -
  have "(c, f) \<in> set (ac_running s)" using assms(2) by (rule map_of_SomeD)
  moreover have "distinct (map fst (filter P (ac_running s)))" for P
    using assms(1) by (simp add: conn_ok_def distinct_map inj_on_def)
  ultimately show ?thesis
    using assms(1) by (auto simp: conn_ok_def exec_ends_def cancel_ctx_def distinct_filter_out list_all_iff)
qed

lemma pty_ok_closeAll: "pty_ok r \<Longrightarrow> pty_ok (pty_closeAll r)"
  using pty_ok_apply [of r OpCloseAll] by simp

lemma conn_ok_return: "conn_ok s \<Longrightarrow> conn_ok (runOnce_return s)"
  by (simp add: conn_ok_def runOnce_return_def pty_ok_closeAll chan_wf_def)

lemma conn_ok_step:
  assumes "conn_ok s" "agent_step e s = Some (Inr s')"
  shows "conn_ok s'"
proof (cases e)
  case (Received i f)
  with assms show ?thesis by (auto simp: conn_ok_frame split: if_splits)
next
  case LoopSends
  with assms show ?thesis
    by (auto simp: conn_ok_send split: option.splits sum.splits)
next
  case WriterTakes
  with assms show ?thesis
    by (auto intro: conn_ok_recv split: if_splits prod.splits received.splits)
next
  case (ExecEnds c)
  with assms show ?thesis by (auto simp: conn_ok_ends split: option.splits)
next
  case (ShellEnds sid)
  with assms show ?thesis by (auto intro!: conn_ok_ptys pty_ok_remove)
next
  case LoopReturns
  with assms show ?thesis by (auto simp: conn_ok_return split: if_splits)
qed (use assms conn_ok_send in \<open>auto split: if_splits\<close>)

lemma conn_reachable_ok: "conn_reachable s \<Longrightarrow> conn_ok s"
  by (induction rule: conn_reachable.induct) (auto intro: conn_ok_start conn_ok_step)

lemma conn_run_reachable: "conn_run s es s' \<Longrightarrow> conn_reachable s \<Longrightarrow> conn_reachable s'"
  by (induction rule: conn_run.induct) (auto intro: conn_reachable.step)

section \<open>Properties\<close>

text \<open>
  C10. In every interleaving of a connection's goroutines the agent runs at most eight commands, exactly one
  for each taken slot of the semaphore, every one of them has a session, an execution id and something
  to run, and at most eight shells are open. No goroutine panics while the connection lasts.
\<close>

theorem agent_limits_hold:
  assumes "conn_reachable s"
  shows "length (ac_running s) = ac_sem s \<and> ac_sem s \<le> 8 \<and> list_all (\<lambda>(c, f). command_ok f) (ac_running s) \<and>
    card {p. p < length (pr_heap (ac_ptys s)) \<and> pt_open (pr_heap (ac_ptys s) ! p)} \<le> 8 \<and>
    (\<not> ch_closed (ac_out s) \<longrightarrow> agent_step e s \<noteq> Some (Inl p))"
proof -
  have ok: "conn_ok s" using assms by (rule conn_reachable_ok)
  have "agent_step e s \<noteq> Some (Inl p)" if "\<not> ch_closed (ac_out s)"
    using that send_out_Inl by (cases e) (auto split: option.splits sum.splits prod.splits received.splits)
  moreover have "card {p. p < length (pr_heap (ac_ptys s)) \<and> pt_open (pr_heap (ac_ptys s) ! p)} \<le> 8"
    using open_shells_bounded [of "ac_ptys s"] ok by (simp add: maxParallelPtys_def)
  ultimately show ?thesis using ok by (auto simp: conn_ok_def maxParallelExec_def list_all_iff)
qed

definition demo_input :: loop_input where
  "demo_input = \<lparr>li_world = demo_pty_world, li_fails = False, li_now = 5\<rparr>"

definition demo_command :: "string \<Rightarrow> Frame" where
  "demo_command eid = (frame TypeExec ''s'' eid)\<lparr>f_Exec := Some demo_exec\<rparr>"

definition demo_conn :: agent_conn where
  "demo_conn = runOnce_frame demo_input (demo_command ''e'') runOnce_start"

lemma demo_conn:
  "demo_conn = runOnce_start\<lparr>ac_ctxs := [False], ac_cancels := [(''e'', 0)], ac_sem := 1, ac_running := [(0, demo_command ''e'')]\<rparr>"
  by (simp add: demo_conn_def runOnce_frame_def loop_exec_def demo_command_def demo_exec_def runOnce_start_def
      maxParallelExec_def gm_set_def Let_def)

lemma demo_conn_step: "agent_step (Received demo_input (demo_command ''e'')) runOnce_start = Some (Inr demo_conn)"
  by (simp add: demo_conn_def runOnce_start_def)

lemma demo_conn_reachable: "conn_reachable demo_conn"
  by (rule conn_reachable.step [OF conn_reachable.start demo_conn_step])

theorem agent_limits_hold_witness: "length (ac_running demo_conn) = 1 \<and> agent_step LoopReturns demo_conn \<noteq> Some (Inl SendOnClosed)"
  using agent_limits_hold [OF demo_conn_reachable, of LoopReturns SendOnClosed]
  by (simp add: demo_conn runOnce_start_def)

subsection \<open>Cancelling a command\<close>

text \<open>An event that names an execution id: a request to run it, or the end of its run.\<close>

definition touches :: "string \<Rightarrow> agent_conn \<Rightarrow> agent_event \<Rightarrow> bool" where
  "touches eid s e \<longleftrightarrow>
     (case e of
        Received i f \<Rightarrow> f_Type f = TypeExec \<and> f_ExecID f = eid
      | ExecEnds c \<Rightarrow> (case map_of (ac_running s) c of Some f \<Rightarrow> f_ExecID f = eid | None \<Rightarrow> False)
      | _ \<Rightarrow> False)"

inductive quiet_run :: "string \<Rightarrow> agent_conn \<Rightarrow> agent_conn \<Rightarrow> bool" for eid where
  refl: "quiet_run eid s s"
| step: "quiet_run eid s s1 \<Longrightarrow> \<not> touches eid s1 e \<Longrightarrow> agent_step e s1 = Some (Inr s2) \<Longrightarrow> quiet_run eid s s2"

lemma frame_cancels:
  "f_Type f \<noteq> TypeExec \<Longrightarrow> ac_cancels (runOnce_frame i f s) = ac_cancels s \<and> length (ac_ctxs (runOnce_frame i f s)) = length (ac_ctxs s)"
  by (auto simp: runOnce_frame_def loop_cancel_def loop_pty_start_def loop_pty_data_def loop_pty_resize_def cancel_ctx_def
      split: FrameType.split option.split sum.split prod.split bool.split)

lemma frame_exec: "f_Type f = TypeExec \<Longrightarrow> runOnce_frame i f s = loop_exec i f s"
  by (simp add: runOnce_frame_def)

lemma quiet_step:
  assumes "gm_get (ac_cancels s) eid = Some c" "c < length (ac_ctxs s)" "\<not> touches eid s e" "agent_step e s = Some (Inr s')"
  shows "gm_get (ac_cancels s') eid = Some c \<and> c < length (ac_ctxs s')"
proof (cases e)
  case (Received i f)
  with assms have s': "s' = runOnce_frame i f s" by (simp split: if_splits)
  show ?thesis
  proof (cases "f_Type f = TypeExec")
    case True
    with Received assms(3) have "f_ExecID f \<noteq> eid" by (simp add: touches_def)
    with s' True assms(1,2) show ?thesis
      by (cases rule: loop_exec_cases [of i f s]) (simp_all add: frame_exec)
  next
    case False
    with s' assms(1,2) frame_cancels [OF False, of i s] show ?thesis by simp
  qed
next
  case (ExecEnds d)
  with assms show ?thesis by (auto simp: touches_def exec_ends_def cancel_ctx_def split: option.splits)
qed (use assms in \<open>auto simp: send_out_Inr runOnce_return_def split: if_splits option.splits sum.splits prod.splits received.splits\<close>)

lemma quiet_run_keeps:
  "quiet_run eid s s' \<Longrightarrow> gm_get (ac_cancels s) eid = Some c \<Longrightarrow> c < length (ac_ctxs s) \<Longrightarrow>
   gm_get (ac_cancels s') eid = Some c \<and> c < length (ac_ctxs s')"
  by (induction rule: quiet_run.induct) (use quiet_step in blast)+

text \<open>
  C21. A cancel reaches its command: when a command was accepted and, whatever else happened since, no other
  request used its execution id and it has not ended, then a cancel frame with that id cancels the
  context the command runs under.
\<close>

theorem cancel_reaches_command:
  assumes "f_Type f = TypeExec" "command_ok f" "ac_sem s < maxParallelExec"
    and "quiet_run (f_ExecID f) (runOnce_frame i f s) s'"
    and "f_Type g = TypeCancel" "f_ExecID g = f_ExecID f"
  shows "(length (ac_ctxs s), f) \<in> set (ac_running (runOnce_frame i f s)) \<and>
    ac_ctxs (runOnce_frame j g s') ! length (ac_ctxs s)"
proof -
  have s1: "runOnce_frame i f s =
      s\<lparr>ac_ctxs := ac_ctxs s @ [False], ac_cancels := gm_set (f_ExecID f) (length (ac_ctxs s)) (ac_cancels s),
        ac_sem := Suc (ac_sem s), ac_running := ac_running s @ [(length (ac_ctxs s), f)]\<rparr>"
    using assms(1-3) by (cases rule: loop_exec_cases [of i f s]) (auto simp: frame_exec)
  have "gm_get (ac_cancels s') (f_ExecID f) = Some (length (ac_ctxs s)) \<and> length (ac_ctxs s) < length (ac_ctxs s')"
    using quiet_run_keeps [OF assms(4)] by (simp add: s1)
  moreover have "f_ExecID f \<noteq> []" using assms(2) by (simp add: command_ok_def)
  ultimately have "runOnce_frame j g s' = cancel_ctx (length (ac_ctxs s)) s'" and "length (ac_ctxs s) < length (ac_ctxs s')"
    using assms(5,6) by (simp_all add: runOnce_frame_def loop_cancel_def)
  then show ?thesis by (simp add: s1 cancel_ctx_def)
qed

theorem cancel_reaches_command_witness:
  "ac_ctxs (runOnce_frame demo_input (frame TypeCancel [] ''e'') demo_conn) = [True]"
proof -
  have "quiet_run (f_ExecID (demo_command ''e'')) (runOnce_frame demo_input (demo_command ''e'') runOnce_start) demo_conn"
    unfolding demo_conn_def by (rule quiet_run.refl)
  then have "ac_ctxs (runOnce_frame demo_input (frame TypeCancel [] ''e'') demo_conn) ! length (ac_ctxs runOnce_start)"
    by (rule cancel_reaches_command [THEN conjunct2, rotated 3])
      (simp_all add: demo_command_def demo_exec_def command_ok_def runOnce_start_def maxParallelExec_def)
  then show ?thesis
    by (simp add: demo_conn runOnce_start_def runOnce_frame_def loop_cancel_def cancel_ctx_def gm_get_def)
qed

subsection \<open>The end of a connection\<close>

text \<open>
  C19. When a connection ends, every shell of it is closed and the context of every command cancelled; but a
  command that is still running then panics in its next send, whatever it sends: \<open>out\<close> is closed by its
  receiver while the senders are still there, and a panic in a goroutine ends the agent.
\<close>

theorem disconnect_panics_running:
  assumes "conn_reachable s" "agent_step LoopReturns s = Some (Inr s')"
  shows "(\<forall>p < length (pr_heap (ac_ptys s')). \<not> pt_open (pr_heap (ac_ptys s') ! p)) \<and> list_all (\<lambda>b. b) (ac_ctxs s') \<and>
    ac_running s' = ac_running s \<and>
    (\<forall>(c, f) \<in> set (ac_running s). \<forall>g. agent_step (ExecSends c g) s' = Some (Inl SendOnClosed))"
proof -
  have s': "s' = runOnce_return s" using assms(2) by (simp split: if_splits)
  have "pty_ok (ac_ptys s)" using conn_reachable_ok [OF assms(1)] by simp
  from closeAll_closes [OF this] show ?thesis
    by (force simp: s' runOnce_return_def list_all_iff send_out_Inl)
qed

theorem disconnect_panics_running_witness:
  "agent_step (ExecSends 0 (frame TypeExit ''s'' ''e'')) (runOnce_return demo_conn) = Some (Inl SendOnClosed)"
proof -
  have "agent_step LoopReturns demo_conn = Some (Inr (runOnce_return demo_conn))"
    by (simp add: demo_conn runOnce_start_def)
  from disconnect_panics_running [OF demo_conn_reachable this]
  have "\<forall>(c, f) \<in> set (ac_running demo_conn). \<forall>g. agent_step (ExecSends c g) (runOnce_return demo_conn) = Some (Inl SendOnClosed)"
    by blast
  moreover have "(0, demo_command ''e'') \<in> set (ac_running demo_conn)" by (simp add: demo_conn)
  ultimately show ?thesis by blast
qed

subsection \<open>A writer that has failed\<close>

text \<open>The loop has a frame to send, the channel is full, and nobody receives from it any more.\<close>

definition stalled :: "agent_conn \<Rightarrow> bool" where
  "stalled s \<longleftrightarrow>
     ac_pending s \<noteq> None \<and> \<not> ac_writing s \<and> \<not> ch_closed (ac_out s) \<and> length (ch_buf (ac_out s)) = ch_cap (ac_out s)"

lemma stalled_step: "stalled s \<Longrightarrow> agent_step e s = Some (Inr s') \<Longrightarrow> stalled s'"
  by (cases e) (auto simp: stalled_def exec_ends_def cancel_ctx_def send_out_def try_send_def
      split: if_splits option.splits sum.splits)

lemma stalled_run: "conn_run s es s' \<Longrightarrow> stalled s \<Longrightarrow> stalled s'"
  by (induction rule: conn_run.induct) (auto intro: stalled_step)

text \<open>
  C20. When the writer has returned on an error while the loop waits to put a frame on the full channel,
  the connection never ends: whatever the other goroutines do, the loop stays where it is, \<open>runOnce\<close>
  does not return, and the agent does not reconnect.
\<close>

theorem dead_writer_stalls_agent:
  assumes "stalled s" "conn_run s es s'"
  shows "stalled s' \<and> agent_step LoopReturns s' = None \<and> agent_step (Received i f) s' = None \<and> agent_step LoopSends s' = None"
proof -
  have "stalled s'" using stalled_run assms by blast
  then show ?thesis by (auto simp: stalled_def send_out_def try_send_def)
qed

text \<open>Thirty-three pings that the writer is too slow to answer, and then its write fails.\<close>

definition ping_conn :: "nat \<Rightarrow> agent_conn" where
  "ping_conn n = runOnce_start\<lparr>ac_out := (make_chan 32)\<lparr>ch_buf := replicate n (frame TypePong [] [])\<rparr>\<rparr>"

lemma ping_conn_Suc:
  assumes "n < 32" "conn_reachable (ping_conn n)"
  shows "conn_reachable (ping_conn (Suc n))"
proof -
  have "agent_step (Received demo_input (frame TypePing [] [])) (ping_conn n) =
      Some (Inr ((ping_conn n)\<lparr>ac_pending := Some (frame TypePong [] [])\<rparr>))"
    by (simp add: ping_conn_def runOnce_start_def runOnce_frame_def)
  with assms(2) have "conn_reachable ((ping_conn n)\<lparr>ac_pending := Some (frame TypePong [] [])\<rparr>)"
    by (rule conn_reachable.step)
  moreover have "agent_step LoopSends ((ping_conn n)\<lparr>ac_pending := Some (frame TypePong [] [])\<rparr>) = Some (Inr (ping_conn (Suc n)))"
    using assms(1) by (simp add: ping_conn_def runOnce_start_def send_out_def try_send_def replicate_append_same)
  ultimately show ?thesis by (rule conn_reachable.step)
qed

lemma ping_conn_reachable: "n \<le> 32 \<Longrightarrow> conn_reachable (ping_conn n)"
proof (induction n)
  case 0
  have "ping_conn 0 = runOnce_start" by (simp add: ping_conn_def runOnce_start_def make_chan_def)
  then show ?case using conn_reachable.start by simp
next
  case (Suc n)
  then show ?case by (simp add: ping_conn_Suc)
qed

definition stalled_conn :: agent_conn where
  "stalled_conn = (ping_conn 32)\<lparr>ac_pending := Some (frame TypePong [] []), ac_writing := False\<rparr>"

lemma stalled_conn_reachable: "conn_reachable stalled_conn"
proof -
  have "agent_step (Received demo_input (frame TypePing [] [])) (ping_conn 32) =
      Some (Inr ((ping_conn 32)\<lparr>ac_pending := Some (frame TypePong [] [])\<rparr>))"
    by (simp add: ping_conn_def runOnce_start_def runOnce_frame_def)
  then have "conn_reachable ((ping_conn 32)\<lparr>ac_pending := Some (frame TypePong [] [])\<rparr>)"
    by (rule conn_reachable.step [OF ping_conn_reachable [OF order.refl]])
  moreover have "agent_step WriterFails ((ping_conn 32)\<lparr>ac_pending := Some (frame TypePong [] [])\<rparr>) = Some (Inr stalled_conn)"
    by (simp add: stalled_conn_def ping_conn_def runOnce_start_def)
  ultimately show ?thesis by (rule conn_reachable.step)
qed

theorem dead_writer_stalls_agent_witness: "conn_reachable stalled_conn \<and> agent_step LoopReturns stalled_conn = None"
proof -
  have "stalled stalled_conn"
    by (simp add: stalled_def stalled_conn_def ping_conn_def runOnce_start_def)
  from dead_writer_stalls_agent [OF this conn_run.stop, of demo_input "frame TypePing [] []"] stalled_conn_reachable
  show ?thesis by simp
qed

end
