(* ===== verification/DeviceId.thy ===== *)
theory DeviceId
  imports Encoding EnvFile
begin

text \<open>
  The device's identity: \<open>cmd/agent/deviceid.go\<close>. The private key is the 32-byte seed in the key file;
  the Ed25519 functions and the JWT library are parameters. \<open>loadOrCreateIdentity\<close> gives its result
  and the key file it leaves, for any failure of its calls and any point at which the machine stops.
\<close>

section \<open>Keys and assertions\<close>

record deviceIdentity =
  di_deviceID :: string
  di_seed :: bytes

definition assertionAudience :: string where "assertionAudience = ''hasfy-app/device-token''"

definition assertionTTL :: time where "assertionTTL = 60 * second"

text \<open>\<open>ok\<close> is the type assertion on the public key.\<close>

definition publicKeyBase64URL :: "(bytes \<Rightarrow> bytes option) \<Rightarrow> deviceIdentity \<Rightarrow> string" where
  "publicKeyBase64URL public d = (case public (di_seed d) of None \<Rightarrow> [] | Some pub \<Rightarrow> raw_url_encode pub)"

record assertion_claims =
  as_sub :: string
  as_aud :: string
  as_iat :: int
  as_exp :: int
  as_jti :: string

text \<open>\<open>Time.Unix\<close>: whole seconds since the epoch.\<close>

definition unix_seconds :: "time \<Rightarrow> int" where
  "unix_seconds t = t div second"

definition assertion_for :: "time \<Rightarrow> string \<Rightarrow> deviceIdentity \<Rightarrow> assertion_claims" where
  "assertion_for now jti d =
     \<lparr>as_sub = di_deviceID d, as_aud = assertionAudience, as_iat = unix_seconds now,
      as_exp = unix_seconds (now + assertionTTL), as_jti = jti\<rparr>"

definition signAssertion ::
  "(assertion_claims \<Rightarrow> bytes \<Rightarrow> string + string) \<Rightarrow> time \<Rightarrow> string \<Rightarrow> deviceIdentity \<Rightarrow> string + string" where
  "signAssertion sign now jti d = sign (assertion_for now jti d) (di_seed d)"

lemma assertion_lifetime: "as_exp (assertion_for now jti d) = as_iat (assertion_for now jti d) + 60"
  by (simp add: assertion_for_def unix_seconds_def assertionTTL_def)

definition defaultEnvFilePath :: "string \<Rightarrow> string" where
  "defaultEnvFilePath goos =
     (if goos = ''windows'' then ''C:'' @ [CHR 0x5C] @ ''ProgramData'' @ [CHR 0x5C] @ ''Hasfy'' @ [CHR 0x5C] @ ''agent.env''
      else ''/etc/hasfy/agent.env'')"

text \<open>\<open>filepath.Join(filepath.Dir(p), name)\<close> for a path with a directory part.\<close>

definition sibling :: "string \<Rightarrow> string \<Rightarrow> string \<Rightarrow> string" where
  "sibling goos p name =
     (case last_index_byte p (if goos = ''windows'' then CHR 0x5C else CHR ''/'') of
        None \<Rightarrow> name
      | Some i \<Rightarrow> take (Suc i) p @ name)"

definition defaultKeyPath :: "string \<Rightarrow> string" where
  "defaultKeyPath goos = sibling goos (defaultEnvFilePath goos) ''device.key''"

definition defaultStatusFilePath :: "string \<Rightarrow> string" where
  "defaultStatusFilePath goos = sibling goos (defaultEnvFilePath goos) ''enrollment-status.json''"

lemma default_paths:
  "defaultKeyPath ''linux'' = ''/etc/hasfy/device.key''"
  "defaultStatusFilePath ''linux'' = ''/etc/hasfy/enrollment-status.json''"
  by (simp_all add: defaultKeyPath_def defaultStatusFilePath_def sibling_def defaultEnvFilePath_def last_index_byte_def)

section \<open>The key file\<close>

definition SeedSize :: nat where "SeedSize = 32"

datatype key_step = KMkdirAll | KRand | KOpen | KWrite | KSync | KClose

definition key_steps :: "key_step list" where
  "key_steps = [KMkdirAll, KRand, KOpen, KWrite, KSync, KClose]"

text \<open>\<open>O_EXCL\<close>: the file must not be there yet.\<close>

fun key_effect :: "bytes \<Rightarrow> key_step \<Rightarrow> fs_file option \<Rightarrow> fs_file option" where
  "key_effect seed KOpen f = Some \<lparr>fl_mode = 384, fl_data = []\<rparr>"
| "key_effect seed KWrite f = map_option (\<lambda>x. x\<lparr>fl_data := fl_data x @ seed\<rparr>) f"
| "key_effect seed st f = f"

fun key_error :: "key_step \<Rightarrow> string" where
  "key_error KMkdirAll = ''create key directory: ''"
| "key_error KRand = ''generate device key: ''"
| "key_error KOpen = ''create device key file: ''"
| "key_error KWrite = ''write device key: ''"
| "key_error KSync = ''sync device key: ''"
| "key_error KClose = ''close device key: ''"

text \<open>
  An error after the file was created removes it again. A machine that stops loses what was not synced
  of the file, or the file altogether while its name is not on the disk.
\<close>

fun key_run :: "bytes \<Rightarrow> key_step list \<Rightarrow> fs_outcome list \<Rightarrow> fs_file option \<Rightarrow> fs_result \<times> fs_file option" where
  "key_run seed [] outs f =
     (case next_outcome outs of FsCrash n kept \<Rightarrow> (Crashed, if kept then f else None) | _ \<Rightarrow> (Done, f))"
| "key_run seed (st # sts) outs f =
     (case next_outcome outs of
        FsOk \<Rightarrow>
          (if st = KOpen \<and> f \<noteq> None then (Failed (key_error st @ ''file exists''), f)
           else key_run seed sts (tl outs) (key_effect seed st f))
      | FsFail e n \<Rightarrow> (Failed (key_error st @ e), if st \<in> {KWrite, KSync, KClose} then None else f)
      | FsCrash n kept \<Rightarrow>
          (Crashed,
           if st \<in> {KMkdirAll, KRand, KOpen} then f
           else if kept then map_option (survives n (st = KClose)) f else None))"

text \<open>
  \<open>read_error\<close> is an error of \<open>ReadFile\<close> other than a missing file, \<open>seed\<close> what \<open>rand.Read\<close> gives; the
  result \<open>None\<close> is a machine that stops.
\<close>

definition loadOrCreateIdentity ::
  "string option \<Rightarrow> bytes \<Rightarrow> fs_outcome list \<Rightarrow> string \<Rightarrow> fs_file option \<Rightarrow>
     (string + (deviceIdentity \<times> bool)) option \<times> fs_file option" where
  "loadOrCreateIdentity read_error seed outs deviceID f =
     (case (read_error, f) of
        (Some e, _) \<Rightarrow> (Some (Inl (''read device key: '' @ e)), f)
      | (None, Some k) \<Rightarrow>
          (if length (fl_data k) \<noteq> SeedSize then (Some (Inl ''refusing to use a malformed key''), f)
           else (Some (Inr (\<lparr>di_deviceID = deviceID, di_seed = fl_data k\<rparr>, False)), f))
      | (None, None) \<Rightarrow>
          (case key_run seed key_steps outs None of
             (Done, f') \<Rightarrow> (Some (Inr (\<lparr>di_deviceID = deviceID, di_seed = seed\<rparr>, True)), f')
           | (Failed e, f') \<Rightarrow> (Some (Inl e), f')
           | (Crashed, f') \<Rightarrow> (None, f')))"

section \<open>Properties\<close>

lemmas key_run_unfold = key_steps_def key_run.simps

lemma key_run_done:
  "key_run seed key_steps outs None = (Done, f) \<Longrightarrow> f = Some \<lparr>fl_mode = 384, fl_data = seed\<rparr>"
  by (auto simp: key_run_unfold split: fs_outcome.splits)

lemma key_run_failed: "key_run seed key_steps outs None = (Failed e, f) \<Longrightarrow> f = None"
  by (auto simp: key_run_unfold split: fs_outcome.splits)

lemma key_run_crashed:
  "key_run seed key_steps outs None = (Crashed, f) \<Longrightarrow> f = None \<or> (\<exists>n. f = Some \<lparr>fl_mode = 384, fl_data = take n seed\<rparr>)"
proof -
  assume "key_run seed key_steps outs None = (Crashed, f)"
  then have "f \<in> {None, Some \<lparr>fl_mode = 384, fl_data = take 0 seed\<rparr>, Some \<lparr>fl_mode = 384, fl_data = take (length seed) seed\<rparr>} \<or>
      (\<exists>n. f = Some \<lparr>fl_mode = 384, fl_data = take n seed\<rparr>)"
    by (auto simp: key_run_unfold survives_def split: fs_outcome.splits if_splits)
  then show ?thesis by blast
qed

text \<open>An identity that was returned is the content of the key file.\<close>

lemma identity_file:
  assumes "loadOrCreateIdentity re seed outs dev f = (Some (Inr (d, created)), f')" "length seed = SeedSize"
  obtains k where "f' = Some k" "fl_data k = di_seed d" "length (fl_data k) = SeedSize" "created \<longleftrightarrow> f = None" "di_deviceID d = dev"
proof -
  obtain r f1 where run: "key_run seed key_steps outs None = (r, f1)" by (cases "key_run seed key_steps outs None")
  have "r = Done \<Longrightarrow> f1 = Some \<lparr>fl_mode = 384, fl_data = seed\<rparr>" using run key_run_done by blast
  with assms that show ?thesis
    by (auto simp: loadOrCreateIdentity_def run split: option.splits if_splits fs_result.splits)
qed

lemma identity_reloads:
  "length (fl_data k) = SeedSize \<Longrightarrow>
   loadOrCreateIdentity None seed outs dev (Some k) = (Some (Inr (\<lparr>di_deviceID = dev, di_seed = fl_data k\<rparr>, False)), Some k)"
  by (simp add: loadOrCreateIdentity_def)

text \<open>
  C28. The device's identity is created once and is stable. A start that returns an identity leaves its
  seed in the key file, at mode 0600 when the file is new, and every later start that can read the file
  gives the same identity and says it is not new. A new identity is reported exactly when there was no key
  file; a failed start leaves the file as it was.
\<close>

theorem identity_stable:
  assumes "length seed = SeedSize" "loadOrCreateIdentity re seed outs dev f = (res, f')"
  shows "case res of
      Some (Inr (d, created)) \<Rightarrow>
        di_deviceID d = dev \<and> created = (f = None) \<and>
        f' = (if created then Some \<lparr>fl_mode = 384, fl_data = di_seed d\<rparr> else f) \<and>
        (\<forall>seed' outs'. loadOrCreateIdentity None seed' outs' dev f' = (Some (Inr (d, False)), f'))
    | Some (Inl e) \<Rightarrow> f' = f
    | None \<Rightarrow> f = None"
proof (cases re)
  case (Some e)
  then show ?thesis using assms(2) by (auto simp: loadOrCreateIdentity_def)
next
  case re: None
  show ?thesis
  proof (cases f)
    case (Some k)
    then show ?thesis using assms re by (auto simp: loadOrCreateIdentity_def split: if_splits)
  next
    case None
    obtain r f1 where run: "key_run seed key_steps outs None = (r, f1)" by (cases "key_run seed key_steps outs None")
    show ?thesis
    proof (cases r)
      case Done
      with run key_run_done have "f1 = Some \<lparr>fl_mode = 384, fl_data = seed\<rparr>" by blast
      then show ?thesis using assms re None run Done by (auto simp: loadOrCreateIdentity_def)
    next
      case (Failed e)
      with run key_run_failed have "f1 = None" by blast
      then show ?thesis using assms re None run Failed by (auto simp: loadOrCreateIdentity_def)
    next
      case Crashed
      then show ?thesis using assms re None run by (auto simp: loadOrCreateIdentity_def)
    qed
  qed
qed

definition demo_seed :: bytes where
  "demo_seed = replicate 32 CHR ''k''"

theorem identity_stable_witness:
  "loadOrCreateIdentity None demo_seed [] ''dev'' None =
     (Some (Inr (\<lparr>di_deviceID = ''dev'', di_seed = demo_seed\<rparr>, True)), Some \<lparr>fl_mode = 384, fl_data = demo_seed\<rparr>) \<and>
   loadOrCreateIdentity None [] [] ''dev'' (Some \<lparr>fl_mode = 384, fl_data = demo_seed\<rparr>) =
     (Some (Inr (\<lparr>di_deviceID = ''dev'', di_seed = demo_seed\<rparr>, False)), Some \<lparr>fl_mode = 384, fl_data = demo_seed\<rparr>)"
proof -
  have first: "loadOrCreateIdentity None demo_seed [] ''dev'' None =
     (Some (Inr (\<lparr>di_deviceID = ''dev'', di_seed = demo_seed\<rparr>, True)), Some \<lparr>fl_mode = 384, fl_data = demo_seed\<rparr>)"
    by (simp add: loadOrCreateIdentity_def key_steps_def)
  have "length demo_seed = SeedSize" by (simp add: demo_seed_def SeedSize_def)
  from identity_stable [OF this first] first show ?thesis by simp
qed

text \<open>
  The file is created before it is written: a machine that stops in between finds a key file it refuses at
  every later start.
\<close>

lemma interrupted_key_refused:
  "loadOrCreateIdentity None seed [FsOk, FsOk, FsOk, FsCrash n True] dev None = (None, Some \<lparr>fl_mode = 384, fl_data = []\<rparr>)"
  "fst (loadOrCreateIdentity None seed' outs dev (Some \<lparr>fl_mode = 384, fl_data = []\<rparr>)) =
     Some (Inl ''refusing to use a malformed key'')"
  by (simp_all add: loadOrCreateIdentity_def key_steps_def SeedSize_def survives_def)

end
