(* ===== verification/Strconv.thy ===== *)
theory Strconv
  imports Prelude
begin

text \<open>
  \<open>strconv.FormatInt\<close> and \<open>strconv.ParseInt\<close> in base 10 for \<open>int64\<close>, as \<open>internal/server\<close> and
  \<open>internal/audit\<close> use them on the timestamp they sign.
\<close>

definition digit_char :: "nat \<Rightarrow> char" where
  "digit_char d = char_of (48 + d)"

definition digit_value :: "char \<Rightarrow> nat option" where
  "digit_value c =
     (let n = of_char c in if (48::nat) \<le> n \<and> n \<le> 57 then Some (n - 48) else None)"

fun format_nat :: "nat \<Rightarrow> string" where
  "format_nat n = (if n < 10 then [digit_char n] else format_nat (n div 10) @ [digit_char (n mod 10)])"

declare format_nat.simps [simp del]

definition format_int :: "int \<Rightarrow> string" where
  "format_int i = (if i < 0 then CHR ''-'' # format_nat (nat (- i)) else format_nat (nat i))"

fun parse_digits :: "string \<Rightarrow> nat \<Rightarrow> nat option" where
  "parse_digits [] acc = Some acc"
| "parse_digits (c # cs) acc =
     (case digit_value c of None \<Rightarrow> None | Some d \<Rightarrow> parse_digits cs (acc * 10 + d))"

definition parse_nat :: "string \<Rightarrow> nat option" where
  "parse_nat s = (if s = [] then None else parse_digits s 0)"

text \<open>An optional sign, digits, and the range of \<open>int64\<close>; anything else is an error.\<close>

definition parse_int64 :: "string \<Rightarrow> int option" where
  "parse_int64 s =
     (let r = (case s of
                 [] \<Rightarrow> None
               | c # cs \<Rightarrow> if c = CHR ''-'' then map_option (\<lambda>n. - int n) (parse_nat cs)
                            else if c = CHR ''+'' then map_option int (parse_nat cs)
                            else map_option int (parse_nat s))
      in case r of Some i \<Rightarrow> if int64 i then Some i else None | None \<Rightarrow> None)"

lemma digit_value_char [simp]: "d < 10 \<Longrightarrow> digit_value (digit_char d) = Some d"
  by (simp add: digit_value_def digit_char_def)

lemma digit_char_not_sign: "d < 10 \<Longrightarrow> digit_char d \<noteq> CHR ''-'' \<and> digit_char d \<noteq> CHR ''+''"
proof -
  assume "d < 10"
  then have "(of_char (digit_char d) :: nat) = 48 + d" by (simp add: digit_char_def)
  then show ?thesis by auto
qed

lemma format_nat_not_Nil [simp]: "format_nat n \<noteq> []"
  by (subst format_nat.simps) simp

lemma parse_digits_append:
  "parse_digits (s @ t) acc = (case parse_digits s acc of None \<Rightarrow> None | Some a \<Rightarrow> parse_digits t a)"
  by (induction s arbitrary: acc) (auto split: option.splits)

lemma parse_format_nat_acc:
  "\<exists>k. parse_digits (format_nat n) acc = Some (acc * k + n)"
proof (induction n arbitrary: acc rule: format_nat.induct)
  case (1 n)
  show ?case
  proof (cases "n < 10")
    case True
    then show ?thesis by (subst format_nat.simps) auto
  next
    case False
    with 1 obtain k where "parse_digits (format_nat (n div 10)) acc = Some (acc * k + n div 10)" by blast
    with False show ?thesis
      by (subst format_nat.simps) (auto simp: parse_digits_append algebra_simps intro!: exI [of _ "k * 10"])
  qed
qed

lemma parse_format_nat [simp]: "parse_nat (format_nat n) = Some n"
  using parse_format_nat_acc [of n 0] by (auto simp: parse_nat_def)

lemma hd_format_nat: "\<exists>d < 10. \<exists>cs. format_nat n = digit_char d # cs"
proof (induction n rule: format_nat.induct)
  case (1 n)
  show ?case
  proof (cases "n < 10")
    case True
    then show ?thesis by (subst format_nat.simps) auto
  next
    case False
    with 1 show ?thesis by (subst format_nat.simps) fastforce
  qed
qed

lemma parse_format_int: "int64 i \<Longrightarrow> parse_int64 (format_int i) = Some i"
proof (cases "i < 0")
  case True
  then show "int64 i \<Longrightarrow> ?thesis" by (simp add: format_int_def parse_int64_def)
next
  case False
  obtain d cs where "d < 10" "format_nat (nat i) = digit_char d # cs" using hd_format_nat by blast
  moreover from this have "parse_nat (digit_char d # cs) = Some (nat i)"
    using parse_format_nat [of "nat i"] by simp
  ultimately show "int64 i \<Longrightarrow> ?thesis"
    using False digit_char_not_sign by (simp add: format_int_def parse_int64_def)
qed

lemma parse_int64_range: "parse_int64 s = Some i \<Longrightarrow> int64 i"
  by (auto simp: parse_int64_def Let_def split: option.splits if_splits)

lemma format_int_not_Nil [simp]: "format_int i \<noteq> []"
  by (simp add: format_int_def)

lemma digit_char_eval [simp]:
  "digit_char 0 = CHR ''0''" "digit_char (Suc 0) = CHR ''1''" "digit_char 2 = CHR ''2''" "digit_char 3 = CHR ''3''"
  "digit_char 4 = CHR ''4''" "digit_char 5 = CHR ''5''" "digit_char 6 = CHR ''6''" "digit_char 7 = CHR ''7''"
  "digit_char 8 = CHR ''8''" "digit_char 9 = CHR ''9''"
  by code_simp+

end
