(* ===== verification/Token.thy ===== *)
theory Token
  imports DeviceId Strconv
begin

text \<open>
  Relay tokens: \<open>cmd/agent/token.go\<close>, with the device requests that the other reporters share. A reply is an
  input that carries its decoded body. The manager is its registration step and then a cycle that
  runs until it stops; the contract of such cycles, which inventory and metrics follow too, is the locale
  \<open>reporter\<close>.
\<close>

section \<open>Requests to Hasfy-App\<close>

record device_request =
  dq_url :: string
  dq_headers :: "(string, string) gomap"
  dq_body :: bytes

text \<open>\<open>version\<close> is the build's \<open>Version\<close>.\<close>

definition postJSON ::
  "string \<Rightarrow> string \<Rightarrow> string \<Rightarrow> (string \<times> string) list \<Rightarrow> bytes \<Rightarrow> device_request" where
  "postJSON version url bearer headers body =
     (let h1 = [(''Content-Type'', ''application/json''), (''User-Agent'', ''hasfy-agent/'' @ version)];
          h2 = (if bearer \<noteq> [] then gm_set ''Authorization'' (''Bearer '' @ bearer) h1 else h1)
      in \<lparr>dq_url = url, dq_headers = fold (\<lambda>(k, v). gm_set k v) headers h2, dq_body = body\<rparr>)"

datatype 'a api_reply = NoReply string | Reply int "'a option"

datatype api_error = DeviceRefused string | ApiError string

definition deviceTokenPath :: string where "deviceTokenPath = ''/api/v1/device/token''"

definition deviceKeyPath :: string where "deviceKeyPath = ''/api/v1/device/key''"

definition errDeviceRefused :: api_error where "errDeviceRefused = DeviceRefused ''device refused by Hasfy-App''"

text \<open>\<open>json\<close> is the encoding of the one-entry map.\<close>

definition registerPublicKey_request :: "string \<Rightarrow> string \<Rightarrow> string \<Rightarrow> bytes \<Rightarrow> device_request" where
  "registerPublicKey_request version apiBase secret json =
     postJSON version (trim_right_byte CHR ''/'' apiBase @ deviceKeyPath) [] [(''X-Hasfy-Device-Enrollment'', secret)] json"

definition registerPublicKey :: "unit api_reply \<Rightarrow> api_error option" where
  "registerPublicKey r =
     (case r of
        NoReply e \<Rightarrow> Some (ApiError e)
      | Reply code b \<Rightarrow>
          if code = 200 then None
          else if code = 401 then
            Some (DeviceRefused ''device refused by Hasfy-App: enrollment secret rejected (expired or already used)'')
          else Some (ApiError (''key registration HTTP '' @ format_int code)))"

record deviceTokenResponse =
  dt_Success :: bool
  dt_AgentToken :: string
  dt_TTLSeconds :: int

definition acquireToken_request :: "string \<Rightarrow> string \<Rightarrow> string \<Rightarrow> device_request" where
  "acquireToken_request version apiBase assertion =
     postJSON version (trim_right_byte CHR ''/'' apiBase @ deviceTokenPath) assertion [] ''{}''"

definition acquireToken :: "string + string \<Rightarrow> deviceTokenResponse api_reply \<Rightarrow> api_error + (string \<times> time)" where
  "acquireToken signed_assertion r =
     (case signed_assertion of
        Inl e \<Rightarrow> Inl (ApiError (''sign assertion: '' @ e))
      | Inr assertion \<Rightarrow>
          (case r of
             NoReply e \<Rightarrow> Inl (ApiError e)
           | Reply code b \<Rightarrow>
               if code = 401 then Inl errDeviceRefused
               else if code \<noteq> 200 then Inl (ApiError (''token request HTTP '' @ format_int code))
               else (case b of
                       None \<Rightarrow> Inl (ApiError ''decode token response'')
                     | Some out \<Rightarrow>
                         if \<not> dt_Success out \<or> dt_AgentToken out = [] then Inl (ApiError ''token response carried no token'')
                         else Inr (dt_AgentToken out, wrap64 (dt_TTLSeconds out * second)))))"

section \<open>The store\<close>

text \<open>\<open>ts_ready\<close>: the channel is closed, which \<open>once\<close> does on the first \<open>set\<close> only.\<close>

record tokenStore =
  ts_token :: string
  ts_ready :: bool
  ts_once :: bool

definition newTokenStore :: tokenStore where
  "newTokenStore = \<lparr>ts_token = [], ts_ready = False, ts_once = False\<rparr>"

definition tokenStore_get :: "tokenStore \<Rightarrow> string" where
  "tokenStore_get s = ts_token s"

definition tokenStore_set :: "string \<Rightarrow> tokenStore \<Rightarrow> panic + tokenStore" where
  "tokenStore_set token s =
     (let s1 = s\<lparr>ts_token := token\<rparr> in
      if ts_once s1 then Inr s1
      else if ts_ready s1 then Inl CloseOfClosed
      else Inr (s1\<lparr>ts_ready := True, ts_once := True\<rparr>))"

text \<open>\<open>None\<close> while it waits; \<open>Some False\<close> is the context's error, possible whenever that is done.\<close>

definition tokenStore_wait :: "bool \<Rightarrow> tokenStore \<Rightarrow> bool option" where
  "tokenStore_wait ctx_done s = (if ts_ready s then Some True else if ctx_done then Some False else None)"

section \<open>Cycles\<close>

text \<open>
  A loop that waits for its timer, does something, and arms the timer again or returns (\<open>None\<close>): the
  delays it chose, the state it left and whether it returned.
\<close>

fun cycles :: "('w \<Rightarrow> 's \<Rightarrow> time option \<times> 's) \<Rightarrow> 'w list \<Rightarrow> 's \<Rightarrow> time list \<times> 's \<times> bool" where
  "cycles cyc [] s = ([], s, False)"
| "cycles cyc (w # ws) s =
     (case cyc w s of
        (None, s') \<Rightarrow> ([], s', True)
      | (Some d, s') \<Rightarrow> (case cycles cyc ws s' of (ds, s'', b) \<Rightarrow> (d # ds, s'', b)))"

text \<open>
  What Hasfy-App relies on: a device that it refuses asks no more, and a device never asks more often than
  the shortest delay allows.
\<close>

locale reporter =
  fixes cyc :: "'w \<Rightarrow> 's \<Rightarrow> time option \<times> 's"
    and refused :: "'w \<Rightarrow> 's \<Rightarrow> bool"
    and lo hi :: time
  assumes refused_stops: "refused w s \<Longrightarrow> fst (cyc w s) = None"
    and delay_bounds: "fst (cyc w s) = Some d \<Longrightarrow> lo \<le> d \<and> d \<le> hi"
begin

lemma pace: "int (length (fst (cycles cyc ws s))) * lo \<le> sum_list (fst (cycles cyc ws s)) \<and>
    sum_list (fst (cycles cyc ws s)) \<le> int (length (fst (cycles cyc ws s))) * hi"
proof (induction ws arbitrary: s)
  case (Cons w ws)
  obtain r s' where c: "cyc w s = (r, s')" by (cases "cyc w s")
  show ?case
  proof (cases r)
    case (Some d)
    with c have d: "lo \<le> d" "d \<le> hi" using delay_bounds [of w s d] by simp_all
    obtain ds s'' b where r: "cycles cyc ws s' = (ds, s'', b)" by (cases "cycles cyc ws s'")
    with Cons.IH [of s'] c Some d show ?thesis by (simp add: algebra_simps)
  qed (simp add: c)
qed simp

lemma silent_after_refusal:
  assumes "cycles cyc ws s = (ds, s', False)" "refused w s'"
  shows "\<exists>s''. \<forall>vs. cycles cyc (ws @ w # vs) s = (ds, s'', True)"
  using assms
proof (induction ws arbitrary: s ds)
  case Nil
  then show ?case using refused_stops [of w s] by (cases "cyc w s") auto
next
  case (Cons v ws)
  obtain r s1 where c: "cyc v s = (r, s1)" by (cases "cyc v s")
  with Cons.prems(1) obtain d ds1 where d: "r = Some d" "cycles cyc ws s1 = (ds1, s', False)" "ds = d # ds1"
    by (cases r; cases "cycles cyc ws s1") auto
  from Cons.IH [OF d(2) Cons.prems(2)] obtain s'' where "\<forall>vs. cycles cyc (ws @ w # vs) s1 = (ds1, s'', True)" by blast
  with c d show ?case by auto
qed

end

section \<open>The manager\<close>

definition tokenRetryInterval :: time where "tokenRetryInterval = 2 * minute"

definition tokenRenewMin :: time where "tokenRenewMin = 5 * minute"

definition tokenRenewMax :: time where "tokenRenewMax = 3 * hour"

definition renewDelay :: "time \<Rightarrow> time" where
  "renewDelay ttl =
     (let d = go_div ttl 2 in
      if d < tokenRenewMin then tokenRenewMin else if tokenRenewMax < d then tokenRenewMax else d)"

record enrollmentState =
  en_needed :: bool
  en_secret :: string
  en_envPath :: string

text \<open>The registration step: whether the loop is entered, and the environment file after it.\<close>

definition token_manager_start ::
  "enrollmentState \<Rightarrow> unit api_reply \<Rightarrow> fs_outcome list \<Rightarrow> dir \<Rightarrow> bool \<times> dir" where
  "token_manager_start en r outs d =
     (if \<not> en_needed en then (True, d)
      else if en_secret en = [] then (False, d)
      else (case registerPublicKey r of
              Some (DeviceRefused e) \<Rightarrow> (False, d)
            | Some (ApiError e) \<Rightarrow> (True, d)
            | None \<Rightarrow> (True, snd (removeEnvKey (en_envPath en) envDeviceEnrollmentToken outs d))))"

text \<open>One round: whether the context ended the wait, what signing and the server gave, and \<open>ctx.Err()\<close> after that.\<close>

record token_round =
  tr_done :: bool
  tr_signed :: "string + string"
  tr_reply :: "deviceTokenResponse api_reply"
  tr_ctx_err :: bool

definition token_cycle :: "token_round \<Rightarrow> tokenStore \<Rightarrow> time option \<times> tokenStore" where
  "token_cycle w s =
     (if tr_done w then (None, s)
      else (case acquireToken (tr_signed w) (tr_reply w) of
              Inl (DeviceRefused e) \<Rightarrow> (None, s)
            | Inl (ApiError e) \<Rightarrow> if tr_ctx_err w then (None, s) else (Some tokenRetryInterval, s)
            | Inr (token, ttl) \<Rightarrow>
                (case tokenStore_set token s of
                   Inl p \<Rightarrow> (None, s)
                 | Inr s' \<Rightarrow> (Some (renewDelay ttl), s'))))"

definition runTokenManager ::
  "enrollmentState \<Rightarrow> unit api_reply \<Rightarrow> fs_outcome list \<Rightarrow> dir \<Rightarrow> token_round list \<Rightarrow> tokenStore \<Rightarrow>
     time list \<times> tokenStore \<times> bool" where
  "runTokenManager en r outs d ws s =
     (if fst (token_manager_start en r outs d) then cycles token_cycle ws s else ([], s, True))"

section \<open>Properties\<close>

definition refuses :: "token_round \<Rightarrow> bool" where
  "refuses w \<longleftrightarrow> (case acquireToken (tr_signed w) (tr_reply w) of Inl (DeviceRefused e) \<Rightarrow> True | _ \<Rightarrow> False)"

definition granted :: "token_round \<Rightarrow> string option" where
  "granted w = (case acquireToken (tr_signed w) (tr_reply w) of Inr (token, ttl) \<Rightarrow> Some token | Inl e \<Rightarrow> None)"

definition store_ok :: "tokenStore \<Rightarrow> bool" where
  "store_ok s \<longleftrightarrow> ts_once s = ts_ready s"

lemma tokenStore_set_ok: "store_ok s \<Longrightarrow> tokenStore_set token s = Inr \<lparr>ts_token = token, ts_ready = True, ts_once = True\<rparr>"
  by (cases s) (auto simp: tokenStore_set_def store_ok_def Let_def)

lemma renewDelay_bounds: "tokenRenewMin \<le> renewDelay ttl \<and> renewDelay ttl \<le> tokenRenewMax"
  by (simp add: renewDelay_def Let_def tokenRenewMin_def tokenRenewMax_def)

interpretation tokens: reporter token_cycle "\<lambda>w s. refuses w" tokenRetryInterval tokenRenewMax
proof unfold_locales
  fix w s d
  assume "fst (token_cycle w s) = Some d"
  then consider "d = tokenRetryInterval" | ttl where "d = renewDelay ttl"
    by (auto simp: token_cycle_def split: if_splits sum.splits prod.splits api_error.splits)
  then show "tokenRetryInterval \<le> d \<and> d \<le> tokenRenewMax"
  proof cases
    case (2 ttl)
    then show ?thesis using renewDelay_bounds [of ttl] by (simp add: tokenRetryInterval_def tokenRenewMin_def)
  qed (simp add: tokenRetryInterval_def tokenRenewMax_def)
qed (auto simp: refuses_def token_cycle_def split: sum.splits api_error.splits)

text \<open>A round that goes on stores the token it was granted, and stores nothing otherwise.\<close>

lemma token_cycle_on:
  "token_cycle w s = (Some d, s') \<Longrightarrow> store_ok s \<Longrightarrow>
   store_ok s' \<and> (case granted w of None \<Rightarrow> s' = s | Some t \<Rightarrow> ts_token s' = t \<and> ts_ready s')"
  by (auto simp: token_cycle_def granted_def tokenStore_set_ok store_ok_def
      split: if_splits sum.splits prod.splits api_error.splits)

lemma token_cycle_off: "token_cycle w s = (None, s') \<Longrightarrow> store_ok s \<Longrightarrow> s' = s"
  by (auto simp: token_cycle_def tokenStore_set_ok split: if_splits sum.splits prod.splits api_error.splits)

definition granted_by :: "token_round list \<Rightarrow> string list" where
  "granted_by ws = List.map_filter granted ws"

lemma granted_by_simps [simp]:
  "granted_by [] = []"
  "granted_by (w # ws) = (case granted w of None \<Rightarrow> granted_by ws | Some t \<Rightarrow> t # granted_by ws)"
  by (simp_all add: granted_by_def map_filter_simps split: option.split)

lemma token_cycles_store:
  assumes "cycles token_cycle ws s = (ds, s', b)" "store_ok s"
  shows "store_ok s' \<and> ts_token s' = last (ts_token s # granted_by (take (length ds) ws)) \<and>
    (ts_ready s' \<longleftrightarrow> ts_ready s \<or> granted_by (take (length ds) ws) \<noteq> [])"
  using assms
proof (induction ws arbitrary: s ds)
  case (Cons w ws)
  obtain r s1 where c: "token_cycle w s = (r, s1)" by (cases "token_cycle w s")
  show ?case
  proof (cases r)
    case None
    with c Cons.prems show ?thesis by (auto dest: token_cycle_off)
  next
    case (Some d)
    obtain ds1 where r: "cycles token_cycle ws s1 = (ds1, s', b)" "ds = d # ds1"
      using Cons.prems(1) c Some by (auto split: prod.splits)
    from c Some token_cycle_on [of w s d s1] Cons.prems(2)
    have s1: "store_ok s1" "case granted w of None \<Rightarrow> s1 = s | Some t \<Rightarrow> ts_token s1 = t \<and> ts_ready s1"
      by simp_all
    from Cons.IH [OF r(1) s1(1)] s1(2) r(2) show ?thesis by (auto split: option.splits)
  qed
qed simp

text \<open>
  C25. Whatever the server answers and however often, the store holds the token granted last and the reconnect
  loop waits exactly until one has been granted; the channel it waits on is never closed twice. Between
  two requests lie at least two minutes and at most three hours, and a token that lives ten minutes or more
  is renewed when at most half of its life is over; one that lives less than five has expired by then.
\<close>

theorem token_manager_serves:
  assumes "cycles token_cycle ws newTokenStore = (ds, s, stopped)"
  shows "tokenStore_get s = last ([] # granted_by (take (length ds) ws)) \<and>
    (tokenStore_wait False s = Some True \<longleftrightarrow> granted_by (take (length ds) ws) \<noteq> []) \<and>
    tokenStore_set token s \<noteq> Inl CloseOfClosed \<and>
    int (length ds) * (2 * minute) \<le> sum_list ds \<and> sum_list ds \<le> int (length ds) * (3 * hour) \<and>
    (10 * minute \<le> ttl \<longrightarrow> 2 * renewDelay ttl \<le> ttl) \<and> (0 \<le> ttl \<and> ttl < 5 * minute \<longrightarrow> ttl < renewDelay ttl)"
proof -
  have new: "store_ok newTokenStore" "ts_token newTokenStore = []" "\<not> ts_ready newTokenStore"
    by (simp_all add: store_ok_def newTokenStore_def)
  note store = token_cycles_store [OF assms new(1)]
  have "tokenStore_get s = last ([] # granted_by (take (length ds) ws))"
    "tokenStore_wait False s = Some True \<longleftrightarrow> granted_by (take (length ds) ws) \<noteq> []"
    using store new(2,3) by (simp_all add: tokenStore_get_def tokenStore_wait_def)
  moreover have "tokenStore_set token s \<noteq> Inl CloseOfClosed"
    using store by (simp add: tokenStore_set_ok)
  moreover have "int (length ds) * (2 * minute) \<le> sum_list ds" "sum_list ds \<le> int (length ds) * (3 * hour)"
    using tokens.pace [of ws newTokenStore] by (simp_all add: assms tokenRetryInterval_def tokenRenewMax_def)
  moreover have "10 * minute \<le> ttl \<longrightarrow> 2 * renewDelay ttl \<le> ttl"
    "0 \<le> ttl \<and> ttl < 5 * minute \<longrightarrow> ttl < renewDelay ttl"
    by (auto simp: renewDelay_def tokenRenewMin_def tokenRenewMax_def Let_def)
  ultimately show ?thesis by blast
qed

definition demo_round :: "string \<Rightarrow> token_round" where
  "demo_round token =
     \<lparr>tr_done = False, tr_signed = Inr ''assertion'',
      tr_reply = Reply 200 (Some \<lparr>dt_Success = True, dt_AgentToken = token, dt_TTLSeconds = 3600\<rparr>), tr_ctx_err = False\<rparr>"

theorem token_manager_serves_witness:
  "tokenStore_get (fst (snd (cycles token_cycle [demo_round ''a'', demo_round ''b''] newTokenStore))) = ''b''"
proof -
  obtain ds s b where c: "cycles token_cycle [demo_round ''a'', demo_round ''b''] newTokenStore = (ds, s, b)"
    by (cases "cycles token_cycle [demo_round ''a'', demo_round ''b''] newTokenStore")
  then have "length ds = 2"
    by (auto simp: token_cycle_def demo_round_def acquireToken_def tokenStore_set_def newTokenStore_def Let_def)
  with token_manager_serves [OF c] show ?thesis
    unfolding c fst_conv snd_conv by (simp add: granted_def demo_round_def acquireToken_def)
qed

end
