(* ===== verification/Registry.thy ===== *)
theory Registry
  imports Proto "HOL-Library.Multiset"
begin

text \<open>
  \<open>internal/registry/registry.go\<close>. The handlers share \<open>*Agent\<close> pointers with the registry
  and keep them after a disconnect, so agents live in an explicit heap of addresses and the
  registry maps a device id to an address. \<open>a_outbound\<close> is the outbound channel (\<open>None\<close> before
  registration), \<open>a_cancel\<close> the state of the context its cancel func controls (\<open>None\<close> is a nil
  func). The end of the parent context is the handler's business and not part of this state.
  Each method holds the lock for its whole body, so it is one step.
\<close>

section \<open>State and operations\<close>

record Agent =
  a_DeviceID :: string
  a_OrgID :: string
  a_Hostname :: string
  a_OS :: string
  a_Arch :: string
  a_Version :: string
  a_JoinedAt :: time
  a_outbound :: "Frame chan option"
  a_cancel :: "bool option"

type_synonym addr = nat

record Registry =
  rg_byDev :: "(string, addr) gomap"
  rg_heap :: "addr \<Rightarrow> Agent option"

datatype reg_error = ErrNotFound

definition Registry_New :: "Registry" where
  "Registry_New = \<lparr>rg_byDev = [], rg_heap = (\<lambda>_. None)\<rparr>"

definition Agent_Send :: "Frame \<Rightarrow> Agent \<Rightarrow> panic + (bool \<times> Agent)" where
  "Agent_Send f a =
     (case a_outbound a of
        None \<Rightarrow> Inr (False, a)
      | Some c \<Rightarrow> and_then (try_send c f) (\<lambda>(b, c'). Inr (b, a\<lparr>a_outbound := Some c'\<rparr>)))"

definition cancel_agent :: "Agent \<Rightarrow> panic + Agent" where
  "cancel_agent a =
     (case a_cancel a of None \<Rightarrow> Inl NilDereference | Some _ \<Rightarrow> Inr (a\<lparr>a_cancel := Some True\<rparr>))"

definition close_outbound :: "Agent \<Rightarrow> panic + Agent" where
  "close_outbound a =
     (case a_outbound a of
        None \<Rightarrow> Inl CloseOfNil
      | Some c \<Rightarrow> and_then (close_chan c) (\<lambda>c'. Inr (a\<lparr>a_outbound := Some c'\<rparr>)))"

definition evict :: "Agent \<Rightarrow> panic + Agent" where
  "evict a = and_then (cancel_agent a) close_outbound"

definition deref :: "Registry \<Rightarrow> addr \<Rightarrow> panic + Agent" where
  "deref r p = (case rg_heap r p of None \<Rightarrow> Inl NilDereference | Some a \<Rightarrow> Inr a)"

definition store_agent :: "addr \<Rightarrow> Agent \<Rightarrow> Registry \<Rightarrow> Registry" where
  "store_agent p a r = r\<lparr>rg_heap := (rg_heap r)(p := Some a)\<rparr>"

definition on_agent :: "addr \<Rightarrow> (Agent \<Rightarrow> panic + Agent) \<Rightarrow> Registry \<Rightarrow> panic + Registry" where
  "on_agent p g r = and_then (deref r p) (\<lambda>a. and_then (g a) (\<lambda>a'. Inr (store_agent p a' r)))"

definition Registry_Register :: "time \<Rightarrow> nat \<Rightarrow> addr \<Rightarrow> Registry \<Rightarrow> panic + Registry" where
  "Registry_Register now bufSize p r =
     and_then (on_agent p (\<lambda>a. Inr (a\<lparr>a_cancel := Some False,
                                      a_outbound := Some (make_chan bufSize),
                                      a_JoinedAt := now\<rparr>)) r) (\<lambda>r1.
     and_then (deref r1 p) (\<lambda>a.
     and_then (case gm_get (rg_byDev r1) (a_DeviceID a) of
                 Some prev \<Rightarrow> on_agent prev evict r1
               | None \<Rightarrow> Inr r1) (\<lambda>r2.
     Inr (r2\<lparr>rg_byDev := gm_set (a_DeviceID a) p (rg_byDev r2)\<rparr>))))"

definition Registry_Unregister :: "addr \<Rightarrow> Registry \<Rightarrow> panic + Registry" where
  "Registry_Unregister p r =
     and_then (deref r p) (\<lambda>a.
       (case gm_get (rg_byDev r) (a_DeviceID a) of
          Some cur \<Rightarrow>
            if cur = p
            then on_agent p evict (r\<lparr>rg_byDev := gm_delete (a_DeviceID a) (rg_byDev r)\<rparr>)
            else Inr r
        | None \<Rightarrow> Inr r))"

definition Registry_Get :: "string \<Rightarrow> Registry \<Rightarrow> reg_error + addr" where
  "Registry_Get deviceID r =
     (case gm_get (rg_byDev r) deviceID of None \<Rightarrow> Inl ErrNotFound | Some a \<Rightarrow> Inr a)"

text \<open>
  \<open>range\<close> visits a Go map in an order the language leaves open: \<open>es\<close> is the order of this
  visit, a permutation of the entries.
\<close>

definition Registry_ListByOrg :: "(string \<times> addr) list \<Rightarrow> string \<Rightarrow> Registry \<Rightarrow> addr list" where
  "Registry_ListByOrg es orgID r =
     filter (\<lambda>p. (case rg_heap r p of Some a \<Rightarrow> a_OrgID a = orgID | None \<Rightarrow> False)) (map snd es)"

definition Registry_Count :: "Registry \<Rightarrow> nat" where
  "Registry_Count r = gm_len (rg_byDev r)"

text \<open>\<open>a.Send(f)\<close> through a pointer the caller holds.\<close>

definition send_to :: "addr \<Rightarrow> Frame \<Rightarrow> Registry \<Rightarrow> panic + (bool \<times> Registry)" where
  "send_to p f r =
     and_then (deref r p) (\<lambda>a. and_then (Agent_Send f a) (\<lambda>(b, a'). Inr (b, store_agent p a' r)))"

text \<open>One receive of the write pump from \<open>a.Outbound()\<close>.\<close>

definition outbound_recv :: "addr \<Rightarrow> Registry \<Rightarrow> panic + (Frame received \<times> Registry)" where
  "outbound_recv p r =
     and_then (deref r p) (\<lambda>a.
       (case a_outbound a of
          None \<Rightarrow> Inr (Empty, r)
        | Some c \<Rightarrow>
            (case try_recv c of (x, c') \<Rightarrow> Inr (x, store_agent p (a\<lparr>a_outbound := Some c'\<rparr>) r))))"

section \<open>Sending to an agent is a bounded queue\<close>

definition agent_offer :: "Agent \<Rightarrow> Frame \<Rightarrow> Agent" where
  "agent_offer a f = (case Agent_Send f a of Inr (b, a') \<Rightarrow> a' | Inl e \<Rightarrow> a)"

definition agent_queue :: "Agent \<Rightarrow> Frame list" where
  "agent_queue a = (case a_outbound a of Some c \<Rightarrow> ch_buf c | None \<Rightarrow> [])"

definition agent_limit :: "Agent \<Rightarrow> nat" where
  "agent_limit a = (case a_outbound a of Some c \<Rightarrow> ch_cap c | None \<Rightarrow> 0)"

definition agent_open :: "Agent \<Rightarrow> bool" where
  "agent_open a \<longleftrightarrow> (case a_outbound a of Some c \<Rightarrow> \<not> ch_closed c | None \<Rightarrow> True)"

interpretation agent_box: drop_queue agent_offer agent_queue agent_limit agent_open
  by unfold_locales
    (auto simp: agent_offer_def agent_queue_def agent_limit_def agent_open_def Agent_Send_def
      try_send_def split: option.splits)

section \<open>Life of an agent\<close>

definition agent_new :: "Agent \<Rightarrow> bool" where
  "agent_new a \<longleftrightarrow> a_outbound a = None \<and> a_cancel a = None"

definition agent_live :: "Agent \<Rightarrow> bool" where
  "agent_live a \<longleftrightarrow>
     a_cancel a = Some False \<and>
     (case a_outbound a of Some c \<Rightarrow> \<not> ch_closed c \<and> chan_wf c | None \<Rightarrow> False)"

definition agent_gone :: "Agent \<Rightarrow> bool" where
  "agent_gone a \<longleftrightarrow>
     a_cancel a = Some True \<and>
     (case a_outbound a of Some c \<Rightarrow> ch_closed c | None \<Rightarrow> False)"

lemmas agent_states = agent_new_def agent_live_def agent_gone_def

lemma agent_states_exclusive:
  "\<not> (agent_new a \<and> agent_live a)" "\<not> (agent_new a \<and> agent_gone a)" "\<not> (agent_live a \<and> agent_gone a)"
  by (auto simp: agent_states split: option.splits)

lemma evict_live: "agent_live a \<Longrightarrow> \<exists>a'. evict a = Inr a' \<and> agent_gone a' \<and> a_DeviceID a' = a_DeviceID a \<and> a_OrgID a' = a_OrgID a"
  by (cases "a_outbound a")
    (auto simp: evict_def cancel_agent_def close_outbound_def close_chan_def agent_states)

lemma Agent_Send_live:
  "agent_live a \<Longrightarrow>
   \<exists>b a'. Agent_Send f a = Inr (b, a') \<and> agent_live a' \<and>
     a_DeviceID a' = a_DeviceID a \<and> a_OrgID a' = a_OrgID a \<and> b = (length (agent_queue a) < agent_limit a)"
  by (cases "a_outbound a")
    (auto simp: Agent_Send_def agent_live_def try_send_def chan_wf_def agent_queue_def agent_limit_def)

lemma Agent_Send_gone: "agent_gone a \<Longrightarrow> Agent_Send f a = Inl SendOnClosed"
  by (auto simp: Agent_Send_def agent_gone_def try_send_def split: option.splits)

text \<open>
  The invariant: the registered agents are exactly the live ones. An agent object that is not
  registered has either never been, or it is gone: its context is cancelled and its channel closed.
\<close>

definition registry_inv :: "Registry \<Rightarrow> bool" where
  "registry_inv r \<longleftrightarrow>
     gm_wf (rg_byDev r) \<and>
     (\<forall>d p. gm_get (rg_byDev r) d = Some p \<longrightarrow>
        (\<exists>a. rg_heap r p = Some a \<and> a_DeviceID a = d \<and> agent_live a)) \<and>
     (\<forall>p a. rg_heap r p = Some a \<longrightarrow> gm_get (rg_byDev r) (a_DeviceID a) \<noteq> Some p \<longrightarrow>
        agent_new a \<or> agent_gone a)"

lemma registry_invI:
  assumes "gm_wf (rg_byDev r)"
    and "\<And>d p. gm_get (rg_byDev r) d = Some p \<Longrightarrow> \<exists>a. rg_heap r p = Some a \<and> a_DeviceID a = d \<and> agent_live a"
    and "\<And>p a. rg_heap r p = Some a \<Longrightarrow> gm_get (rg_byDev r) (a_DeviceID a) \<noteq> Some p \<Longrightarrow> agent_new a \<or> agent_gone a"
  shows "registry_inv r"
  using assms unfolding registry_inv_def by blast

lemma registry_inv_wf: "registry_inv r \<Longrightarrow> gm_wf (rg_byDev r)"
  by (simp add: registry_inv_def)

lemma registry_inv_registered:
  "registry_inv r \<Longrightarrow> gm_get (rg_byDev r) d = Some p \<Longrightarrow>
   \<exists>a. rg_heap r p = Some a \<and> a_DeviceID a = d \<and> agent_live a"
  by (auto simp: registry_inv_def)

lemma registry_inv_unregistered:
  "registry_inv r \<Longrightarrow> rg_heap r p = Some a \<Longrightarrow> gm_get (rg_byDev r) (a_DeviceID a) \<noteq> Some p \<Longrightarrow>
   agent_new a \<or> agent_gone a"
  by (auto simp: registry_inv_def)

lemma registry_inv_New: "registry_inv Registry_New"
  by (simp add: registry_inv_def Registry_New_def)

text \<open>
  A step that leaves the map alone and takes an agent to a state of the same kind keeps the
  invariant: sends, receives and allocations are of this form.
\<close>

lemma registry_inv_store:
  assumes inv: "registry_inv r" and old: "rg_heap r p = Some a"
    and same: "a_DeviceID a' = a_DeviceID a"
    and live: "agent_live a \<Longrightarrow> agent_live a'"
    and new: "agent_new a \<Longrightarrow> agent_new a'"
    and gone: "agent_gone a \<Longrightarrow> agent_gone a'"
  shows "registry_inv (store_agent p a' r)"
proof (rule registry_invI)
  show "gm_wf (rg_byDev (store_agent p a' r))"
    using inv by (simp add: store_agent_def registry_inv_wf)
next
  fix d q
  assume "gm_get (rg_byDev (store_agent p a' r)) d = Some q"
  then obtain b where "rg_heap r q = Some b" "a_DeviceID b = d" "agent_live b"
    using registry_inv_registered [OF inv] by (auto simp: store_agent_def)
  then show "\<exists>a. rg_heap (store_agent p a' r) q = Some a \<and> a_DeviceID a = d \<and> agent_live a"
    using old same live by (auto simp: store_agent_def)
next
  fix q b
  assume "rg_heap (store_agent p a' r) q = Some b"
    and "gm_get (rg_byDev (store_agent p a' r)) (a_DeviceID b) \<noteq> Some q"
  then show "agent_new b \<or> agent_gone b"
    using registry_inv_unregistered [OF inv] old same new gone
    by (auto simp: store_agent_def split: if_splits)
qed

lemma registry_inv_alloc:
  assumes inv: "registry_inv r" and "rg_heap r p = None" and "agent_new a"
  shows "registry_inv (store_agent p a r)"
proof (rule registry_invI)
  show "gm_wf (rg_byDev (store_agent p a r))"
    using inv by (simp add: store_agent_def registry_inv_wf)
next
  fix d q
  assume "gm_get (rg_byDev (store_agent p a r)) d = Some q"
  then show "\<exists>b. rg_heap (store_agent p a r) q = Some b \<and> a_DeviceID b = d \<and> agent_live b"
    using registry_inv_registered [OF inv, of d q] assms(2) by (auto simp: store_agent_def)
next
  fix q b
  assume "rg_heap (store_agent p a r) q = Some b"
    and "gm_get (rg_byDev (store_agent p a r)) (a_DeviceID b) \<noteq> Some q"
  then show "agent_new b \<or> agent_gone b"
    using registry_inv_unregistered [OF inv] assms(3)
    by (auto simp: store_agent_def split: if_splits)
qed

text \<open>
  The two ways the map itself changes: an agent leaves it and is gone, an unregistered agent
  enters it under a free device id and is live. Eviction is the one and then the other.
\<close>

lemma registry_inv_drop:
  assumes inv: "registry_inv r" and p: "rg_heap r p = Some a"
    and cur: "gm_get (rg_byDev r) (a_DeviceID a) = Some p"
    and a': "agent_gone a'" "a_DeviceID a' = a_DeviceID a"
  shows "registry_inv (store_agent p a' (r\<lparr>rg_byDev := gm_delete (a_DeviceID a) (rg_byDev r)\<rparr>))"
    (is "registry_inv ?r'")
proof (rule registry_invI)
  show "gm_wf (rg_byDev ?r')"
    by (simp add: store_agent_def gm_wf_delete registry_inv_wf [OF inv])
next
  fix d q
  assume q: "gm_get (rg_byDev ?r') d = Some q"
  then have "d \<noteq> a_DeviceID a" and old: "gm_get (rg_byDev r) d = Some q"
    by (auto simp: store_agent_def split: if_splits)
  moreover obtain b where "rg_heap r q = Some b" "a_DeviceID b = d" "agent_live b"
    using registry_inv_registered [OF inv old] by blast
  ultimately show "\<exists>b. rg_heap ?r' q = Some b \<and> a_DeviceID b = d \<and> agent_live b"
    using p by (auto simp: store_agent_def)
next
  fix q b
  assume q: "rg_heap ?r' q = Some b" "gm_get (rg_byDev ?r') (a_DeviceID b) \<noteq> Some q"
  show "agent_new b \<or> agent_gone b"
  proof (cases "q = p")
    case True
    then show ?thesis using q a' by (simp add: store_agent_def)
  next
    case False
    then show ?thesis
      using q cur registry_inv_unregistered [OF inv, of q b]
      by (auto simp: store_agent_def split: if_splits)
  qed
qed

lemma registry_inv_add:
  assumes inv: "registry_inv r" and p: "rg_heap r p = Some a" and new: "agent_new a"
    and free: "gm_get (rg_byDev r) (a_DeviceID a) = None"
    and a': "agent_live a'" "a_DeviceID a' = a_DeviceID a"
  shows "registry_inv ((store_agent p a' r)\<lparr>rg_byDev := gm_set (a_DeviceID a) p (rg_byDev r)\<rparr>)"
    (is "registry_inv ?r'")
proof (rule registry_invI)
  show "gm_wf (rg_byDev ?r')"
    by (simp add: store_agent_def gm_wf_set registry_inv_wf [OF inv])
next
  fix d q
  assume q: "gm_get (rg_byDev ?r') d = Some q"
  show "\<exists>b. rg_heap ?r' q = Some b \<and> a_DeviceID b = d \<and> agent_live b"
  proof (cases "d = a_DeviceID a")
    case True
    then show ?thesis using q a' by (simp add: store_agent_def)
  next
    case False
    then have old: "gm_get (rg_byDev r) d = Some q" using q by (simp add: store_agent_def)
    obtain b where "rg_heap r q = Some b" "a_DeviceID b = d" "agent_live b"
      using registry_inv_registered [OF inv old] by blast
    then show ?thesis using False p by (auto simp: store_agent_def)
  qed
next
  fix q b
  assume q: "rg_heap ?r' q = Some b" "gm_get (rg_byDev ?r') (a_DeviceID b) \<noteq> Some q"
  then have "q \<noteq> p" "rg_heap r q = Some b" using a' by (auto simp: store_agent_def split: if_splits)
  then show "agent_new b \<or> agent_gone b"
    using q free registry_inv_unregistered [OF inv, of q b]
    by (auto simp: store_agent_def split: if_splits)
qed

lemma registry_inv_same_map:
  assumes "registry_inv r" and "gm_wf m" and "\<And>d. gm_get m d = gm_get (rg_byDev r) d"
    and "rg_heap r' = rg_heap r" and "rg_byDev r' = m"
  shows "registry_inv r'"
  using assms by (simp add: registry_inv_def)

section \<open>What the operations return\<close>

definition registered_agent :: "time \<Rightarrow> nat \<Rightarrow> Agent \<Rightarrow> Agent" where
  "registered_agent now bufSize a =
     a\<lparr>a_cancel := Some False, a_outbound := Some (make_chan bufSize), a_JoinedAt := now\<rparr>"

lemma registered_agent_live [simp]: "agent_live (registered_agent now n a)"
  by (simp add: registered_agent_def agent_live_def)

lemma registered_agent_fields [simp]:
  "a_DeviceID (registered_agent now n a) = a_DeviceID a"
  "a_OrgID (registered_agent now n a) = a_OrgID a"
  "a_JoinedAt (registered_agent now n a) = now"
  "agent_queue (registered_agent now n a) = []"
  "agent_limit (registered_agent now n a) = n"
  by (simp_all add: registered_agent_def agent_queue_def agent_limit_def)

text \<open>
  \<open>Register\<close> never panics under the invariant, whatever was registered before: the previous
  holder of the device id, if any, is live, so its cancel func and its channel are in order.
\<close>

lemma Register_fresh [go_results]:
  assumes "rg_heap r p = Some a" and "gm_get (rg_byDev r) (a_DeviceID a) = None"
  shows "Registry_Register now n p r =
    Inr ((store_agent p (registered_agent now n a) r)
           \<lparr>rg_byDev := gm_set (a_DeviceID a) p (rg_byDev r)\<rparr>)"
  using assms
  by (simp add: Registry_Register_def on_agent_def deref_def store_agent_def registered_agent_def)

lemma Register_evicts [go_results]:
  assumes "rg_heap r p = Some a" and "gm_get (rg_byDev r) (a_DeviceID a) = Some q"
    and "q \<noteq> p" and "rg_heap r q = Some b" and "evict b = Inr b'"
  shows "Registry_Register now n p r =
    Inr ((store_agent q b' (store_agent p (registered_agent now n a) r))
           \<lparr>rg_byDev := gm_set (a_DeviceID a) p (rg_byDev r)\<rparr>)"
  using assms
  by (simp add: Registry_Register_def on_agent_def deref_def store_agent_def registered_agent_def)

lemma Unregister_current [go_results]:
  assumes "rg_heap r p = Some a" and "gm_get (rg_byDev r) (a_DeviceID a) = Some p" and "evict a = Inr a'"
  shows "Registry_Unregister p r =
    Inr (store_agent p a' (r\<lparr>rg_byDev := gm_delete (a_DeviceID a) (rg_byDev r)\<rparr>))"
  using assms by (simp add: Registry_Unregister_def on_agent_def deref_def store_agent_def)

lemma Unregister_stale [go_results]:
  assumes "rg_heap r p = Some a" and "gm_get (rg_byDev r) (a_DeviceID a) \<noteq> Some p"
  shows "Registry_Unregister p r = Inr r"
  using assms by (auto simp: Registry_Unregister_def deref_def split: option.splits)

text \<open>The two shapes of a successful registration, with what the invariant says of them.\<close>

lemma Register_cases:
  assumes inv: "registry_inv r" and p: "rg_heap r p = Some a" and new: "agent_new a"
  obtains (fresh)
      "gm_get (rg_byDev r) (a_DeviceID a) = None"
      "Registry_Register now n p r =
         Inr ((store_agent p (registered_agent now n a) r)
                \<lparr>rg_byDev := gm_set (a_DeviceID a) p (rg_byDev r)\<rparr>)"
    | (evicts) q b b' where
      "gm_get (rg_byDev r) (a_DeviceID a) = Some q" "q \<noteq> p" "rg_heap r q = Some b"
      "a_DeviceID b = a_DeviceID a" "agent_gone b'" "a_DeviceID b' = a_DeviceID b"
      "Registry_Register now n p r =
         Inr ((store_agent q b' (store_agent p (registered_agent now n a) r))
                \<lparr>rg_byDev := gm_set (a_DeviceID a) p (rg_byDev r)\<rparr>)"
proof (cases "gm_get (rg_byDev r) (a_DeviceID a)")
  case None
  then show ?thesis using Register_fresh [OF p None] fresh by blast
next
  case (Some q)
  obtain b where b: "rg_heap r q = Some b" "a_DeviceID b = a_DeviceID a" "agent_live b"
    using registry_inv_registered [OF inv Some] by blast
  have "q \<noteq> p" using b p new agent_states_exclusive by auto
  moreover obtain b' where "evict b = Inr b'" "agent_gone b'" "a_DeviceID b' = a_DeviceID b"
    using evict_live [OF b(3)] by blast
  ultimately show ?thesis
    using evicts [OF Some _ b(1,2)] Register_evicts [OF p Some _ b(1)] by blast
qed

lemma Register_inv [wf_intros]:
  assumes inv: "registry_inv r" and p: "rg_heap r p = Some a" and new: "agent_new a"
    and ret: "Registry_Register now n p r = Inr r'"
  shows "registry_inv r'"
  using inv p new
proof (cases rule: Register_cases [where now = now and n = n])
  case fresh
  then show ?thesis
    using ret registry_inv_add [OF inv p new fresh(1), of "registered_agent now n a"] by simp
next
  case (evicts q b b')
  let ?d = "a_DeviceID a"
  let ?r1 = "store_agent q b' (r\<lparr>rg_byDev := gm_delete ?d (rg_byDev r)\<rparr>)"
  let ?r2 = "(store_agent p (registered_agent now n a) ?r1)\<lparr>rg_byDev := gm_set ?d p (rg_byDev ?r1)\<rparr>"
  have "registry_inv ?r1"
    using registry_inv_drop [OF inv evicts(3)] evicts(1,4,5,6) by simp
  then have "registry_inv ?r2"
    by (rule registry_inv_add) (simp_all add: store_agent_def p new evicts(2) [symmetric])
  then show ?thesis
    by (rule registry_inv_same_map [where m = "gm_set ?d p (rg_byDev r)"])
      (use ret evicts in \<open>auto simp: store_agent_def gm_wf_set registry_inv_wf [OF inv] fun_upd_twist\<close>)
qed

lemma Unregister_inv [wf_intros]:
  assumes inv: "registry_inv r" and ret: "Registry_Unregister p r = Inr r'"
  shows "registry_inv r'"
proof (cases "rg_heap r p")
  case None
  then show ?thesis using ret by (simp add: Registry_Unregister_def deref_def)
next
  case (Some a)
  show ?thesis
  proof (cases "gm_get (rg_byDev r) (a_DeviceID a) = Some p")
    case False
    then show ?thesis using Unregister_stale [OF Some False] ret inv by simp
  next
    case True
    then have "agent_live a" using registry_inv_registered [OF inv True] Some by auto
    then obtain a' where a': "evict a = Inr a'" "agent_gone a'" "a_DeviceID a' = a_DeviceID a"
      using evict_live by blast
    then have r': "r' = store_agent p a' (r\<lparr>rg_byDev := gm_delete (a_DeviceID a) (rg_byDev r)\<rparr>)"
      using Unregister_current [OF Some True] ret by simp
    then show ?thesis using registry_inv_drop [OF inv Some True a'(2,3)] by simp
  qed
qed

lemma Unregister_ok: "registry_inv r \<Longrightarrow> rg_heap r p = Some a \<Longrightarrow> ok (Registry_Unregister p r)"
proof (cases "gm_get (rg_byDev r) (a_DeviceID a) = Some p")
  case True
  assume "registry_inv r" "rg_heap r p = Some a"
  with True show ?thesis
    using registry_inv_registered [of r "a_DeviceID a" p] evict_live [of a] Unregister_current [of r p a]
    by fastforce
qed (simp add: Unregister_stale)

lemma send_to_inv [wf_intros]:
  assumes inv: "registry_inv r" and ret: "send_to p f r = Inr (b, r')"
  shows "registry_inv r'"
proof -
  from ret obtain a a' where a: "rg_heap r p = Some a" "Agent_Send f a = Inr (b, a')"
      and r': "r' = store_agent p a' r"
    by (auto simp: send_to_def deref_def and_then_Inr split: option.splits)
  have "a_DeviceID a' = a_DeviceID a" "agent_live a \<Longrightarrow> agent_live a'"
      "agent_new a \<Longrightarrow> agent_new a'" "agent_gone a \<Longrightarrow> agent_gone a'"
    using a(2) by (auto simp: Agent_Send_def try_send_def agent_states chan_wf_def split: option.splits if_splits)
  then show ?thesis unfolding r' using registry_inv_store [OF inv a(1)] by blast
qed

lemma outbound_recv_inv [wf_intros]:
  assumes inv: "registry_inv r" and ret: "outbound_recv p r = Inr (x, r')"
  shows "registry_inv r'"
proof -
  from ret obtain a where a: "rg_heap r p = Some a"
    by (auto simp: outbound_recv_def deref_def and_then_Inr split: option.splits)
  show ?thesis
  proof (cases "a_outbound a")
    case None
    then show ?thesis using ret a inv by (simp add: outbound_recv_def deref_def)
  next
    case (Some c)
    define a' where "a' = a\<lparr>a_outbound := Some (snd (try_recv c))\<rparr>"
    have r': "r' = store_agent p a' r"
      using ret a Some by (auto simp: outbound_recv_def deref_def a'_def split: prod.splits)
    have "agent_live a \<Longrightarrow> agent_live a'" "agent_new a \<Longrightarrow> agent_new a'" "agent_gone a \<Longrightarrow> agent_gone a'"
      using Some by (auto simp: a'_def agent_states try_recv_def chan_wf_def split: list.splits)
    then show ?thesis
      unfolding r' using registry_inv_store [OF inv a, of a'] by (simp add: a'_def)
  qed
qed

section \<open>Every interleaving of handlers\<close>

text \<open>
  The handlers of \<open>agent_ws.go\<close> allocate an agent, register it once, send to it and receive
  from it, and unregister it (again, after an eviction). Their calls interleave in any order.
\<close>

inductive registry_step :: "Registry \<Rightarrow> Registry \<Rightarrow> bool" where
  alloc: "rg_heap r p = None \<Longrightarrow> agent_new a \<Longrightarrow> registry_step r (store_agent p a r)"
| register: "rg_heap r p = Some a \<Longrightarrow> agent_new a \<Longrightarrow> Registry_Register now n p r = Inr r' \<Longrightarrow>
    registry_step r r'"
| unregister: "Registry_Unregister p r = Inr r' \<Longrightarrow> registry_step r r'"
| send: "send_to p f r = Inr (b, r') \<Longrightarrow> registry_step r r'"
| recv: "outbound_recv p r = Inr (x, r') \<Longrightarrow> registry_step r r'"

inductive registry_reachable :: "Registry \<Rightarrow> bool" where
  init: "registry_reachable Registry_New"
| step: "registry_reachable r \<Longrightarrow> registry_step r r' \<Longrightarrow> registry_reachable r'"

inductive_cases registry_stepE: "registry_step r r'"

lemma registry_step_inv: "registry_step r r' \<Longrightarrow> registry_inv r \<Longrightarrow> registry_inv r'"
  by (induction rule: registry_step.induct) (blast intro: wf_intros registry_inv_alloc)+

lemma registry_reachable_inv: "registry_reachable r \<Longrightarrow> registry_inv r"
  by (induction rule: registry_reachable.induct) (auto intro: registry_inv_New registry_step_inv)

lemmas reachable_registered = registry_inv_registered [OF registry_reachable_inv]
lemmas reachable_unregistered = registry_inv_unregistered [OF registry_reachable_inv]

lemma send_to_gone: "rg_heap r p = Some a \<Longrightarrow> agent_gone a \<Longrightarrow> send_to p f r = Inl SendOnClosed"
  by (simp add: send_to_def deref_def Agent_Send_gone)

lemma send_to_live: "rg_heap r p = Some a \<Longrightarrow> agent_live a \<Longrightarrow> ok (send_to p f r)"
  using Agent_Send_live [of a f] by (auto simp: send_to_def deref_def)

lemma send_to_new: "rg_heap r p = Some a \<Longrightarrow> agent_new a \<Longrightarrow> ok (send_to p f r)"
  by (simp add: send_to_def deref_def Agent_Send_def agent_new_def)

text \<open>A run used by the witnesses: device \<open>d1\<close> connects at address 0, then again at address 1.\<close>

definition new_agent :: "string \<Rightarrow> string \<Rightarrow> Agent" where
  "new_agent dev org =
     \<lparr>a_DeviceID = dev, a_OrgID = org, a_Hostname = ''h'', a_OS = ''linux'', a_Arch = ''amd64'',
      a_Version = ''v1'', a_JoinedAt = 0, a_outbound = None, a_cancel = None\<rparr>"

lemma new_agent_simps [simp]:
  "agent_new (new_agent dev org)" "a_DeviceID (new_agent dev org) = dev" "a_OrgID (new_agent dev org) = org"
  by (simp_all add: new_agent_def agent_new_def)

definition demo_connected :: Registry where
  "demo_connected =
     (store_agent 0 (registered_agent 5 2 (new_agent ''d1'' ''o1'')) Registry_New)
       \<lparr>rg_byDev := [(''d1'', 0)]\<rparr>"

definition demo_two :: Registry where
  "demo_two = store_agent 1 (new_agent ''d1'' ''o1'') demo_connected"

lemma demo_connected_reachable: "registry_reachable demo_connected"
proof -
  let ?r = "store_agent 0 (new_agent ''d1'' ''o1'') Registry_New"
  have "registry_reachable ?r"
    by (rule registry_reachable.step [OF registry_reachable.init])
      (rule registry_step.alloc, simp_all add: Registry_New_def)
  moreover have "Registry_Register 5 2 0 ?r = Inr demo_connected"
    by (subst Register_fresh [where a = "new_agent ''d1'' ''o1''"])
      (simp_all add: store_agent_def Registry_New_def gm_set_def demo_connected_def)
  moreover have "rg_heap ?r 0 = Some (new_agent ''d1'' ''o1'')"
    by (simp add: store_agent_def)
  ultimately show ?thesis
    by (meson registry_reachable.step registry_step.register new_agent_simps(1))
qed

lemma demo_two_reachable: "registry_reachable demo_two"
  unfolding demo_two_def
  by (rule registry_reachable.step [OF demo_connected_reachable])
    (rule registry_step.alloc, simp_all add: demo_connected_def store_agent_def Registry_New_def)

lemma demo_two_heap [simp]:
  "rg_heap demo_two 0 = Some (registered_agent 5 2 (new_agent ''d1'' ''o1''))"
  "rg_heap demo_two 1 = Some (new_agent ''d1'' ''o1'')"
  "gm_get (rg_byDev demo_two) d = (if d = ''d1'' then Some 0 else None)"
  by (simp_all add: demo_two_def demo_connected_def store_agent_def gm_get_def)

text \<open>
  In whatever order the map is ranged over, \<open>ListByOrg\<close> returns exactly the online agents of the
  organisation, each of them once.
\<close>

lemma ListByOrg_spec:
  assumes "registry_reachable r" and "mset es = mset (rg_byDev r)"
  shows "distinct (Registry_ListByOrg es orgID r) \<and>
    (p \<in> set (Registry_ListByOrg es orgID r) \<longleftrightarrow>
      (\<exists>d a. Registry_Get d r = Inr p \<and> rg_heap r p = Some a \<and> a_OrgID a = orgID))"
proof -
  have inv: "registry_inv r" by (rule registry_reachable_inv [OF assms(1)])
  have es: "set es = set (rg_byDev r)" using assms(2) by (metis set_mset_mset)
  have wf: "distinct (map fst es)"
    using assms(2) registry_inv_wf [OF inv]
    by (metis gm_wf_def mset_eq_imp_distinct_iff mset_map)
  have mem: "(d, q) \<in> set es \<longleftrightarrow> gm_get (rg_byDev r) d = Some q" for d q
    using gm_get_mem [OF registry_inv_wf [OF inv]] es by simp
  have dev: "a_DeviceID a = d" if "(d, q) \<in> set es" "rg_heap r q = Some a" for d q a
    using registry_inv_registered [OF inv] that mem by fastforce
  have "inj_on snd (set es)"
  proof (rule inj_onI)
    fix x y
    assume xy: "x \<in> set es" "y \<in> set es" "snd x = snd y"
    obtain a where "rg_heap r (snd x) = Some a"
      using registry_inv_registered [OF inv] mem xy(1) by (cases x) fastforce
    with xy show "x = y" using dev by (metis prod.collapse)
  qed
  then have "distinct (map snd es)"
    using wf by (simp add: distinct_map)
  moreover have "p \<in> set (map snd es) \<longleftrightarrow> (\<exists>d. gm_get (rg_byDev r) d = Some p)"
    using mem by force
  moreover have "Registry_Get d r = Inr p \<longleftrightarrow> gm_get (rg_byDev r) d = Some p" for d
    by (simp add: Registry_Get_def split: option.split)
  ultimately show ?thesis
    by (auto simp: Registry_ListByOrg_def split: option.splits)
qed

definition online :: "Registry \<Rightarrow> string \<rightharpoonup> addr" where
  "online r = gm_get (rg_byDev r)"

section \<open>Properties\<close>

text \<open>
  C11. However connects, disconnects, sends and receives interleave, \<open>Unregister\<close> of any agent
  object and \<open>Register\<close> of a new one never panic: no channel is closed twice, no nil channel is
  closed, and a handler that disconnects after it was evicted is safe.
\<close>

theorem registry_never_panics:
  assumes "registry_reachable r" and "rg_heap r p = Some a"
  shows "ok (Registry_Unregister p r) \<and> (agent_new a \<longrightarrow> ok (Registry_Register now n p r))"
proof -
  have inv: "registry_inv r" by (rule registry_reachable_inv [OF assms(1)])
  have "ok (Registry_Register now n p r)" if "agent_new a"
    using inv assms(2) that
    by (cases rule: Register_cases [where now = now and n = n]) simp_all
  then show ?thesis using Unregister_ok [OF inv assms(2)] by blast
qed

theorem registry_never_panics_witness:
  "ok (Registry_Unregister 0 demo_two) \<and> ok (Registry_Register 7 2 1 demo_two)"
  using registry_never_panics [OF demo_two_reachable demo_two_heap(1), of 7 2]
    registry_never_panics [OF demo_two_reachable demo_two_heap(2), of 7 2]
  by simp

text \<open>
  A device that connects again replaces its previous connection: lookups give the new agent,
  the evicted one is cancelled and its channel closed, the evicted handler's late \<open>Unregister\<close>
  changes nothing, and no other device is touched.
\<close>

lemma reconnect_evicts:
  assumes "registry_reachable r" and "rg_heap r p = Some a" and "agent_new a"
    and "gm_get (rg_byDev r) (a_DeviceID a) = Some q"
    and "Registry_Register now n p r = Inr r'"
  shows "Registry_Get (a_DeviceID a) r' = Inr p \<and>
    (\<exists>b. rg_heap r' q = Some b \<and> agent_gone b) \<and>
    Registry_Unregister q r' = Inr r' \<and>
    (\<forall>d. d \<noteq> a_DeviceID a \<longrightarrow> Registry_Get d r' = Registry_Get d r)"
  using registry_reachable_inv [OF assms(1)] assms(2,3)
proof (cases rule: Register_cases [where now = now and n = n])
  case fresh
  then show ?thesis using assms(4) by simp
next
  case (evicts q' b b')
  then have r': "r' = (store_agent q b' (store_agent p (registered_agent now n a) r))
      \<lparr>rg_byDev := gm_set (a_DeviceID a) p (rg_byDev r)\<rparr>" and q: "q' = q"
    using assms(4,5) by auto
  have "Registry_Unregister q r' = Inr r'"
    by (rule Unregister_stale [where a = b'])
      (use evicts q in \<open>auto simp: r' store_agent_def\<close>)
  then show ?thesis
    using evicts(5) by (auto simp: r' Registry_Get_def store_agent_def)
qed

lemma reconnect_evicts_witness:
  "\<exists>r'. Registry_Register 7 2 1 demo_two = Inr r' \<and> Registry_Get ''d1'' r' = Inr 1 \<and>
    Registry_Unregister 0 r' = Inr r'"
proof -
  obtain r' where r': "Registry_Register 7 2 1 demo_two = Inr r'"
    using Register_cases [OF registry_reachable_inv [OF demo_two_reachable] demo_two_heap(2)
        new_agent_simps(1)] by metis
  then show ?thesis
    using reconnect_evicts [OF demo_two_reachable demo_two_heap(2) _ _ r', of 0] by simp
qed

text \<open>
  \<open>Send\<close> does not fail softly once its agent is gone: it panics exactly when the agent was
  registered and no longer is. The comments on \<open>Send\<close> ("returns false if the agent is gone") and
  on \<open>Unregister\<close> ("concurrent Send fails fast") promise a false.
\<close>

lemma send_panics_iff_gone:
  assumes "registry_reachable r" and "rg_heap r p = Some a"
  shows "send_to p f r = Inl SendOnClosed \<longleftrightarrow>
    \<not> agent_new a \<and> gm_get (rg_byDev r) (a_DeviceID a) \<noteq> Some p"
proof (cases "gm_get (rg_byDev r) (a_DeviceID a) = Some p")
  case True
  then have "agent_live a" using reachable_registered [OF assms(1) True] assms(2) by auto
  then show ?thesis using True send_to_live [OF assms(2)] by (metis ok_simps(1))
next
  case False
  then show ?thesis
    using reachable_unregistered [OF assms False] send_to_gone [OF assms(2)] send_to_new [OF assms(2)]
      agent_states_exclusive(2) by (metis ok_simps(1))
qed

lemma send_panics_iff_gone_witness:
  "\<exists>r. Registry_Unregister 0 demo_two = Inr r \<and>
     send_to 0 (frame TypeCancel ''s'' []) r = Inl SendOnClosed"
proof -
  obtain a where a: "evict (registered_agent 5 2 (new_agent ''d1'' ''o1'')) = Inr a" "agent_gone a"
      "a_DeviceID a = ''d1''"
    using evict_live [OF registered_agent_live, of 5 2 "new_agent ''d1'' ''o1''"] by auto
  let ?r = "store_agent 0 a (demo_two\<lparr>rg_byDev := gm_delete ''d1'' (rg_byDev demo_two)\<rparr>)"
  have r: "Registry_Unregister 0 demo_two = Inr ?r"
    using Unregister_current [OF demo_two_heap(1) _ a(1)] by simp
  have reach: "registry_reachable ?r"
    by (rule registry_reachable.step [OF demo_two_reachable registry_step.unregister [OF r]])
  have "rg_heap ?r 0 = Some a" "gm_get (rg_byDev ?r) (a_DeviceID a) \<noteq> Some 0"
    using a(3) by (simp_all add: store_agent_def)
  then show ?thesis
    using r a(2) send_panics_iff_gone [OF reach, of 0 a "frame TypeCancel ''s'' []"]
      agent_states_exclusive(2) by blast
qed

text \<open>
  C12. The registry implements a plain finite map from device ids to agents: seen through
  \<open>Registry_Get\<close>, \<open>Register\<close> is a map update and \<open>Unregister\<close> removes the device only when the
  agent is still the current one.
\<close>

theorem registry_refines_map:
  assumes "registry_reachable r" and "rg_heap r p = Some a"
  shows "(agent_new a \<longrightarrow>
      (\<exists>r'. Registry_Register now n p r = Inr r' \<and> online r' = (online r)(a_DeviceID a \<mapsto> p))) \<and>
    (\<exists>r'. Registry_Unregister p r = Inr r' \<and>
      online r' = (if online r (a_DeviceID a) = Some p then (online r)(a_DeviceID a := None) else online r))"
proof -
  have inv: "registry_inv r" by (rule registry_reachable_inv [OF assms(1)])
  have "\<exists>r'. Registry_Register now n p r = Inr r' \<and> online r' = (online r)(a_DeviceID a \<mapsto> p)"
    if "agent_new a"
    using inv assms(2) that
    by (cases rule: Register_cases [where now = now and n = n])
      (auto simp: online_def store_agent_def fun_eq_iff)
  moreover have "\<exists>r'. Registry_Unregister p r = Inr r' \<and>
      online r' = (if online r (a_DeviceID a) = Some p then (online r)(a_DeviceID a := None) else online r)"
  proof (cases "online r (a_DeviceID a) = Some p")
    case True
    then have cur: "gm_get (rg_byDev r) (a_DeviceID a) = Some p" by (simp add: online_def)
    then have "agent_live a" using reachable_registered [OF assms(1) cur] assms(2) by auto
    then obtain a' where "evict a = Inr a'" using evict_live by blast
    then show ?thesis
      using Unregister_current [OF assms(2) cur] True
      by (simp add: online_def store_agent_def fun_eq_iff)
  next
    case False
    then show ?thesis using Unregister_stale [OF assms(2)] by (simp add: online_def)
  qed
  ultimately show ?thesis by blast
qed

theorem registry_refines_map_witness:
  "\<exists>r'. Registry_Register 7 2 1 demo_two = Inr r' \<and> online r' = [''d1'' \<mapsto> 1]"
  using registry_refines_map [OF demo_two_reachable demo_two_heap(2), of 7 2]
  by (auto simp: online_def fun_eq_iff)

end
