(* ===== verification/Sha256.thy ===== *)
theory Sha256
  imports Encoding
begin

text \<open>
  Packages \<open>crypto/sha256\<close> and \<open>crypto/hmac\<close> as the relay uses them: the digest of a byte string
  (FIPS 180-4) and the keyed digest (RFC 2104). They authenticate Hasfy-App's calls, sign the
  forwarded audit trail and bind a session token to a browser.
\<close>

section \<open>SHA-256\<close>

type_synonym u32 = "32 word"

text \<open>
  The standard's constants are the first 32 bits of the fractional parts of the cube roots of the
  first 64 primes and of the square roots of the first 8. They are computed bit by bit: \<open>x\<close> is the
  root so far and \<open>r\<close> the remainder; each step appends a bit.
\<close>

fun cube_root_bits :: "nat \<Rightarrow> int \<Rightarrow> int \<Rightarrow> int" where
  "cube_root_bits 0 x r = x"
| "cube_root_bits (Suc n) x r =
     (let t = 12 * x * x + 6 * x + 1 in
      if t \<le> 8 * r then cube_root_bits n (2 * x + 1) (8 * r - t) else cube_root_bits n (2 * x) (8 * r))"

fun square_root_bits :: "nat \<Rightarrow> int \<Rightarrow> int \<Rightarrow> int" where
  "square_root_bits 0 x r = x"
| "square_root_bits (Suc n) x r =
     (let t = 4 * x + 1 in
      if t \<le> 4 * r then square_root_bits n (2 * x + 1) (4 * r - t) else square_root_bits n (2 * x) (4 * r))"

lemma cube_root_bits_floor:
  "x ^ 3 + r = p \<Longrightarrow> 0 \<le> r \<Longrightarrow> p < (x + 1) ^ 3 \<Longrightarrow>
   cube_root_bits n x r ^ 3 \<le> p * 8 ^ n \<and> p * 8 ^ n < (cube_root_bits n x r + 1) ^ 3"
proof (induction n x r arbitrary: p rule: cube_root_bits.induct)
  case (2 n x r)
  let ?t = "12 * x * x + 6 * x + 1"
  show ?case
  proof (cases "?t \<le> 8 * r")
    case True
    have "(2 * x + 1) ^ 3 + (8 * r - ?t) = 8 * p" "8 * p < (2 * x + 1 + 1) ^ 3"
      using 2(3,5) by (simp_all add: power3_eq_cube algebra_simps)
    from 2(1) [OF refl True this(1) _ this(2)] True show ?thesis by (simp add: Let_def algebra_simps)
  next
    case False
    have "(2 * x) ^ 3 + 8 * r = 8 * p" "8 * p < (2 * x + 1) ^ 3"
      using 2(3) False by (simp_all add: power3_eq_cube algebra_simps)
    from 2(2) [OF refl False this(1) _ this(2)] False 2(4) show ?thesis by (simp add: Let_def algebra_simps)
  qed
qed simp

definition small_primes :: "int list" where
  "small_primes = filter (\<lambda>n. list_all (\<lambda>d. d = n \<or> n mod d \<noteq> 0) [2, 3, 5, 7, 11, 13, 17]) [2..311]"

definition cube_root_fraction :: "int \<Rightarrow> u32" where
  "cube_root_fraction p =
     (let x = (if p < 8 then 1 else if p < 27 then 2 else if p < 64 then 3 else if p < 125 then 4
               else if p < 216 then 5 else 6)
      in word_of_int (cube_root_bits 32 x (p - x * x * x)))"

definition square_root_fraction :: "int \<Rightarrow> u32" where
  "square_root_fraction p =
     (let x = (if p < 4 then 1 else if p < 9 then 2 else if p < 16 then 3 else 4)
      in word_of_int (square_root_bits 32 x (p - x * x)))"

definition round_keys :: "u32 list" where
  "round_keys = map cube_root_fraction small_primes"

record hash_state =
  hs_a :: u32
  hs_b :: u32
  hs_c :: u32
  hs_d :: u32
  hs_e :: u32
  hs_f :: u32
  hs_g :: u32
  hs_h :: u32

definition initial_hash :: hash_state where
  "initial_hash =
     \<lparr>hs_a = square_root_fraction 2, hs_b = square_root_fraction 3, hs_c = square_root_fraction 5,
      hs_d = square_root_fraction 7, hs_e = square_root_fraction 11, hs_f = square_root_fraction 13,
      hs_g = square_root_fraction 17, hs_h = square_root_fraction 19\<rparr>"

unbundle bit_operations_syntax

definition small0 :: "u32 \<Rightarrow> u32" where
  "small0 x = word_rotr 7 x XOR word_rotr 18 x XOR drop_bit 3 x"

definition small1 :: "u32 \<Rightarrow> u32" where
  "small1 x = word_rotr 17 x XOR word_rotr 19 x XOR drop_bit 10 x"

definition big0 :: "u32 \<Rightarrow> u32" where
  "big0 x = word_rotr 2 x XOR word_rotr 13 x XOR word_rotr 22 x"

definition big1 :: "u32 \<Rightarrow> u32" where
  "big1 x = word_rotr 6 x XOR word_rotr 11 x XOR word_rotr 25 x"

text \<open>The message schedule, newest word first.\<close>

fun extend :: "nat \<Rightarrow> u32 list \<Rightarrow> u32 list" where
  "extend 0 w = w"
| "extend (Suc n) w = extend n ((small1 (w ! 1) + w ! 6 + small0 (w ! 14) + w ! 15) # w)"

definition schedule :: "u32 list \<Rightarrow> u32 list" where
  "schedule block = rev (extend 48 (rev block))"

definition hash_round :: "hash_state \<Rightarrow> u32 \<times> u32 \<Rightarrow> hash_state" where
  "hash_round s kw =
     (let ch = (hs_e s AND hs_f s) XOR (NOT (hs_e s) AND hs_g s);
          maj = (hs_a s AND hs_b s) XOR (hs_a s AND hs_c s) XOR (hs_b s AND hs_c s);
          t1 = hs_h s + big1 (hs_e s) + ch + fst kw + snd kw;
          t2 = big0 (hs_a s) + maj
      in \<lparr>hs_a = t1 + t2, hs_b = hs_a s, hs_c = hs_b s, hs_d = hs_c s,
          hs_e = hs_d s + t1, hs_f = hs_e s, hs_g = hs_f s, hs_h = hs_g s\<rparr>)"

definition compress :: "hash_state \<Rightarrow> u32 list \<Rightarrow> hash_state" where
  "compress s block =
     (let t = foldl hash_round s (zip round_keys (schedule block))
      in \<lparr>hs_a = hs_a s + hs_a t, hs_b = hs_b s + hs_b t, hs_c = hs_c s + hs_c t, hs_d = hs_d s + hs_d t,
          hs_e = hs_e s + hs_e t, hs_f = hs_f s + hs_f t, hs_g = hs_g s + hs_g t, hs_h = hs_h s + hs_h t\<rparr>)"

definition be32 :: "u32 \<Rightarrow> string" where
  "be32 w =
     [char_of (uint w div 16777216), char_of (uint w div 65536), char_of (uint w div 256), char_of (uint w)]"

fun words_of :: "string \<Rightarrow> u32 list" where
  "words_of (a # b # c # d # s) =
     word_of_int (of_char a * 16777216 + of_char b * 65536 + of_char c * 256 + of_char d) # words_of s"
| "words_of _ = []"

definition padding :: "nat \<Rightarrow> string" where
  "padding n =
     char_of (128 :: int) # replicate ((119 - n mod 64) mod 64) (char_of (0 :: int)) @
     be32 (word_of_int (8 * int n div 2 ^ 32)) @ be32 (word_of_int (8 * int n))"

function blocks :: "u32 list \<Rightarrow> u32 list list" where
  "blocks w = (if w = [] then [] else take 16 w # blocks (drop 16 w))"
  by pat_completeness auto
termination
  by (relation "measure length") auto

declare blocks.simps [simp del]

lemma blocks_code [code]: "blocks w = (case w of [] \<Rightarrow> [] | _ \<Rightarrow> take 16 w # blocks (drop 16 w))"
  by (subst blocks.simps) (auto split: list.splits)

definition sha256 :: "string \<Rightarrow> string" where
  "sha256 s =
     (let h = foldl compress initial_hash (blocks (words_of (s @ padding (length s))))
      in be32 (hs_a h) @ be32 (hs_b h) @ be32 (hs_c h) @ be32 (hs_d h) @
         be32 (hs_e h) @ be32 (hs_f h) @ be32 (hs_g h) @ be32 (hs_h h))"

lemma length_be32 [simp]: "length (be32 w) = 4"
  by (simp add: be32_def)

lemma length_sha256 [simp]: "length (sha256 s) = 32"
  by (simp add: sha256_def Let_def)

section \<open>HMAC\<close>

definition hmac_pad :: "int \<Rightarrow> string \<Rightarrow> string" where
  "hmac_pad n key = map (\<lambda>c. char_of (of_char c XOR n)) key"

definition hmac_sha256 :: "string \<Rightarrow> string \<Rightarrow> string" where
  "hmac_sha256 key msg =
     (let k = (if 64 < length key then sha256 key else key);
          k = k @ replicate (64 - length k) (char_of (0 :: int))
      in sha256 (hmac_pad 92 k @ sha256 (hmac_pad 54 k @ msg)))"

lemma length_hmac [simp]: "length (hmac_sha256 key msg) = 32"
  by (simp add: hmac_sha256_def Let_def)

text \<open>\<open>hex.EncodeToString\<close> of the digest: 64 lower-case digits.\<close>

definition hash_hex :: "string \<Rightarrow> string" where
  "hash_hex s = hex_encode (sha256 s)"

lemma length_hash_hex [simp]: "length (hash_hex s) = 64"
  by (simp add: hash_hex_def)

text \<open>A test vector of FIPS 180-4, evaluated by the kernel.\<close>

lemma sha256_abc:
  "hash_hex ''abc'' = ''ba7816bf8f01cfea414140de5dae2223b00361a396177a9cb410ff61f20015ad''"
  by code_simp

end
