(* ===== verification/Auth.thy ===== *)
theory Auth
  imports Sha256 Containers
begin

text \<open>
  \<open>internal/auth/auth.go\<close>: the verifier of agent bearer tokens and of operator session tokens, and
  the minting of session tokens. The JWT library (golang-jwt) is not part of the repository: its
  parser and its signer are the parameters \<open>parse\<close> and \<open>sign\<close>. A call of the parser is given the
  time, the code's key function (an algorithm name to a key, \<open>None\<close> for an error), the accepted
  methods and the token, and returns the claims when the token is valid. The hypotheses on it,
  \<open>jwt_sound\<close> and \<open>jwt_accepts\<close>, are its documented behaviour.
\<close>

section \<open>Claims\<close>

record RegisteredClaims =
  rc_Subject :: string
  rc_IssuedAt :: "time option"
  rc_NotBefore :: "time option"
  rc_ExpiresAt :: "time option"
  rc_ID :: string

record AgentClaims =
  ac_DeviceID :: string
  ac_OrgID :: string
  ac_Registered :: RegisteredClaims

record SessionClaims =
  sc_OrgID :: string
  sc_DeviceID :: string
  sc_SessionID :: string
  sc_IPHash :: string
  sc_UAHash :: string
  sc_Registered :: RegisteredClaims

datatype auth_error = ErrUnauthorized

type_synonym keyfunc = "string \<Rightarrow> bytes option"
type_synonym 'c jwt_parse = "time \<Rightarrow> keyfunc \<Rightarrow> string list \<Rightarrow> string \<Rightarrow> 'c option"
type_synonym 'c jwt_sign = "string \<Rightarrow> 'c \<Rightarrow> bytes \<Rightarrow> string option"

section \<open>The verifier\<close>

record Verifier =
  v_agentSecret :: bytes
  v_sessionSecret :: bytes

definition NewVerifier :: "bytes \<Rightarrow> bytes \<Rightarrow> string + Verifier" where
  "NewVerifier agentSecret sessionSecret =
     (if length agentSecret < 32 \<or> length sessionSecret < 32
      then Inl ''auth secrets must be at least 32 bytes''
      else Inr \<lparr>v_agentSecret = agentSecret, v_sessionSecret = sessionSecret\<rparr>)"

text \<open>The key function both verifiers hand to the parser, with their own secret.\<close>

definition hs256_key :: "bytes \<Rightarrow> keyfunc" where
  "hs256_key secret alg = (if alg \<noteq> ''HS256'' then None else Some secret)"

definition VerifyAgent :: "AgentClaims jwt_parse \<Rightarrow> time \<Rightarrow> Verifier \<Rightarrow> string \<Rightarrow> auth_error + AgentClaims" where
  "VerifyAgent parse now v token =
     (case parse now (hs256_key (v_agentSecret v)) [''HS256''] token of
        None \<Rightarrow> Inl ErrUnauthorized
      | Some c \<Rightarrow>
          if ac_DeviceID c = [] \<or> ac_OrgID c = [] then Inl ErrUnauthorized else Inr c)"

definition hashEq :: "string \<Rightarrow> string \<Rightarrow> bool" where
  "hashEq expectedHex raw = (expectedHex = hash_hex raw)"

definition VerifySession ::
  "SessionClaims jwt_parse \<Rightarrow> time \<Rightarrow> Verifier \<Rightarrow> string \<Rightarrow> string \<Rightarrow> string \<Rightarrow> auth_error + SessionClaims" where
  "VerifySession parse now v token ip ua =
     (case parse now (hs256_key (v_sessionSecret v)) [''HS256''] token of
        None \<Rightarrow> Inl ErrUnauthorized
      | Some c \<Rightarrow>
          if sc_SessionID c = [] \<or> sc_DeviceID c = [] \<or> sc_OrgID c = [] then Inl ErrUnauthorized
          else if \<not> hashEq (sc_UAHash c) ua then Inl ErrUnauthorized
          else Inr c)"

text \<open>\<open>date\<close> is the library's \<open>NewNumericDate\<close>, which truncates a time to its precision.\<close>

definition session_claims ::
  "(time \<Rightarrow> time) \<Rightarrow> time \<Rightarrow> string \<Rightarrow> string \<Rightarrow> string \<Rightarrow> string \<Rightarrow> string \<Rightarrow> string \<Rightarrow> SessionClaims" where
  "session_claims date now orgID deviceID sessionID sub ip ua =
     \<lparr>sc_OrgID = orgID, sc_DeviceID = deviceID, sc_SessionID = sessionID,
      sc_IPHash = hash_hex ip, sc_UAHash = hash_hex ua,
      sc_Registered =
        \<lparr>rc_Subject = sub, rc_IssuedAt = Some (date now), rc_NotBefore = Some (date (now - 30 * second)),
         rc_ExpiresAt = Some (date (now + 5 * minute)), rc_ID = sessionID\<rparr>\<rparr>"

definition IssueSession ::
  "SessionClaims jwt_sign \<Rightarrow> (time \<Rightarrow> time) \<Rightarrow> time \<Rightarrow> Verifier \<Rightarrow> string \<Rightarrow> string \<Rightarrow> string \<Rightarrow> string \<Rightarrow> string \<Rightarrow> string \<Rightarrow>
   string option" where
  "IssueSession sign date now v orgID deviceID sessionID sub ip ua =
     sign ''HS256'' (session_claims date now orgID deviceID sessionID sub ip ua) (v_sessionSecret v)"

section \<open>What the code relies on in the JWT library\<close>

text \<open>
  A token is accepted only under an algorithm of the list for which the key function gave a key,
  and when the signature verifies under that key: \<open>verifies alg key c token\<close> says that \<open>token\<close>
  carries the claims \<open>c\<close> with a valid signature.
\<close>

definition jwt_sound :: "(string \<Rightarrow> bytes \<Rightarrow> 'c \<Rightarrow> string \<Rightarrow> bool) \<Rightarrow> 'c jwt_parse \<Rightarrow> bool" where
  "jwt_sound verifies parse \<longleftrightarrow>
     (\<forall>now kf methods token c. parse now kf methods token = Some c \<longrightarrow>
        (\<exists>alg key. alg \<in> set methods \<and> kf alg = Some key \<and> verifies alg key c token))"

text \<open>
  A token the signer made is accepted while its times allow, and gives its claims back. The
  accepted window is closed at \<open>NotBefore\<close> and open at \<open>ExpiresAt\<close>.
\<close>

definition jwt_accepts :: "SessionClaims jwt_sign \<Rightarrow> SessionClaims jwt_parse \<Rightarrow> SessionClaims \<Rightarrow> bool" where
  "jwt_accepts sign parse c \<longleftrightarrow>
     (\<forall>now kf alg key token nbf exp.
        sign alg c key = Some token \<longrightarrow> kf alg = Some key \<longrightarrow>
        rc_NotBefore (sc_Registered c) = Some nbf \<longrightarrow> rc_ExpiresAt (sc_Registered c) = Some exp \<longrightarrow>
        nbf \<le> now \<longrightarrow> now < exp \<longrightarrow> parse now kf [alg] token = Some c)"

definition jwt_expires :: "SessionClaims jwt_parse \<Rightarrow> bool" where
  "jwt_expires parse \<longleftrightarrow>
     (\<forall>now kf methods token c exp.
        parse now kf methods token = Some c \<longrightarrow>
        rc_ExpiresAt (sc_Registered c) = Some exp \<longrightarrow> now < exp)"

text \<open>Times in claims are truncated to at most a second earlier.\<close>

definition numeric_date :: "(time \<Rightarrow> time) \<Rightarrow> bool" where
  "numeric_date date \<longleftrightarrow> (\<forall>t. date t \<le> t \<and> t - second < date t)"

lemma numeric_date_id [simp]: "numeric_date id"
  by (simp add: numeric_date_def)

section \<open>Properties\<close>

lemma VerifyAgent_Inr [go_results]:
  "VerifyAgent parse now v token = Inr c \<longleftrightarrow>
     parse now (hs256_key (v_agentSecret v)) [''HS256''] token = Some c \<and>
     ac_DeviceID c \<noteq> [] \<and> ac_OrgID c \<noteq> []"
  by (auto simp: VerifyAgent_def split: option.splits if_splits)

lemma VerifySession_Inr [go_results]:
  "VerifySession parse now v token ip ua = Inr c \<longleftrightarrow>
     parse now (hs256_key (v_sessionSecret v)) [''HS256''] token = Some c \<and>
     sc_SessionID c \<noteq> [] \<and> sc_DeviceID c \<noteq> [] \<and> sc_OrgID c \<noteq> [] \<and> sc_UAHash c = hash_hex ua"
  by (auto simp: VerifySession_def hashEq_def split: option.splits if_splits)

lemma minted_parse:
  assumes "jwt_accepts sign parse claims" "numeric_date date"
    and "claims = session_claims date now orgID deviceID sessionID sub ip ua"
    and "IssueSession sign date now v orgID deviceID sessionID sub ip ua = Some token"
    and "now - 30 * second \<le> now'" "now' \<le> now + 299 * second"
  shows "parse now' (hs256_key (v_sessionSecret v)) [''HS256''] token = Some claims"
proof -
  have "date (now - 30 * second) \<le> now'" using assms(2,5) by (auto simp: numeric_date_def dest: order_trans)
  moreover have "now' < date (now + 5 * minute)"
    using assms(2,6) by (auto simp: numeric_date_def elim!: allE [of _ "now + 5 * minute"])
  ultimately show ?thesis
    using assms(1,3,4) by (simp add: jwt_accepts_def IssueSession_def hs256_key_def session_claims_def)
qed

lemma jwt_soundD:
  "jwt_sound verifies parse \<Longrightarrow> parse now (hs256_key secret) methods token = Some c \<Longrightarrow>
   ''HS256'' \<in> set methods \<and> verifies ''HS256'' secret c token"
  by (fastforce simp: jwt_sound_def hs256_key_def split: if_splits)

text \<open>
  A bearer token is accepted only if it is signed with HS256 under the agent secret, whatever
  algorithm its header names, and only with a device and an organisation. In particular a token
  minted for an operator is accepted only if it would verify under the agent secret too.
\<close>

lemma agent_token_sound:
  assumes "jwt_sound verifies parse" and "VerifyAgent parse now v token = Inr c"
  shows "verifies ''HS256'' (v_agentSecret v) c token \<and> ac_DeviceID c \<noteq> [] \<and> ac_OrgID c \<noteq> []"
  using assms jwt_soundD by (fastforce simp: VerifyAgent_Inr)

text \<open>
  For the witnesses, a library that knows a single token: the parser checks the key function, the
  method list and the token, and for a session the times.
\<close>

definition demo_verifier :: Verifier where
  "demo_verifier = \<lparr>v_agentSecret = replicate 32 CHR ''a'', v_sessionSecret = replicate 32 CHR ''s''\<rparr>"

definition demo_agent_claims :: AgentClaims where
  "demo_agent_claims =
     \<lparr>ac_DeviceID = ''d1'', ac_OrgID = ''o1'',
      ac_Registered = \<lparr>rc_Subject = [], rc_IssuedAt = None, rc_NotBefore = None, rc_ExpiresAt = None, rc_ID = []\<rparr>\<rparr>"

definition demo_agent_signed :: "string \<Rightarrow> bytes \<Rightarrow> AgentClaims \<Rightarrow> string \<Rightarrow> bool" where
  "demo_agent_signed alg key c token \<longleftrightarrow>
     alg = ''HS256'' \<and> key = v_agentSecret demo_verifier \<and> c = demo_agent_claims \<and> token = ''agent-token''"

definition demo_agent_parse :: "AgentClaims jwt_parse" where
  "demo_agent_parse now kf methods token =
     (if ''HS256'' \<in> set methods \<and> kf ''HS256'' = Some (v_agentSecret demo_verifier) \<and> token = ''agent-token''
      then Some demo_agent_claims else None)"

lemma demo_agent_sound: "jwt_sound demo_agent_signed demo_agent_parse"
  by (auto simp: jwt_sound_def demo_agent_parse_def demo_agent_signed_def split: if_splits)

lemma demo_agent_verifies: "VerifyAgent demo_agent_parse 0 demo_verifier ''agent-token'' = Inr demo_agent_claims"
  by (simp add: VerifyAgent_def demo_agent_parse_def hs256_key_def demo_agent_claims_def)

lemma agent_token_sound_witness:
  "demo_agent_signed ''HS256'' (v_agentSecret demo_verifier) demo_agent_claims ''agent-token''"
  using agent_token_sound [OF demo_agent_sound demo_agent_verifies] by blast

definition demo_claims :: SessionClaims where
  "demo_claims = session_claims id 0 ''o1'' ''d1'' ''s1'' ''u1'' ''10.0.0.1'' ''Firefox''"

definition demo_sign :: "SessionClaims jwt_sign" where
  "demo_sign alg c key =
     (if c = demo_claims \<and> key = v_sessionSecret demo_verifier \<and> alg = ''HS256'' then Some ''session-token'' else None)"

definition demo_parse :: "SessionClaims jwt_parse" where
  "demo_parse now kf methods token =
     (if ''HS256'' \<in> set methods \<and> kf ''HS256'' = Some (v_sessionSecret demo_verifier) \<and> token = ''session-token''
         \<and> - 30 * second \<le> now \<and> now < 5 * minute
      then Some demo_claims else None)"

lemma demo_accepts: "jwt_accepts demo_sign demo_parse demo_claims"
  by (auto simp: jwt_accepts_def demo_sign_def demo_parse_def demo_claims_def session_claims_def
      split: if_splits)

lemma demo_expires: "jwt_expires demo_parse"
  by (auto simp: jwt_expires_def demo_parse_def demo_claims_def session_claims_def split: if_splits)

text \<open>
  A session token the relay mints is accepted from the browser it was minted for, from 30
  seconds before until a second before five minutes after the mint, whatever address the browser connects from (the
  recorded address is never compared), and only with a User-Agent of the same digest.
\<close>

lemma session_token_roundtrip:
  assumes "jwt_accepts sign parse claims" and "numeric_date date"
    and "claims = session_claims date now orgID deviceID sessionID sub ip ua"
    and "IssueSession sign date now v orgID deviceID sessionID sub ip ua = Some token"
    and "orgID \<noteq> []" "deviceID \<noteq> []" "sessionID \<noteq> []"
    and "now - 30 * second \<le> now'" "now' \<le> now + 299 * second"
  shows "VerifySession parse now' v token ip' ua' =
    (if hash_hex ua' = hash_hex ua then Inr claims else Inl ErrUnauthorized)"
  using minted_parse [OF assms(1-4,8,9)] assms(3,5-7)
  by (auto simp: VerifySession_def hashEq_def session_claims_def)

lemma session_token_roundtrip_witness:
  "VerifySession demo_parse minute demo_verifier ''session-token'' ''203.0.113.9'' ''Firefox'' = Inr demo_claims"
proof -
  have "IssueSession demo_sign id 0 demo_verifier ''o1'' ''d1'' ''s1'' ''u1'' ''10.0.0.1'' ''Firefox'' = Some ''session-token''"
    by (simp add: IssueSession_def demo_sign_def demo_claims_def)
  from session_token_roundtrip [OF demo_accepts numeric_date_id demo_claims_def this, of minute "''203.0.113.9''" "''Firefox''"]
  show ?thesis by simp
qed

end
