(* ===== verification/Router.thy ===== *)
theory Router
  imports Registry Auth
begin

text \<open>
  The console session table of \<open>internal/server/operator_ws.go\<close> (lines 28-102): active sessions,
  the router from session ids to them, and \<open>routeAgentResponse\<close>. A handler keeps its
  \<open>*activeSession\<close> after it has left the table, so sessions live in a heap. \<open>as_closed\<close> says that
  the channel \<open>closed\<close> is closed; \<open>closeOnce\<close> makes closing it idempotent. The
  session of a service call (\<open>exec_api.go\<close>) has no claims.
\<close>

section \<open>State and operations\<close>

record activeSession =
  as_claims :: "SessionClaims option"
  as_toBrowser :: "Frame chan"
  as_closed :: bool

definition new_session :: "SessionClaims option \<Rightarrow> activeSession" where
  "new_session claims = \<lparr>as_claims = claims, as_toBrowser = make_chan 64, as_closed = False\<rparr>"

definition activeSession_close :: "activeSession \<Rightarrow> activeSession" where
  "activeSession_close s = s\<lparr>as_closed := True\<rparr>"

record router =
  rt_sessions :: "(string, addr) gomap"
  rt_heap :: "addr \<Rightarrow> activeSession option"

definition newRouter :: router where
  "newRouter = \<lparr>rt_sessions = [], rt_heap = (\<lambda>_. None)\<rparr>"

definition router_attach :: "string \<Rightarrow> addr \<Rightarrow> router \<Rightarrow> bool \<times> router" where
  "router_attach sid sess r =
     (case gm_get (rt_sessions r) sid of
        Some _ \<Rightarrow> (False, r)
      | None \<Rightarrow> (True, r\<lparr>rt_sessions := gm_set sid sess (rt_sessions r)\<rparr>))"

definition on_session :: "addr \<Rightarrow> (activeSession \<Rightarrow> activeSession) \<Rightarrow> router \<Rightarrow> router" where
  "on_session p g r = r\<lparr>rt_heap := (rt_heap r)(p := map_option g (rt_heap r p))\<rparr>"

definition router_detach :: "string \<Rightarrow> router \<Rightarrow> router" where
  "router_detach sid r =
     (case gm_get (rt_sessions r) sid of
        Some sess \<Rightarrow> on_session sess activeSession_close (r\<lparr>rt_sessions := gm_delete sid (rt_sessions r)\<rparr>)
      | None \<Rightarrow> r)"

definition router_get :: "router \<Rightarrow> string \<Rightarrow> addr option" where
  "router_get r sid = gm_get (rt_sessions r) sid"

definition routeAgentResponse :: "Frame \<Rightarrow> router \<Rightarrow> panic + router" where
  "routeAgentResponse f r =
     (if f_SessionID f = [] then Inr r
      else (case router_get r (f_SessionID f) of
              None \<Rightarrow> Inr r
            | Some p \<Rightarrow>
                (case rt_heap r p of
                   None \<Rightarrow> Inl NilDereference
                 | Some s \<Rightarrow>
                     and_then (try_send (as_toBrowser s) f) (\<lambda>(sent, c).
                       if sent then Inr (on_session p (\<lambda>s. s\<lparr>as_toBrowser := c\<rparr>) r)
                       else Inr (on_session p activeSession_close r)))))"

text \<open>The connection of an operator: a fresh session, offered to the table.\<close>

definition router_connect :: "string \<Rightarrow> addr \<Rightarrow> SessionClaims option \<Rightarrow> router \<Rightarrow> bool \<times> router" where
  "router_connect sid p claims r =
     router_attach sid p (r\<lparr>rt_heap := (rt_heap r)(p := Some (new_session claims))\<rparr>)"

text \<open>One receive of a handler from its own \<open>toBrowser\<close>.\<close>

definition session_recv :: "addr \<Rightarrow> router \<Rightarrow> Frame received \<times> router" where
  "session_recv p r =
     (case rt_heap r p of
        None \<Rightarrow> (Empty, r)
      | Some s \<Rightarrow> (case try_recv (as_toBrowser s) of
                     (x, c) \<Rightarrow> (x, on_session p (\<lambda>s. s\<lparr>as_toBrowser := c\<rparr>) r)))"

section \<open>The table has one session per id\<close>

interpretation sessions: exclusive_table router_get router_attach router_detach "\<lambda>_. True"
  by unfold_locales
    (auto simp: router_get_def router_attach_def router_detach_def on_session_def
      split: option.splits if_splits)

section \<open>Invariant\<close>

definition session_ok :: "activeSession \<Rightarrow> bool" where
  "session_ok s \<longleftrightarrow>
     \<not> ch_closed (as_toBrowser s) \<and> ch_cap (as_toBrowser s) = 64 \<and> chan_wf (as_toBrowser s)"

definition router_inv :: "router \<Rightarrow> bool" where
  "router_inv r \<longleftrightarrow>
     gm_wf (rt_sessions r) \<and>
     (\<forall>p s. rt_heap r p = Some s \<longrightarrow> session_ok s) \<and>
     (\<forall>sid p. router_get r sid = Some p \<longrightarrow> rt_heap r p \<noteq> None) \<and>
     (\<forall>sid sid' p. router_get r sid = Some p \<longrightarrow> router_get r sid' = Some p \<longrightarrow> sid = sid')"

lemma session_ok_new [simp]: "session_ok (new_session c)"
  by (simp add: session_ok_def new_session_def)

lemma session_ok_close [simp]: "session_ok (activeSession_close s) = session_ok s"
  by (simp add: session_ok_def activeSession_close_def)

lemma session_ok_send:
  "session_ok s \<Longrightarrow> try_send (as_toBrowser s) f = Inr (b, c) \<Longrightarrow> session_ok (s\<lparr>as_toBrowser := c\<rparr>)"
  by (auto simp: session_ok_def try_send_Inr chan_wf_def split: if_splits)

lemma session_ok_recv:
  "session_ok s \<Longrightarrow> try_recv (as_toBrowser s) = (x, c) \<Longrightarrow> session_ok (s\<lparr>as_toBrowser := c\<rparr>)"
  by (auto simp: session_ok_def try_recv_def chan_wf_def split: list.splits)

lemma router_inv_New: "router_inv newRouter"
  by (simp add: router_inv_def newRouter_def router_get_def)

lemma router_inv_on_session [wf_intros]:
  assumes "router_inv r" "\<And>s. rt_heap r p = Some s \<Longrightarrow> session_ok (g s)"
  shows "router_inv (on_session p g r)"
  using assms by (auto simp: router_inv_def on_session_def router_get_def)

lemma router_inv_detach [wf_intros]: "router_inv r \<Longrightarrow> router_inv (router_detach sid r)"
  by (auto simp: router_inv_def router_detach_def on_session_def router_get_def wf_intros split: option.splits)

lemma router_inv_connect [wf_intros]:
  "router_inv r \<Longrightarrow> rt_heap r p = None \<Longrightarrow> router_inv (snd (router_connect sid p c r))"
  by (fastforce simp: router_inv_def router_connect_def router_attach_def router_get_def wf_intros split: option.splits)

lemma routeAgentResponse_ok:
  assumes "router_inv r"
  shows "\<exists>r'. routeAgentResponse f r = Inr r' \<and> router_inv r'"
proof (cases "f_SessionID f = [] \<or> router_get r (f_SessionID f) = None")
  case True
  then show ?thesis using assms by (auto simp: routeAgentResponse_def)
next
  case False
  then obtain p s where p: "router_get r (f_SessionID f) = Some p" "rt_heap r p = Some s" "session_ok s"
    using assms by (fastforce simp: router_inv_def)
  then obtain b c where b: "try_send (as_toBrowser s) f = Inr (b, c)"
    by (cases "try_send (as_toBrowser s) f") (auto simp: try_send_Inl session_ok_def)
  with p False session_ok_send [OF p(3) b] assms show ?thesis
    by (auto simp: routeAgentResponse_def intro!: wf_intros)
qed

inductive router_step :: "router \<Rightarrow> router \<Rightarrow> bool" where
  connect: "rt_heap r p = None \<Longrightarrow> router_step r (snd (router_connect sid p c r))"
| detach: "router_step r (router_detach sid r)"
| route: "routeAgentResponse f r = Inr r' \<Longrightarrow> router_step r r'"
| recv: "router_step r (snd (session_recv p r))"

inductive router_reachable :: "router \<Rightarrow> bool" where
  start: "router_reachable newRouter"
| step: "router_reachable r \<Longrightarrow> router_step r r' \<Longrightarrow> router_reachable r'"

lemma router_step_inv: "router_step r r' \<Longrightarrow> router_inv r \<Longrightarrow> router_inv r'"
proof (induction rule: router_step.induct)
  case (route f r r')
  then show ?case using routeAgentResponse_ok [of r f] by auto
next
  case (recv r p)
  show ?case
  proof (cases "rt_heap r p")
    case None
    then show ?thesis using recv by (simp add: session_recv_def)
  next
    case (Some s)
    obtain x c where "try_recv (as_toBrowser s) = (x, c)" by fastforce
    moreover have "session_ok s" using Some recv by (simp add: router_inv_def)
    ultimately show ?thesis
      using Some recv by (auto simp: session_recv_def intro!: router_inv_on_session intro: session_ok_recv)
  qed
qed (simp_all add: wf_intros)

lemma router_reachable_inv: "router_reachable r \<Longrightarrow> router_inv r"
  by (induction rule: router_reachable.induct) (auto simp: router_inv_New router_step_inv)

lemma router_detach_closes:
  "router_get r sid = Some p \<Longrightarrow> rt_heap r p = Some s \<Longrightarrow>
   rt_heap (router_detach sid r) = (rt_heap r)(p \<mapsto> s\<lparr>as_closed := True\<rparr>)"
  by (simp add: router_detach_def router_get_def on_session_def activeSession_close_def)

section \<open>What an operator receives\<close>

text \<open>The effect of a routed frame on the session that owns it.\<close>

definition deliver :: "activeSession \<Rightarrow> Frame \<Rightarrow> activeSession" where
  "deliver s f =
     (if length (ch_buf (as_toBrowser s)) < ch_cap (as_toBrowser s)
      then s\<lparr>as_toBrowser := offer_chan (as_toBrowser s) f\<rparr> else activeSession_close s)"

interpretation inbox: drop_queue deliver "\<lambda>s. ch_buf (as_toBrowser s)" "\<lambda>s. ch_cap (as_toBrowser s)"
  "\<lambda>s. \<not> ch_closed (as_toBrowser s)"
  by unfold_locales (auto simp: deliver_def offer_chan_def try_send_def activeSession_close_def)

lemma deliver_closed:
  "as_closed (deliver s f) \<longleftrightarrow> as_closed s \<or> ch_cap (as_toBrowser s) \<le> length (ch_buf (as_toBrowser s))"
  by (auto simp: deliver_def activeSession_close_def)

lemma deliver_claims [simp]: "as_claims (deliver s f) = as_claims s"
  by (simp add: deliver_def activeSession_close_def)

lemma deliver_burst_closed:
  "\<not> ch_closed (as_toBrowser s) \<Longrightarrow> chan_wf (as_toBrowser s) \<Longrightarrow>
   as_closed (foldl deliver s fs) \<longleftrightarrow>
     as_closed s \<or> ch_cap (as_toBrowser s) < length (ch_buf (as_toBrowser s)) + length fs"
proof (induction fs arbitrary: s)
  case (Cons f fs)
  have "chan_wf (as_toBrowser (deliver s f))"
    using Cons.prems inbox.offer_bounded [of s f] by (simp add: chan_wf_def inbox.offer_limit)
  with Cons.IH [of "deliver s f"] Cons.prems show ?case
    by (cases "length (ch_buf (as_toBrowser s)) < ch_cap (as_toBrowser s)")
      (auto simp: deliver_closed inbox.offer_limit inbox.offer_room inbox.offer_full inbox.offer_accepting chan_wf_def)
qed (simp add: chan_wf_def)

lemma routeAgentResponse_delivers:
  assumes "router_inv r" "router_get r (f_SessionID f) = Some p" "f_SessionID f \<noteq> []"
  shows "routeAgentResponse f r = Inr (on_session p (\<lambda>s. deliver s f) r)"
proof -
  obtain s where s: "rt_heap r p = Some s" "session_ok s"
    using assms by (fastforce simp: router_inv_def)
  then show ?thesis
    using assms offer_chan_open [of "as_toBrowser s" f]
    by (simp add: routeAgentResponse_def deliver_def session_ok_def on_session_def)
qed

fun route_all :: "Frame list \<Rightarrow> router \<Rightarrow> panic + router" where
  "route_all [] r = Inr r"
| "route_all (f # fs) r = and_then (routeAgentResponse f r) (route_all fs)"

lemma routeAgentResponse_other:
  assumes "router_inv r" "router_get r sid = Some p" "f_SessionID f \<noteq> sid" "routeAgentResponse f r = Inr r'"
  shows "rt_heap r' p = rt_heap r p"
proof (cases "router_get r (f_SessionID f)")
  case None
  then show ?thesis using assms by (simp add: routeAgentResponse_def split: if_splits)
next
  case (Some q)
  then have "q \<noteq> p" using assms by (auto simp: router_inv_def)
  with Some assms routeAgentResponse_delivers [of r f q] show ?thesis
    by (cases "f_SessionID f = []") (auto simp: routeAgentResponse_def on_session_def)
qed

lemma routeAgentResponse_table:
  "routeAgentResponse f r = Inr r' \<Longrightarrow> rt_sessions r' = rt_sessions r"
  by (auto simp: routeAgentResponse_def and_then_Inr on_session_def split: option.splits if_splits)

lemma route_all_delivers:
  assumes "router_inv r" "router_get r sid = Some p" "rt_heap r p = Some s" "sid \<noteq> []"
  shows "\<exists>r'. route_all fs r = Inr r' \<and> rt_sessions r' = rt_sessions r \<and>
    rt_heap r' p = Some (foldl deliver s (filter (\<lambda>f. f_SessionID f = sid) fs))"
  using assms(1-3)
proof (induction fs arbitrary: r s)
  case (Cons f fs)
  obtain r' where r': "routeAgentResponse f r = Inr r'" "router_inv r'"
    using routeAgentResponse_ok [OF Cons.prems(1)] by blast
  have t: "rt_sessions r' = rt_sessions r" by (rule routeAgentResponse_table [OF r'(1)])
  then have g: "router_get r' sid = Some p" using Cons.prems(2) by (simp add: router_get_def)
  show ?case
  proof (cases "f_SessionID f = sid")
    case True
    then have "rt_heap r' p = Some (deliver s f)"
      using Cons.prems r'(1) assms(4) routeAgentResponse_delivers [of r f p] by (auto simp: on_session_def)
    from Cons.IH [OF r'(2) g this] t r'(1) True show ?thesis by simp
  next
    case False
    then have "rt_heap r' p = Some s"
      using routeAgentResponse_other [OF Cons.prems(1,2) False r'(1)] Cons.prems(3) by simp
    from Cons.IH [OF r'(2) g this] t r'(1) False show ?thesis by simp
  qed
qed simp

text \<open>A fresh session takes up to 64 frames and keeps them in order.\<close>

lemma fresh_session_holds:
  "length fs \<le> 64 \<Longrightarrow> ch_buf (as_toBrowser (foldl deliver (new_session c) fs)) = fs \<and> \<not> as_closed (foldl deliver (new_session c) fs)"
  using inbox.offers_content [of "new_session c" fs] deliver_burst_closed [of "new_session c" fs]
  by (simp add: new_session_def make_chan_def chan_wf_def)

text \<open>
  C32. Frames that agents send while an operator's socket takes nothing: none of them panics the relay,
  the operator's queue holds the first of the frames that name the session, in order and up to
  64 in all, and the session is closed exactly when one did not fit. Which agent sent a frame
  plays no part: any connected agent that names the session id reaches the operator.
\<close>

theorem route_burst:
  assumes "router_reachable r" and "router_get r sid = Some p" and "rt_heap r p = Some s" and "sid \<noteq> []"
    and "mine = filter (\<lambda>f. f_SessionID f = sid) fs"
  shows "\<exists>r' s'. route_all fs r = Inr r' \<and> rt_heap r' p = Some s' \<and> router_get r' sid = Some p \<and>
    ch_buf (as_toBrowser s') = ch_buf (as_toBrowser s) @ take (64 - length (ch_buf (as_toBrowser s))) mine \<and>
    (as_closed s' \<longleftrightarrow> as_closed s \<or> 64 < length (ch_buf (as_toBrowser s)) + length mine)"
proof -
  from route_all_delivers [OF router_reachable_inv [OF assms(1)] assms(2-4)] obtain r' where
    r': "route_all fs r = Inr r'" "rt_sessions r' = rt_sessions r" "rt_heap r' p = Some (foldl deliver s mine)"
    using assms(5) by auto
  have "session_ok s" using router_reachable_inv [OF assms(1)] assms(3) by (simp add: router_inv_def)
  then show ?thesis
    using r' assms(2) inbox.offers_content [of s mine] deliver_burst_closed [of s mine]
    by (simp add: session_ok_def router_get_def)
qed

definition demo_router :: router where
  "demo_router = snd (router_connect ''s1'' 0 (Some demo_claims) newRouter)"

lemma demo_router_reachable: "router_reachable demo_router"
  unfolding demo_router_def
  by (rule router_reachable.step [OF router_reachable.start]) (rule router_step.connect, simp add: newRouter_def)

lemma demo_router_session:
  "router_get demo_router ''s1'' = Some 0" "rt_heap demo_router 0 = Some (new_session (Some demo_claims))"
  by (simp_all add: demo_router_def router_connect_def router_attach_def newRouter_def router_get_def)

theorem route_burst_witness:
  "\<exists>r' s'. route_all (replicate 70 (frame TypePtyData ''s1'' [])) demo_router = Inr r' \<and> rt_heap r' 0 = Some s' \<and>
     length (ch_buf (as_toBrowser s')) = 64 \<and> as_closed s'"
  using route_burst [OF demo_router_reachable demo_router_session, of _ "replicate 70 (frame TypePtyData ''s1'' [])"]
  by (auto simp: new_session_def)

text \<open>
  While a session is attached, a second connection with the same session id is refused and
  changes nothing, and the first keeps its place through any connections and disconnections of
  other sessions; a detach closes it, and then the same id can be attached again, so a token works
  more than once within its lifetime.
\<close>

lemma session_exclusive:
  assumes "router_get r sid = Some p" and "Release sid \<notin> set ops"
  shows "router_attach sid q r = (False, r) \<and>
    router_get (fold (\<lambda>op r. case op of Claim k v \<Rightarrow> snd (router_attach k v r) | Release k \<Rightarrow> router_detach k r) ops r) sid
      = Some p \<and>
    rt_heap (router_detach sid r) p = map_option activeSession_close (rt_heap r p) \<and>
    fst (router_attach sid q (router_detach sid r))"
  using sessions.holder_stays [OF assms] sessions.claim_held [OF assms(1)] sessions.reclaim [where k = sid and t = r and v = q] assms(1)
  by (simp add: router_detach_def router_get_def on_session_def)

lemma session_exclusive_witness:
  "router_attach ''s1'' 7 demo_router = (False, demo_router) \<and> fst (router_attach ''s1'' 7 (router_detach ''s1'' demo_router))"
  using session_exclusive [OF demo_router_session(1), of "[Claim ''s1'' 7, Release ''s2'']" 7] by simp

end
