(* ===== verification/AuditLog.thy ===== *)
theory AuditLog
  imports Sha256 Containers Strconv
begin

text \<open>
  \<open>internal/audit/audit.go\<close> and \<open>forward.go\<close>: audit events, the logger with its local sink and its
  forwarder, and the forwarder's queue, drain loop and signed request. A line written to the local
  sink is the event itself (JSON text is not modelled, and marshalling these structs does not
  fail); JSON of a batch, whose bytes are signed, is the parameter \<open>marshal\<close>. The zero time is
  \<open>None\<close>.
\<close>

section \<open>Events and the logger\<close>

record Event =
  ev_Ts :: "time option"
  ev_Kind :: string
  ev_OrgID :: string
  ev_DeviceID :: string
  ev_SessionID :: string
  ev_ExecID :: string
  ev_Operator :: string
  ev_IP :: string
  ev_Argv :: "string list"
  ev_ExitCode :: "int option"
  ev_OutputRef :: string
  ev_Bytes :: int
  ev_Reason :: string
  ev_Meta :: "(string, string) gomap"

text \<open>The literal \<open>audit.Event{Kind: k}\<close>; the others are updates of it.\<close>

definition event :: "string \<Rightarrow> Event" where
  "event k =
     \<lparr>ev_Ts = None, ev_Kind = k, ev_OrgID = [], ev_DeviceID = [], ev_SessionID = [], ev_ExecID = [],
      ev_Operator = [], ev_IP = [], ev_Argv = [], ev_ExitCode = None, ev_OutputRef = [],
      ev_Bytes = 0, ev_Reason = [], ev_Meta = []\<rparr>"

lemma event_simps [simp]:
  "ev_Ts (event k) = None" "ev_Kind (event k) = k" "ev_OrgID (event k) = []" "ev_DeviceID (event k) = []"
  "ev_SessionID (event k) = []" "ev_ExecID (event k) = []" "ev_Operator (event k) = []" "ev_IP (event k) = []"
  "ev_Argv (event k) = []" "ev_ExitCode (event k) = None" "ev_Reason (event k) = []"
  by (simp_all add: event_def)

definition forwardBatchSize :: nat where "forwardBatchSize = 50"
definition forwardQueueSize :: nat where "forwardQueueSize = 500"
definition forwardPath :: string where "forwardPath = ''/api/v1/relay/audit''"

record Forwarder =
  fw_appURL :: string
  fw_secret :: bytes
  fw_queue :: "Event chan"

definition NewForwarder :: "string \<Rightarrow> bytes \<Rightarrow> Forwarder option" where
  "NewForwarder appURL secret =
     (if appURL = [] \<or> length secret < 32 then None
      else Some \<lparr>fw_appURL = trim_right_byte CHR ''/'' appURL, fw_secret = secret,
                 fw_queue = make_chan forwardQueueSize\<rparr>)"

text \<open>The queue is never closed, so the send of \<open>Enqueue\<close> cannot panic.\<close>

definition Enqueue :: "Event \<Rightarrow> Forwarder option \<Rightarrow> Forwarder option" where
  "Enqueue e fwd =
     (case fwd of None \<Rightarrow> None | Some f \<Rightarrow> Some (f\<lparr>fw_queue := offer_chan (fw_queue f) e\<rparr>))"

record Logger =
  lg_out :: "Event list"
  lg_forwarder :: "Forwarder option"

definition NewStdout :: Logger where
  "NewStdout = \<lparr>lg_out = [], lg_forwarder = None\<rparr>"

definition WithForwarder :: "Forwarder option \<Rightarrow> Logger \<Rightarrow> Logger" where
  "WithForwarder f l = l\<lparr>lg_forwarder := f\<rparr>"

definition Emit :: "time \<Rightarrow> Event \<Rightarrow> Logger \<Rightarrow> Logger" where
  "Emit now e l =
     (let e' = (if ev_Ts e = None then e\<lparr>ev_Ts := Some now\<rparr> else e);
          l' = l\<lparr>lg_out := lg_out l @ [e']\<rparr>
      in if ev_OrgID e' = [] then l' else l'\<lparr>lg_forwarder := Enqueue e' (lg_forwarder l')\<rparr>)"

section \<open>The drain loop\<close>

text \<open>
  \<open>Run\<close> as a machine: what its \<open>select\<close> chooses, interleaved with the \<open>Enqueue\<close> of other goroutines.
  \<open>dr_posts\<close> are the batches handed to \<open>post\<close>, whose first line drops an empty one; \<open>dr_accepted\<close>
  records, for the properties only, the events the queue took.
\<close>

datatype drain_op = DEnqueue Event | DRecv | DTick | DDone

record drain =
  dr_fwd :: Forwarder
  dr_batch :: "Event list"
  dr_posts :: "Event list list"
  dr_running :: bool
  dr_accepted :: "Event list"

definition drain_start :: "Forwarder \<Rightarrow> drain" where
  "drain_start f = \<lparr>dr_fwd = f, dr_batch = [], dr_posts = [], dr_running = True, dr_accepted = ch_buf (fw_queue f)\<rparr>"

definition post_batch :: "Event list \<Rightarrow> Event list list \<Rightarrow> Event list list" where
  "post_batch batch posts = (if batch = [] then posts else posts @ [batch])"

definition flush :: "drain \<Rightarrow> drain" where
  "flush d =
     (if dr_batch d = [] then d
      else d\<lparr>dr_posts := post_batch (dr_batch d) (dr_posts d), dr_batch := []\<rparr>)"

definition drain_enqueue :: "Event \<Rightarrow> drain \<Rightarrow> drain" where
  "drain_enqueue e d =
     (case Enqueue e (Some (dr_fwd d)) of
        Some f \<Rightarrow> d\<lparr>dr_fwd := f,
                    dr_accepted := (if ch_buf (fw_queue f) = ch_buf (fw_queue (dr_fwd d)) then dr_accepted d
                                    else dr_accepted d @ [e])\<rparr>
      | None \<Rightarrow> d)"

fun Run_step :: "drain_op \<Rightarrow> drain \<Rightarrow> drain" where
  "Run_step (DEnqueue e) d = drain_enqueue e d"
| "Run_step DDone d =
     (if \<not> dr_running d then d
      else d\<lparr>dr_posts := post_batch (dr_batch d) (dr_posts d), dr_batch := [], dr_running := False\<rparr>)"
| "Run_step DTick d = (if \<not> dr_running d then d else flush d)"
| "Run_step DRecv d =
     (if \<not> dr_running d then d
      else (case try_recv (fw_queue (dr_fwd d)) of
              (Value e, q) \<Rightarrow>
                (let d' = d\<lparr>dr_fwd := (dr_fwd d)\<lparr>fw_queue := q\<rparr>, dr_batch := dr_batch d @ [e]\<rparr>
                 in if forwardBatchSize \<le> length (dr_batch d') then flush d' else d')
            | _ \<Rightarrow> d))"

definition Run :: "drain_op list \<Rightarrow> Forwarder option \<Rightarrow> drain option" where
  "Run ops fwd = (case fwd of None \<Rightarrow> None | Some f \<Rightarrow> Some (fold Run_step ops (drain_start f)))"

section \<open>The signed request\<close>

record http_request =
  hr_Method :: string
  hr_URL :: string
  hr_Headers :: "(string \<times> string) list"
  hr_Body :: bytes

text \<open>What \<open>post\<close> signs: the format \<open>%s\nPOST\n%s\n%s\<close>.\<close>

definition forward_message :: "string \<Rightarrow> bytes \<Rightarrow> bytes" where
  "forward_message ts body =
     ts @ [CHR 0x0A] @ ''POST'' @ [CHR 0x0A] @ forwardPath @ [CHR 0x0A] @ hex_encode (sha256 body)"

definition forward_signature :: "bytes \<Rightarrow> string \<Rightarrow> bytes \<Rightarrow> string" where
  "forward_signature secret ts body = hex_encode (hmac_sha256 secret (forward_message ts body))"

definition post :: "(Event list \<Rightarrow> bytes option) \<Rightarrow> int \<Rightarrow> Forwarder \<Rightarrow> Event list \<Rightarrow> http_request option" where
  "post marshal now f batch =
     (if batch = [] then None
      else (case marshal batch of
              None \<Rightarrow> None
            | Some body \<Rightarrow>
                (let ts = format_int now;
                     sig = forward_signature (fw_secret f) ts body
                 in Some \<lparr>hr_Method = ''POST'', hr_URL = fw_appURL f @ forwardPath,
                          hr_Headers = [(''Content-Type'', ''application/json''), (''X-Hasfy-Ts'', ts),
                                        (''X-Hasfy-Sig'', sig)],
                          hr_Body = body\<rparr>)))"

section \<open>The queue is a bounded queue that drops\<close>

interpretation audit_queue: drop_queue "\<lambda>f e. f\<lparr>fw_queue := offer_chan (fw_queue f) e\<rparr>"
  "\<lambda>f. ch_buf (fw_queue f)" "\<lambda>f. ch_cap (fw_queue f)" "\<lambda>f. \<not> ch_closed (fw_queue f)"
  by unfold_locales (simp_all add: open_chan.offer_room open_chan.offer_full open_chan.offer_limit)

definition fwd_ok :: "Forwarder \<Rightarrow> bool" where
  "fwd_ok f \<longleftrightarrow> \<not> ch_closed (fw_queue f) \<and> ch_cap (fw_queue f) = forwardQueueSize \<and> chan_wf (fw_queue f)"

lemma NewForwarder_ok: "NewForwarder url secret = Some f \<Longrightarrow> fwd_ok f \<and> ch_buf (fw_queue f) = []"
  by (auto simp: NewForwarder_def fwd_ok_def split: if_splits)

lemma fwd_ok_offer [wf_intros]: "fwd_ok f \<Longrightarrow> fwd_ok (f\<lparr>fw_queue := offer_chan (fw_queue f) e\<rparr>)"
  using audit_queue.offer_bounded [of f e] audit_queue.offer_limit [of f e]
  by (simp add: fwd_ok_def chan_wf_def)

lemma fwd_ok_recv [wf_intros]:
  "fwd_ok f \<Longrightarrow> try_recv (fw_queue f) = (x, q) \<Longrightarrow> fwd_ok (f\<lparr>fw_queue := q\<rparr>)"
  by (auto simp: fwd_ok_def try_recv_def chan_wf_def split: list.splits)

section \<open>Emitting\<close>

definition stamp :: "time \<Rightarrow> Event \<Rightarrow> Event" where
  "stamp now e = (if ev_Ts e = None then e\<lparr>ev_Ts := Some now\<rparr> else e)"

lemma stamp_simps [simp]: "ev_OrgID (stamp now e) = ev_OrgID e" "ev_Kind (stamp now e) = ev_Kind e"
  "stamp now e \<noteq> e \<longleftrightarrow> ev_Ts e = None"
  by (simp_all add: stamp_def, metis Event.select_convs(1) Event.surjective Event.update_convs(1) option.distinct(1))

lemma Emit_out [go_results]: "lg_out (Emit now e l) = lg_out l @ [stamp now e]"
  by (simp add: Emit_def Let_def stamp_def)

lemma Emit_forwarder [go_results]:
  "lg_forwarder (Emit now e l) =
     (if ev_OrgID e = [] then lg_forwarder l else Enqueue (stamp now e) (lg_forwarder l))"
  by (simp add: Emit_def Let_def stamp_def)

definition emit_all :: "(time \<times> Event) list \<Rightarrow> Logger \<Rightarrow> Logger" where
  "emit_all es l = fold (\<lambda>(now, e) l. Emit now e l) es l"

lemma emit_all_simps [simp]:
  "emit_all [] l = l" "emit_all ((now, e) # es) l = emit_all es (Emit now e l)"
  by (simp_all add: emit_all_def)

lemma emit_all_out: "lg_out (emit_all es l) = lg_out l @ map (\<lambda>(now, e). stamp now e) es"
  by (induction es arbitrary: l) (auto simp: go_results)

lemma emit_all_forwarder:
  "lg_forwarder l = Some f \<Longrightarrow>
   lg_forwarder (emit_all es l) =
     Some (foldl (\<lambda>f e. f\<lparr>fw_queue := offer_chan (fw_queue f) e\<rparr>) f
             (filter (\<lambda>e. ev_OrgID e \<noteq> []) (map (\<lambda>(now, e). stamp now e) es)))"
  by (induction es arbitrary: l f) (auto simp: go_results Enqueue_def)

text \<open>
  Every emitted event reaches the local sink, in order and with a timestamp, whatever the
  forwarder does. Only events with an organisation are queued for Hasfy-App; while nobody drains
  the queue it keeps the earliest 500 of them in order and drops the rest.
\<close>

lemma emit_trail:
  assumes "NewForwarder url secret = Some f"
    and "trail = map (\<lambda>(now, e). stamp now e) es"
  shows "lg_out (emit_all es (WithForwarder (Some f) NewStdout)) = trail \<and>
    (\<exists>f'. lg_forwarder (emit_all es (WithForwarder (Some f) NewStdout)) = Some f' \<and>
       ch_buf (fw_queue f') = take 500 (filter (\<lambda>e. ev_OrgID e \<noteq> []) trail))"
proof -
  have f: "fwd_ok f" "ch_buf (fw_queue f) = []" using NewForwarder_ok [OF assms(1)] by auto
  have "lg_forwarder (WithForwarder (Some f) NewStdout) = Some f" by (simp add: WithForwarder_def)
  from emit_all_forwarder [OF this, of es] show ?thesis
    using f audit_queue.offers_content [of f "filter (\<lambda>e. ev_OrgID e \<noteq> []) trail"] assms(2)
    by (simp add: emit_all_out WithForwarder_def NewStdout_def fwd_ok_def forwardQueueSize_def)
qed

definition demo_forwarder :: Forwarder where
  "demo_forwarder =
     \<lparr>fw_appURL = ''https://app.example'', fw_secret = replicate 32 CHR ''k'', fw_queue = make_chan forwardQueueSize\<rparr>"

lemma demo_forwarder: "NewForwarder ''https://app.example/'' (replicate 32 CHR ''k'') = Some demo_forwarder"
  by (simp add: NewForwarder_def demo_forwarder_def trim_right_byte_def)

definition org_event :: "string \<Rightarrow> Event" where
  "org_event k = (event k)\<lparr>ev_OrgID := ''org-1''\<rparr>"

lemma emit_trail_witness:
  "lg_out (emit_all [(7, event ''auth.fail''), (8, org_event ''session.open'')]
      (WithForwarder (Some demo_forwarder) NewStdout)) =
   [(event ''auth.fail'')\<lparr>ev_Ts := Some 7\<rparr>, (org_event ''session.open'')\<lparr>ev_Ts := Some 8\<rparr>]"
  using emit_trail [OF demo_forwarder refl, of "[(7, event ''auth.fail''), (8, org_event ''session.open'')]"]
  by (simp add: stamp_def org_event_def)

section \<open>Draining\<close>

definition drain_inv :: "drain \<Rightarrow> bool" where
  "drain_inv d \<longleftrightarrow>
     fwd_ok (dr_fwd d) \<and> length (dr_batch d) < forwardBatchSize \<and>
     (\<forall>b \<in> set (dr_posts d). b \<noteq> [] \<and> length b \<le> forwardBatchSize) \<and>
     concat (dr_posts d) @ dr_batch d @ ch_buf (fw_queue (dr_fwd d)) = dr_accepted d"

lemma drain_inv_start: "fwd_ok f \<Longrightarrow> drain_inv (drain_start f)"
  by (simp add: drain_inv_def drain_start_def forwardBatchSize_def)

lemma concat_post_batch [simp]: "concat (post_batch b ps) = concat ps @ b"
  by (simp add: post_batch_def)

lemma set_post_batch: "set (post_batch b ps) = set ps \<union> (if b = [] then {} else {b})"
  by (auto simp: post_batch_def)



lemma Run_step_inv [wf_intros]:
  assumes "drain_inv d"
  shows "drain_inv (Run_step op d)"
proof (cases op)
  case (DEnqueue e)
  have "ch_buf (fw_queue (dr_fwd d)) = buf \<Longrightarrow> \<not> ch_closed (fw_queue (dr_fwd d)) \<Longrightarrow>
      ch_buf (offer_chan (fw_queue (dr_fwd d)) e) \<in> {buf, buf @ [e]}" for buf
    by (simp add: offer_chan_def try_send_def)
  then show ?thesis
    using assms DEnqueue fwd_ok_offer [of "dr_fwd d" e]
    by (auto simp: drain_inv_def drain_enqueue_def Enqueue_def fwd_ok_def)
next
  case DRecv
  then show ?thesis
  proof (cases "dr_running d \<and> ch_buf (fw_queue (dr_fwd d)) \<noteq> []")
    case True
    then obtain e es where q: "ch_buf (fw_queue (dr_fwd d)) = e # es" by (cases "ch_buf (fw_queue (dr_fwd d))") auto
    then have r: "try_recv (fw_queue (dr_fwd d)) = (Value e, (fw_queue (dr_fwd d))\<lparr>ch_buf := es\<rparr>)"
      by (simp add: try_recv_def)
    have "fwd_ok ((dr_fwd d)\<lparr>fw_queue := (fw_queue (dr_fwd d))\<lparr>ch_buf := es\<rparr>\<rparr>)"
      using assms fwd_ok_recv [OF _ r] by (simp add: drain_inv_def)
    then show ?thesis
      using assms DRecv True q r by (auto simp: drain_inv_def Let_def flush_def set_post_batch)
  next
    case False
    then show ?thesis using assms DRecv by (auto simp: try_recv_def)
  qed
next
  case DTick
  then show ?thesis using assms by (auto simp: drain_inv_def flush_def set_post_batch forwardBatchSize_def)
next
  case DDone
  then show ?thesis
    using assms by (auto simp: drain_inv_def set_post_batch forwardBatchSize_def)
qed

lemma fold_Run_inv: "drain_inv d \<Longrightarrow> drain_inv (fold Run_step ops d)"
  by (induction ops arbitrary: d) (simp_all add: wf_intros)

text \<open>
  C30. In every interleaving of the drain loop with emitters, the batches posted so far, the batch
  being filled and the queue hold exactly the events the queue accepted, in order and once each;
  every posted batch has between 1 and 50 events and the queue never holds more than 500.
\<close>

theorem forwarder_fifo:
  assumes "NewForwarder url secret = Some f" and "Run ops (Some f) = Some d"
  shows "concat (dr_posts d) @ dr_batch d @ ch_buf (fw_queue (dr_fwd d)) = dr_accepted d \<and>
    list_all (\<lambda>b. 1 \<le> length b \<and> length b \<le> 50) (dr_posts d) \<and> length (ch_buf (fw_queue (dr_fwd d))) \<le> 500"
proof -
  have "drain_inv d"
    using assms fold_Run_inv drain_inv_start NewForwarder_ok by (auto simp: Run_def)
  then show ?thesis
    by (auto simp: drain_inv_def list_all_iff forwardBatchSize_def fwd_ok_def chan_wf_def forwardQueueSize_def
        Suc_le_eq)
qed

theorem forwarder_fifo_witness:
  "\<exists>d. Run [DEnqueue (org_event ''a''), DRecv, DTick, DEnqueue (org_event ''b'')] (Some demo_forwarder) = Some d \<and>
     concat (dr_posts d) @ dr_batch d @ ch_buf (fw_queue (dr_fwd d)) = dr_accepted d"
proof -
  obtain d where "Run [DEnqueue (org_event ''a''), DRecv, DTick, DEnqueue (org_event ''b'')] (Some demo_forwarder) = Some d"
    by (simp add: Run_def)
  with forwarder_fifo [OF demo_forwarder this] show ?thesis by blast
qed

lemma stopped_posts: "\<not> dr_running d \<Longrightarrow> dr_posts (fold Run_step ops d) = dr_posts d"
proof (induction ops arbitrary: d)
  case (Cons op ops)
  have "\<not> dr_running (Run_step op d) \<and> dr_posts (Run_step op d) = dr_posts d"
    using Cons.prems by (cases op) (auto simp: drain_enqueue_def Enqueue_def)
  with Cons.IH show ?case by simp
qed simp

text \<open>
  When the context ends, exactly the batch being filled is posted and nothing after it: the
  events still in the queue are lost, although the comment of \<open>Run\<close> says that it flushes what
  remains.
\<close>

lemma shutdown_posts_batch_only:
  assumes "Run ops (Some f) = Some d" and "dr_running d"
    and "Run (ops @ DDone # ops') (Some f) = Some d'"
  shows "concat (dr_posts d') = concat (dr_posts d) @ dr_batch d"
  using assms stopped_posts [of "Run_step DDone d" ops'] by (auto simp: Run_def)

lemma shutdown_posts_batch_only_witness:
  "\<exists>d'. Run ([DEnqueue (org_event ''session.close'')] @ DDone # [DRecv, DTick]) (Some demo_forwarder) = Some d' \<and>
     concat (dr_posts d') = [] \<and> ch_buf (fw_queue (dr_fwd d')) = [org_event ''session.close'']"
proof -
  let ?ops = "[DEnqueue (org_event ''session.close'')]"
  obtain d where d: "Run ?ops (Some demo_forwarder) = Some d" "dr_running d" "dr_batch d = []" "dr_posts d = []"
    by (simp add: Run_def drain_start_def drain_enqueue_def Enqueue_def)
  obtain d' where d': "Run (?ops @ DDone # [DRecv, DTick]) (Some demo_forwarder) = Some d'"
      "ch_buf (fw_queue (dr_fwd d')) = [org_event ''session.close'']"
    by (simp add: Run_def drain_start_def drain_enqueue_def Enqueue_def demo_forwarder_def offer_chan_def
        try_send_def forwardQueueSize_def)
  from shutdown_posts_batch_only [OF d(1,2) d'(1)] d d' show ?thesis by auto
qed

end
