(* ===== verification/Server.thy ===== *)
theory Server
  imports Router AuditLog
begin

text \<open>
  \<open>internal/server/server.go\<close>: the relay's state and its construction, the service-to-service
  authentication of requests from Hasfy-App and the helpers of the HTTP handlers. A handler takes
  the request and the state to a reply and a new state; a reply is a status with a text (from
  \<open>http.Error\<close>) or a JSON value of the handler's own type.
\<close>

section \<open>Requests and replies\<close>

record HttpReq =
  rq_Method :: string
  rq_Path :: string
  rq_Header :: "(string, string) gomap"
  rq_Query :: "(string, string) gomap"
  rq_RemoteAddr :: string
  rq_Body :: "bytes option"

text \<open>\<open>Header.Get\<close> and \<open>Query().Get\<close> give the empty string for an absent name. A body that cannot be
  read is \<open>None\<close>.\<close>

definition header :: "string \<Rightarrow> HttpReq \<Rightarrow> string" where
  "header k r = (case gm_get (rq_Header r) k of Some v \<Rightarrow> v | None \<Rightarrow> [])"

definition query :: "string \<Rightarrow> HttpReq \<Rightarrow> string" where
  "query k r = (case gm_get (rq_Query r) k of Some v \<Rightarrow> v | None \<Rightarrow> [])"

definition UserAgent :: "HttpReq \<Rightarrow> string" where
  "UserAgent r = header ''User-Agent'' r"

type_synonym http_error = "nat \<times> string"

datatype 'b reply = Error http_error | Json nat 'b

section \<open>State\<close>

record Config =
  cf_AgentSecret :: bytes
  cf_SessionSecret :: bytes
  cf_SvcSecret :: bytes
  cf_OperatorOrigins :: "string list"
  cf_AppURL :: string
  cf_MaxFrameBytes :: int
  cf_WriteBufSize :: int

record Server =
  sv_cfg :: Config
  sv_verifier :: Verifier
  sv_reg :: Registry
  sv_audit :: Logger
  sv_router :: router

definition Server_New :: "Config \<Rightarrow> string + Server" where
  "Server_New cfg =
     and_then (NewVerifier (cf_AgentSecret cfg) (cf_SessionSecret cfg)) (\<lambda>v.
       if length (cf_SvcSecret cfg) < 32 then Inl ''svc secret too short''
       else
         (let cfg1 = (if cf_MaxFrameBytes cfg = 0 then cfg\<lparr>cf_MaxFrameBytes := 2 ^ 20\<rparr> else cfg);
              cfg2 = (if cf_WriteBufSize cfg1 = 0 then cfg1\<lparr>cf_WriteBufSize := 32\<rparr> else cfg1)
          in Inr \<lparr>sv_cfg = cfg2, sv_verifier = v, sv_reg = Registry_New,
                  sv_audit = WithForwarder (NewForwarder (cf_AppURL cfg2) (cf_SvcSecret cfg2)) NewStdout,
                  sv_router = newRouter\<rparr>))"

definition emit :: "time \<Rightarrow> Event \<Rightarrow> Server \<Rightarrow> Server" where
  "emit now e s = s\<lparr>sv_audit := Emit now e (sv_audit s)\<rparr>"

lemma emit_simps [simp]:
  "sv_cfg (emit now e s) = sv_cfg s" "sv_verifier (emit now e s) = sv_verifier s"
  "sv_reg (emit now e s) = sv_reg s" "sv_router (emit now e s) = sv_router s"
  "lg_out (sv_audit (emit now e s)) = lg_out (sv_audit s) @ [stamp now e]"
  by (simp_all add: emit_def go_results)

section \<open>Helpers\<close>

definition healthz :: "HttpReq \<Rightarrow> nat \<times> string" where
  "healthz r = (200, ''ok'' @ [CHR 0x0A])"

definition clientIP :: "HttpReq \<Rightarrow> string" where
  "clientIP r =
     (let v = header ''X-Forwarded-For'' r in
      if v \<noteq> [] then
        (case index_byte v CHR '','' of
           Some i \<Rightarrow> if 0 < i then trim_space (take i v) else trim_space v
         | None \<Rightarrow> trim_space v)
      else
        (case last_index_byte (rq_RemoteAddr r) CHR '':'' of
           Some i \<Rightarrow> if 0 < i then take i (rq_RemoteAddr r) else rq_RemoteAddr r
         | None \<Rightarrow> rq_RemoteAddr r))"

definition bearerToken :: "HttpReq \<Rightarrow> string" where
  "bearerToken r =
     (let a = header ''Authorization'' r; p = ''Bearer ''
      in if \<not> has_prefix a p then [] else drop (length p) a)"

definition readBody :: "Server \<Rightarrow> HttpReq \<Rightarrow> http_error + bytes" where
  "readBody s r =
     (case rq_Body r of
        None \<Rightarrow> Inl (413, ''body too large'')
      | Some b \<Rightarrow> if nat (cf_MaxFrameBytes (sv_cfg s)) < length b then Inl (413, ''body too large'') else Inr b)"

text \<open>The code's \<open>abs\<close> on \<open>int64\<close>: the negation of the least value wraps back to it.\<close>

definition abs64 :: "int \<Rightarrow> int" where
  "abs64 x = (if x < 0 then wrap64 (- x) else x)"

definition unix :: "time \<Rightarrow> int" where
  "unix now = now div second"

definition svc_message :: "string \<Rightarrow> string \<Rightarrow> string \<Rightarrow> bytes \<Rightarrow> bytes" where
  "svc_message ts meth path body =
     ts @ [CHR 0x0A] @ meth @ [CHR 0x0A] @ path @ [CHR 0x0A] @ hex_encode (sha256 body)"

definition svc_signature :: "bytes \<Rightarrow> string \<Rightarrow> string \<Rightarrow> string \<Rightarrow> bytes \<Rightarrow> string" where
  "svc_signature secret ts meth path body = hex_encode (hmac_sha256 secret (svc_message ts meth path body))"

text \<open>\<open>verifySvcHMAC\<close>: the error it has written, or \<open>None\<close> when it returns true.\<close>

definition verifySvcHMAC :: "time \<Rightarrow> HttpReq \<Rightarrow> bytes \<Rightarrow> Server \<Rightarrow> http_error option \<times> Server" where
  "verifySvcHMAC now r body s =
     (let tsStr = header ''X-Hasfy-Ts'' r; sig = header ''X-Hasfy-Sig'' r in
      if tsStr = [] \<or> sig = [] then (Some (401, ''missing svc auth''), s)
      else
        (case parse_int64 tsStr of
           None \<Rightarrow> (Some (401, ''bad ts''), s)
         | Some ts \<Rightarrow>
             if 60 < abs64 (wrap64 (unix now - ts)) then (Some (401, ''stale ts''), s)
             else
               (let want = svc_signature (cf_SvcSecret (sv_cfg s)) (format_int ts) (rq_Method r) (rq_Path r) body in
                if want \<noteq> sig
                then (Some (401, ''bad sig''),
                      emit now ((event ''auth.fail'')\<lparr>ev_IP := clientIP r, ev_Reason := ''svc hmac mismatch''\<rparr>) s)
                else (None, s))))"

lemma verifySvcHMAC_None:
  "verifySvcHMAC now r body s = (None, s') \<longleftrightarrow>
     s' = s \<and> header ''X-Hasfy-Sig'' r \<noteq> [] \<and>
     (\<exists>ts. parse_int64 (header ''X-Hasfy-Ts'' r) = Some ts \<and> abs64 (wrap64 (unix now - ts)) \<le> 60 \<and>
       header ''X-Hasfy-Sig'' r =
         svc_signature (cf_SvcSecret (sv_cfg s)) (format_int ts) (rq_Method r) (rq_Path r) body)"
  by (auto simp: verifySvcHMAC_def Let_def parse_int64_def split: option.splits if_splits)

lemma svc_signature_length: "length (svc_signature secret ts meth path body) = 64"
  by (simp add: svc_signature_def)

lemma svc_signature_not_Nil [simp]: "svc_signature secret ts meth path body \<noteq> []"
  using svc_signature_length by (metis length_0_conv zero_neq_numeral)

text \<open>
  How far the clock check bounds an accepted timestamp: 60 seconds either way, or the one value
  whose distance is the least \<open>int64\<close>, where \<open>abs\<close> wraps.
\<close>

lemma wrap64_over: "2 ^ 63 \<le> x \<Longrightarrow> x < 2 ^ 64 \<Longrightarrow> wrap64 x = x - 2 ^ 64"
proof -
  assume x: "2 ^ 63 \<le> x" "x < 2 ^ 64"
  have "(x + 2 ^ 63) mod 2 ^ 64 = ((x - 2 ^ 63) + 2 ^ 64) mod 2 ^ 64" by (simp add: ac_simps)
  also have "\<dots> = (x - 2 ^ 63) mod 2 ^ 64" by (rule mod_add_self2)
  also have "\<dots> = x - 2 ^ 63" using x by (intro mod_pos_pos_trivial) simp_all
  finally show ?thesis unfolding wrap64_def by simp
qed

lemma stale_check:
  assumes "0 \<le> n" "n < 2 ^ 62" "int64 ts"
  shows "abs64 (wrap64 (n - ts)) \<le> 60 \<longleftrightarrow> \<bar>n - ts\<bar> \<le> 60 \<or> ts = n - 2 ^ 63"
proof -
  have ts: "- 9223372036854775808 \<le> ts" "ts < 9223372036854775808" using assms(3) by (simp_all add: int64_def)
  show ?thesis
  proof (cases "n - ts < 2 ^ 63")
    case True
    then have w: "wrap64 (n - ts) = n - ts" using assms ts by (intro wrap64_id) (simp add: int64_def)
    moreover have "int64 (ts - n)" using assms ts True by (simp add: int64_def)
    ultimately show ?thesis using True by (auto simp: abs64_def wrap64_id)
  next
    case False
    then have w: "wrap64 (n - ts) = n - ts - 2 ^ 64"
      using assms ts by (intro wrap64_over) simp_all
    show ?thesis
    proof (cases "ts = n - 2 ^ 63")
      case True
      then have "abs64 (wrap64 (n - ts)) = wrap64 (2 ^ 63)" using w by (simp add: abs64_def)
      also have "\<dots> \<le> 60" by (simp add: wrap64_over)
      finally show ?thesis using True by simp
    next
      case False
      let ?x = "2 ^ 64 - (n - ts)"
      have "int64 ?x" "60 < ?x" "n - ts - 2 ^ 64 < 0" "60 < n - ts"
        using False \<open>\<not> n - ts < 2 ^ 63\<close> assms ts by (simp_all add: int64_def)
      then have "abs64 (wrap64 (n - ts)) = ?x" using w by (simp add: abs64_def wrap64_id)
      then show ?thesis using False \<open>60 < ?x\<close> \<open>60 < n - ts\<close> by simp
    qed
  qed
qed

section \<open>Properties\<close>

text \<open>
  C6. A service request is accepted exactly when its signature is the HMAC, under the service secret,
  of its timestamp, method, path and body digest, and the timestamp parses as an \<open>int64\<close> within 60
  seconds of the clock, or is the single value 2 to the 63 seconds in the past on which \<open>abs\<close>
  overflows. Acceptance changes nothing; of the refusals only a wrong signature is audited.
\<close>

theorem svc_hmac_accepts_iff:
  assumes "0 \<le> unix now" and "unix now < 2 ^ 62"
  shows "(fst (verifySvcHMAC now r body s) = None \<longleftrightarrow>
      (\<exists>ts. parse_int64 (header ''X-Hasfy-Ts'' r) = Some ts \<and>
         (\<bar>unix now - ts\<bar> \<le> 60 \<or> ts = unix now - 2 ^ 63) \<and>
         header ''X-Hasfy-Sig'' r =
           svc_signature (cf_SvcSecret (sv_cfg s)) (format_int ts) (rq_Method r) (rq_Path r) body)) \<and>
    (fst (verifySvcHMAC now r body s) \<noteq> Some (401, ''bad sig'') \<longrightarrow> snd (verifySvcHMAC now r body s) = s)"
proof -
  have "fst (verifySvcHMAC now r body s) = None \<longleftrightarrow> verifySvcHMAC now r body s = (None, s)"
    using verifySvcHMAC_None by (cases "verifySvcHMAC now r body s") auto
  moreover have "abs64 (wrap64 (unix now - ts)) \<le> 60 \<longleftrightarrow> \<bar>unix now - ts\<bar> \<le> 60 \<or> ts = unix now - 2 ^ 63"
    if "parse_int64 (header ''X-Hasfy-Ts'' r) = Some ts" for ts
    using stale_check [OF assms parse_int64_range [OF that]] .
  moreover have "header ''X-Hasfy-Sig'' r \<noteq> []"
    if "header ''X-Hasfy-Sig'' r = svc_signature k ts m p body" for k ts m p
    using that by simp
  moreover have "fst (verifySvcHMAC now r body s) \<noteq> Some (401, ''bad sig'') \<longrightarrow> snd (verifySvcHMAC now r body s) = s"
    by (auto simp: verifySvcHMAC_def Let_def split: option.splits)
  ultimately show ?thesis by (auto simp: verifySvcHMAC_None)
qed

text \<open>A server with the configuration of the tests: secrets of 32 bytes, no audit forwarding.\<close>

definition demo_config :: Config where
  "demo_config =
     \<lparr>cf_AgentSecret = replicate 32 CHR ''a'', cf_SessionSecret = replicate 32 CHR ''s'',
      cf_SvcSecret = replicate 32 CHR ''k'', cf_OperatorOrigins = [''app.hasfy.fr''], cf_AppURL = [],
      cf_MaxFrameBytes = 0, cf_WriteBufSize = 0\<rparr>"

definition demo_server :: Server where
  "demo_server =
     \<lparr>sv_cfg = demo_config\<lparr>cf_MaxFrameBytes := 2 ^ 20, cf_WriteBufSize := 32\<rparr>,
      sv_verifier = demo_verifier, sv_reg = Registry_New, sv_audit = NewStdout, sv_router = newRouter\<rparr>"

lemma demo_server: "Server_New demo_config = Inr demo_server"
  by (simp add: Server_New_def NewVerifier_def demo_config_def demo_server_def demo_verifier_def
      NewForwarder_def WithForwarder_def NewStdout_def)

definition signed_request :: "bytes \<Rightarrow> string \<Rightarrow> string \<Rightarrow> string \<Rightarrow> bytes \<Rightarrow> HttpReq" where
  "signed_request secret ts meth path body =
     \<lparr>rq_Method = meth, rq_Path = path,
      rq_Header = [(''X-Hasfy-Ts'', ts), (''X-Hasfy-Sig'', svc_signature secret ts meth path body)],
      rq_Query = [], rq_RemoteAddr = ''10.0.0.1:4711'', rq_Body = Some body\<rparr>"

theorem svc_hmac_accepts_iff_witness:
  "fst (verifySvcHMAC (1700000000 * second)
      (signed_request (replicate 32 CHR ''k'') ''1700000042'' ''POST'' ''/api/exec'' ''{}'') ''{}'' demo_server) = None"
proof -
  have p: "parse_int64 ''1700000042'' = Some 1700000042"
    by (simp add: parse_int64_def parse_nat_def digit_value_def int64_def)
  have f: "format_int 1700000042 = ''1700000042''"
    by (simp add: format_int_def format_nat.simps)
  show ?thesis
    using svc_hmac_accepts_iff [of "1700000000 * second"
        "signed_request (replicate 32 CHR ''k'') ''1700000042'' ''POST'' ''/api/exec'' ''{}''" "''{}''" demo_server]
    by (simp add: unix_def signed_request_def header_def gm_get_def p f demo_server_def demo_config_def)
qed

section \<open>The forwarder's requests\<close>

text \<open>
  The way of a request through \<open>net/http\<close>: the client splits the URL into scheme, host and path, and the server
  sees the path, the headers and the body. The URLs have no percent escapes.
\<close>

fun after_scheme :: "string \<Rightarrow> string" where
  "after_scheme [] = []"
| "after_scheme (c # cs) = (if has_prefix (c # cs) ''://'' then drop 2 cs else after_scheme cs)"

definition url_path :: "string \<Rightarrow> string" where
  "url_path u =
     (let p = dropWhile (\<lambda>c. c \<noteq> CHR ''/'') (after_scheme (takeWhile (\<lambda>c. c \<noteq> CHR ''?'' \<and> c \<noteq> CHR ''#'') u))
      in if p = [] then ''/'' else p)"

definition received :: "string \<Rightarrow> http_request \<Rightarrow> HttpReq" where
  "received peer q =
     \<lparr>rq_Method = hr_Method q, rq_Path = url_path (hr_URL q), rq_Header = hr_Headers q, rq_Query = [],
      rq_RemoteAddr = peer, rq_Body = Some (hr_Body q)\<rparr>"

text \<open>An origin, such as \<open>https://app.hasfy.fr\<close>: a scheme and a host, possibly with a port, but no path.\<close>

definition origin_parts :: "string \<Rightarrow> string \<Rightarrow> bool" where
  "origin_parts scheme host \<longleftrightarrow>
     list_all (\<lambda>c. c \<notin> {CHR '':'', CHR ''?'', CHR ''#''}) scheme \<and>
     list_all (\<lambda>c. c \<notin> {CHR ''/'', CHR ''?'', CHR ''#''}) host"

lemma after_scheme_skip: "list_all (\<lambda>c. c \<noteq> CHR '':'') s \<Longrightarrow> after_scheme (s @ ''://'' @ r) = r"
  by (induction s) (simp_all add: has_prefix_iff)

lemma url_path_origin:
  assumes "origin_parts scheme host" "p = CHR ''/'' # r" "list_all (\<lambda>c. c \<noteq> CHR ''?'' \<and> c \<noteq> CHR ''#'') p"
  shows "url_path (scheme @ ''://'' @ host @ p) = p"
proof -
  have "takeWhile (\<lambda>c. c \<noteq> CHR ''?'' \<and> c \<noteq> CHR ''#'') (scheme @ ''://'' @ host @ p) = scheme @ ''://'' @ host @ p"
    using assms(1,3) by (auto simp: takeWhile_eq_all_conv origin_parts_def list_all_iff)
  moreover have "after_scheme (scheme @ ''://'' @ host @ p) = host @ p"
    using assms(1) by (intro after_scheme_skip) (auto simp: origin_parts_def list_all_iff)
  moreover have "dropWhile (\<lambda>c. c \<noteq> CHR ''/'') (host @ p) = p"
    using assms(1,2) by (subst dropWhile_append2) (auto simp: origin_parts_def list_all_iff)
  ultimately show ?thesis using assms(2) unfolding url_path_def by (simp only: Let_def) simp
qed

lemma forward_signature_svc: "forward_signature secret ts body = svc_signature secret ts ''POST'' forwardPath body"
  by (simp add: forward_signature_def svc_signature_def forward_message_def svc_message_def)

text \<open>
  C36. What the forwarder signs, a peer that verifies the way this server does accepts. A request that \<open>post\<close>
  builds, received within a minute by a server with the same secret, is accepted if the configured URL is an
  origin. In general it is accepted exactly when the signature of the path it was sent to is that of
  \<open>forwardPath\<close>, so a URL with a path of its own is not supported.
\<close>

theorem forwarded_batch_authentic:
  assumes "post marshal (unix now) f batch = Some q" and "fw_secret f = cf_SvcSecret (sv_cfg s)"
    and "0 \<le> unix now'" and "unix now' < 2 ^ 62" and "\<bar>unix now' - unix now\<bar> \<le> 60"
  shows "marshal batch = Some (hr_Body q) \<and>
    (verifySvcHMAC now' (received peer q) (hr_Body q) s = (None, s) \<longleftrightarrow>
       svc_signature (fw_secret f) (format_int (unix now)) ''POST'' (url_path (fw_appURL f @ forwardPath)) (hr_Body q) =
       svc_signature (fw_secret f) (format_int (unix now)) ''POST'' forwardPath (hr_Body q)) \<and>
    (\<forall>scheme host. fw_appURL f = scheme @ ''://'' @ host \<longrightarrow> origin_parts scheme host \<longrightarrow>
       verifySvcHMAC now' (received peer q) (hr_Body q) s = (None, s))"
proof -
  obtain body where q: "marshal batch = Some body"
    "q = \<lparr>hr_Method = ''POST'', hr_URL = fw_appURL f @ forwardPath,
          hr_Headers = [(''Content-Type'', ''application/json''), (''X-Hasfy-Ts'', format_int (unix now)),
            (''X-Hasfy-Sig'', svc_signature (fw_secret f) (format_int (unix now)) ''POST'' forwardPath body)],
          hr_Body = body\<rparr>"
    using assms(1) by (auto simp: post_def Let_def forward_signature_svc split: if_splits option.splits)
  have "int64 (unix now)" using assms(3-5) unfolding int64_def abs_le_iff by simp
  then have "parse_int64 (format_int (unix now)) = Some (unix now)" by (rule parse_format_int)
  moreover have "abs64 (wrap64 (unix now' - unix now)) \<le> 60"
    using stale_check [OF assms(3,4) \<open>int64 (unix now)\<close>] assms(5) by simp
  ultimately have iff: "verifySvcHMAC now' (received peer q) (hr_Body q) s = (None, s) \<longleftrightarrow>
       svc_signature (fw_secret f) (format_int (unix now)) ''POST'' (url_path (fw_appURL f @ forwardPath)) (hr_Body q) =
       svc_signature (fw_secret f) (format_int (unix now)) ''POST'' forwardPath (hr_Body q)"
    using q(2) assms(2) by (auto simp: verifySvcHMAC_None received_def header_def gm_get_def)
  have "url_path (fw_appURL f @ forwardPath) = forwardPath"
    if "fw_appURL f = scheme @ ''://'' @ host" "origin_parts scheme host" for scheme host
    using url_path_origin [OF that(2), of forwardPath] that(1) by (simp add: forwardPath_def)
  with iff q show ?thesis by auto
qed

theorem forwarded_batch_authentic_witness:
  "\<exists>q. post (\<lambda>es. Some ''[]'') 1700000000 demo_forwarder [org_event ''session.open''] = Some q \<and>
     verifySvcHMAC (1700000003 * second) (received ''10.0.0.9:4711'' q) (hr_Body q) demo_server = (None, demo_server)"
proof -
  obtain q where q: "post (\<lambda>es. Some ''[]'') (unix (1700000000 * second)) demo_forwarder [org_event ''session.open''] = Some q"
    by (simp add: post_def Let_def)
  moreover have "fw_secret demo_forwarder = cf_SvcSecret (sv_cfg demo_server)"
    "fw_appURL demo_forwarder = ''https'' @ ''://'' @ ''app.example''"
    by (simp_all add: demo_forwarder_def demo_server_def demo_config_def)
  moreover have "origin_parts ''https'' ''app.example''" by (simp add: origin_parts_def)
  ultimately have "verifySvcHMAC (1700000003 * second) (received ''10.0.0.9:4711'' q) (hr_Body q) demo_server = (None, demo_server)"
    using forwarded_batch_authentic [OF q, of demo_server "1700000003 * second" "''10.0.0.9:4711''"]
    by (simp only: unix_def) auto
  with q show ?thesis by (auto simp: unix_def)
qed

end
