(* ===== verification/RelayConfig.thy ===== *)
theory RelayConfig
  imports Server EnvFile
begin

text \<open>
  \<open>cmd/relay/secret.go\<close> and \<open>buildConfig\<close> of \<open>cmd/relay/main.go\<close>: the relay's configuration from its
  process environment, and \<open>relay_start\<close>, the part of \<open>main\<close> that loads the environment file,
  builds the configuration and the server, with the exit code of a failure.
\<close>

definition getenv :: "string \<Rightarrow> (string, string) gomap \<Rightarrow> string" where
  "getenv k env = (case gm_get env k of Some v \<Rightarrow> v | None \<Rightarrow> [])"

definition long_enough :: "bytes option \<Rightarrow> bool" where
  "long_enough r \<longleftrightarrow> (case r of Some b \<Rightarrow> 32 \<le> length b | None \<Rightarrow> False)"

definition readSecret :: "string \<Rightarrow> (string, string) gomap \<Rightarrow> string + bytes" where
  "readSecret name env =
     (if getenv name env = [] then Inl (name @ '' missing'')
      else
        (let raw = trim_space (getenv name env) in
         if long_enough (hex_decode raw) then Inr (the (hex_decode raw))
         else if long_enough (raw_std_decode raw) then Inr (the (raw_std_decode raw))
         else if long_enough (std_decode raw) then Inr (the (std_decode raw))
         else if 32 \<le> length raw then Inr raw
         else Inl (name @ '' too short (need '' @ [CHR 0xE2, CHR 0x89, CHR 0xA5] @ '' 32 bytes)'')))"

definition envDefault :: "string \<Rightarrow> string \<Rightarrow> (string, string) gomap \<Rightarrow> string" where
  "envDefault k def env = (let v = getenv k env in if v \<noteq> [] then v else def)"

definition buildConfig :: "(string, string) gomap \<Rightarrow> string + Config" where
  "buildConfig env =
     and_then (readSecret ''RELAY_AGENT_SECRET'' env) (\<lambda>agent.
     and_then (readSecret ''RELAY_SESSION_SECRET'' env) (\<lambda>sess.
     and_then (readSecret ''RELAY_SVC_SECRET'' env) (\<lambda>svc.
       Inr \<lparr>cf_AgentSecret = agent, cf_SessionSecret = sess, cf_SvcSecret = svc,
            cf_OperatorOrigins =
              map trim_space (split_byte CHR '','' (envDefault ''RELAY_OPERATOR_ORIGINS'' ''app.hasfy.fr'' env)),
            cf_AppURL = envDefault ''HASFY_APP_URL'' [] env, cf_MaxFrameBytes = 0, cf_WriteBufSize = 0\<rparr>)))"

text \<open>\<open>read\<close> is what reading a path gives; the exit code is 2 for a bad configuration.\<close>

definition relay_env :: "(string \<Rightarrow> file_read) \<Rightarrow> (string, string) gomap \<Rightarrow> (string, string) gomap" where
  "relay_env read env =
     (let p = getenv ''RELAY_ENV_FILE'' env in relay_loadEnvFile (read (if p \<noteq> [] then p else ''/vault/secrets/env'')) env)"

definition relay_start :: "(string \<Rightarrow> file_read) \<Rightarrow> (string, string) gomap \<Rightarrow> nat + Server" where
  "relay_start read env =
     (case buildConfig (relay_env read env) of
        Inl e \<Rightarrow> Inl 2
      | Inr cfg \<Rightarrow> (case Server_New cfg of Inl e \<Rightarrow> Inl 2 | Inr srv \<Rightarrow> Inr srv))"

section \<open>Properties\<close>

lemma trim_space_suffix:
  assumes "list_all ascii s" "s \<noteq> []" "list_all (\<lambda>c. \<not> space_char c) s" "list_all ascii ws" "list_all space_char ws"
  shows "trim_space (s @ ws) = s"
proof -
  obtain x xs where x: "s = x # xs" "\<not> space_char x" using assms(2,3) by (cases s) auto
  obtain ys y where y: "s = ys @ [y]" "\<not> space_char y" using assms(2,3) by (cases s rule: rev_cases) auto
  have "dropWhile space_char (s @ ws) = s @ ws" using x by simp
  moreover have "dropWhile space_char (rev ws @ rev s) = rev s"
    using assms(5) y by (subst dropWhile_append2) (auto simp: list_all_iff)
  ultimately show ?thesis using assms by (simp add: trim_space_ascii)
qed

lemma hex_digits_not_space: "list_all (\<lambda>n. \<not> space_char (hex_digits ! n)) [0..<16]"
  by code_simp

lemma hex_encode_not_space: "list_all (\<lambda>c. \<not> space_char c) (hex_encode s)"
proof (induction s)
  case (Cons c s)
  have "\<not> space_char (hex_digits ! n)" if "n < 16" for n
    using hex_digits_not_space that by (simp add: list_all_iff)
  with Cons show ?case by simp
qed simp

lemma readSecret_long: "readSecret name env = Inr b \<Longrightarrow> 32 \<le> length b"
  by (auto simp: readSecret_def Let_def long_enough_def split: if_splits option.splits)

text \<open>
  A secret of at least 32 bytes given in hexadecimal, on a line of its own, is read as these bytes.
\<close>

lemma hex_secret_read:
  assumes "32 \<le> length b" and "gm_get env name = Some (hex_encode b @ [CHR 0x0A])"
  shows "readSecret name env = Inr b"
proof -
  have "hex_encode b \<noteq> []" using assms(1) by (cases b) auto
  then have "trim_space (hex_encode b @ [CHR 0x0A]) = hex_encode b"
    using hex_encode_not_space by (intro trim_space_suffix hex_encode_ascii) (auto simp: ascii_def space_char_def list_all_iff)
  then show ?thesis
    using assms hex.decode_encode [of b] by (simp add: readSecret_def getenv_def Let_def long_enough_def)
qed

text \<open>
  A relay whose configuration can be read starts: every secret it found has at least 32 bytes, so
  the server accepts it, with no agent registered, no session attached and limits that are positive.
\<close>

lemma configured_relay_starts:
  assumes "buildConfig env = Inr cfg"
  shows "32 \<le> length (cf_AgentSecret cfg) \<and> 32 \<le> length (cf_SessionSecret cfg) \<and> 32 \<le> length (cf_SvcSecret cfg) \<and>
    cf_OperatorOrigins cfg \<noteq> [] \<and>
    (\<exists>s. Server_New cfg = Inr s \<and> registry_reachable (sv_reg s) \<and> Registry_Count (sv_reg s) = 0 \<and>
       router_reachable (sv_router s) \<and> cf_SvcSecret (sv_cfg s) = cf_SvcSecret cfg \<and>
       0 < cf_MaxFrameBytes (sv_cfg s) \<and> 0 < cf_WriteBufSize (sv_cfg s))"
proof -
  obtain agent sess svc where s: "readSecret ''RELAY_AGENT_SECRET'' env = Inr agent"
      "readSecret ''RELAY_SESSION_SECRET'' env = Inr sess" "readSecret ''RELAY_SVC_SECRET'' env = Inr svc"
    and cfg: "cf_AgentSecret cfg = agent" "cf_SessionSecret cfg = sess" "cf_SvcSecret cfg = svc"
      "cf_OperatorOrigins cfg \<noteq> []" "cf_MaxFrameBytes cfg = 0" "cf_WriteBufSize cfg = 0"
    using assms by (auto simp: buildConfig_def and_then_Inr)
  then have "32 \<le> length agent" "32 \<le> length sess" "32 \<le> length svc" using readSecret_long by blast+
  then show ?thesis
    using cfg registry_reachable.init router_reachable.start
    by (simp add: Server_New_def NewVerifier_def Let_def Registry_Count_def gm_len_def Registry_New_def)
qed

definition demo_relay_env :: "(string, string) gomap" where
  "demo_relay_env =
     [(''RELAY_AGENT_SECRET'', hex_encode (replicate 32 CHR ''a'') @ [CHR 0x0A]),
      (''RELAY_SESSION_SECRET'', hex_encode (replicate 32 CHR ''s'') @ [CHR 0x0A]),
      (''RELAY_SVC_SECRET'', hex_encode (replicate 32 CHR ''k'') @ [CHR 0x0A])]"

lemma demo_relay_env [simp]:
  "gm_get demo_relay_env ''RELAY_AGENT_SECRET'' = Some (hex_encode (replicate 32 CHR ''a'') @ [CHR 0x0A])"
  "gm_get demo_relay_env ''RELAY_SESSION_SECRET'' = Some (hex_encode (replicate 32 CHR ''s'') @ [CHR 0x0A])"
  "gm_get demo_relay_env ''RELAY_SVC_SECRET'' = Some (hex_encode (replicate 32 CHR ''k'') @ [CHR 0x0A])"
  by (simp_all add: demo_relay_env_def gm_get_def)

lemma configured_relay_starts_witness:
  "\<exists>cfg s. buildConfig demo_relay_env = Inr cfg \<and> Server_New cfg = Inr s \<and> registry_reachable (sv_reg s)"
proof -
  have r: "readSecret n demo_relay_env = Inr (replicate 32 c)"
    if "gm_get demo_relay_env n = Some (hex_encode (replicate 32 c) @ [CHR 0x0A])" for n c
    by (rule hex_secret_read [OF _ that]) simp
  obtain cfg where "buildConfig demo_relay_env = Inr cfg"
    using r [of "''RELAY_AGENT_SECRET''"] r [of "''RELAY_SESSION_SECRET''"] r [of "''RELAY_SVC_SECRET''"]
    by (simp add: buildConfig_def)
  with configured_relay_starts [OF this] show ?thesis by blast
qed

end
