(* ===== verification/Enroll.thy ===== *)
theory Enroll
  imports Token RelayConfig
begin

text \<open>
  Self-enrolment: the device authorization flow of \<open>cmd/agent/enroll.go\<close>. Replies and clock readings are
  inputs, one record for each turn of a loop. Both loops may run for ever, so they are partial functions:
  a result \<open>None\<close> is a loop that never returns.
\<close>

section \<open>Messages\<close>

definition defaultPollInterval :: time where "defaultPollInterval = 5 * second"

definition defaultCodeLifetime :: time where "defaultCodeLifetime = 10 * minute"

definition slowDownIncrement :: time where "slowDownIncrement = 5 * second"

record deviceCodeResponse =
  dc_DeviceCode :: string
  dc_UserCode :: string
  dc_VerificationURI :: string
  dc_VerificationURIComplete :: string
  dc_ExpiresIn :: int
  dc_Interval :: int

record deviceFlowTokenResponse =
  df_InstallToken :: string
  df_EquipmentID :: string

record relayEnrollmentResponse =
  re_Success :: bool
  re_RelayURL :: string
  re_DeviceID :: string
  re_OrgID :: string
  re_APIBaseURL :: string
  re_DeviceEnrollmentToken :: string

definition approvalURL :: "deviceCodeResponse \<Rightarrow> string" where
  "approvalURL r = (if dc_VerificationURIComplete r \<noteq> [] then dc_VerificationURIComplete r else dc_VerificationURI r)"

definition pollInterval :: "deviceCodeResponse \<Rightarrow> time" where
  "pollInterval r = (if 0 < dc_Interval r then wrap64 (dc_Interval r * second) else defaultPollInterval)"

definition lifetime :: "deviceCodeResponse \<Rightarrow> time" where
  "lifetime r = (if 0 < dc_ExpiresIn r then wrap64 (dc_ExpiresIn r * second) else defaultCodeLifetime)"

text \<open>The URLs asked and the JSON fields sent.\<close>

record enroll_request =
  er_url :: string
  er_fields :: "(string \<times> string) list"

definition enroll_url :: "string \<Rightarrow> string \<Rightarrow> string" where
  "enroll_url apiBase path = trim_right_byte CHR ''/'' apiBase @ path"

definition deviceCode_request :: "string \<Rightarrow> string \<Rightarrow> string \<Rightarrow> string \<Rightarrow> string \<Rightarrow> enroll_request" where
  "deviceCode_request version apiBase hostname goos goarch =
     \<lparr>er_url = enroll_url apiBase ''/api/v1/auth/device/code'',
      er_fields = [(''hostname'', hostname), (''os'', goos), (''arch'', goarch), (''installerVersion'', version)]\<rparr>"

definition poll_request :: "string \<Rightarrow> deviceCodeResponse \<Rightarrow> enroll_request" where
  "poll_request apiBase code =
     \<lparr>er_url = enroll_url apiBase ''/api/v1/auth/device/token'', er_fields = [(''device_code'', dc_DeviceCode code)]\<rparr>"

definition fetch_request :: "string \<Rightarrow> string \<Rightarrow> enroll_request" where
  "fetch_request apiBase installToken =
     \<lparr>er_url = enroll_url apiBase ''/api/v1/installer/relay-enrollment'', er_fields = [(''token'', installToken)]\<rparr>"

definition requestDeviceCode :: "deviceCodeResponse api_reply \<Rightarrow> string + deviceCodeResponse" where
  "requestDeviceCode r =
     (case r of
        NoReply e \<Rightarrow> Inl e
      | Reply code b \<Rightarrow>
          if code \<noteq> 200 then Inl (''device code request HTTP '' @ format_int code)
          else (case b of
                  None \<Rightarrow> Inl ''decode device code response''
                | Some out \<Rightarrow>
                    if dc_DeviceCode out = [] \<or> dc_UserCode out = [] then Inl ''device code response was incomplete''
                    else Inr out))"

definition fetchRelayEnrollment :: "relayEnrollmentResponse api_reply \<Rightarrow> string + relayEnrollmentResponse" where
  "fetchRelayEnrollment r =
     (case r of
        NoReply e \<Rightarrow> Inl e
      | Reply code b \<Rightarrow>
          if code \<noteq> 200 then Inl (''relay enrollment HTTP '' @ format_int code)
          else (case b of
                  None \<Rightarrow> Inl ''decode relay enrollment response''
                | Some out \<Rightarrow>
                    if \<not> re_Success out \<or> re_DeviceID out = [] \<or> re_RelayURL out = []
                    then Inl ''relay enrollment response was incomplete'' else Inr out))"

section \<open>Polling for approval\<close>

text \<open>
  One turn: the clock at its start, whether the wait ended by \<open>ctx.Done\<close> (with the context's error), and the
  reply: a status with the decoded token, or the \<open>error\<close> field of the body.
\<close>

datatype poll_reply = PollLost string | PollOk "deviceFlowTokenResponse option" | PollError string

record poll_turn =
  pt_now :: time
  pt_ctx :: "string option"
  pt_reply :: poll_reply

datatype poll_end = PollRefused | PollFailed string | Approved deviceFlowTokenResponse

definition poll_step :: "time \<Rightarrow> time \<Rightarrow> poll_turn \<Rightarrow> poll_end + time" where
  "poll_step deadline interval w =
     (if deadline < pt_now w then Inl PollRefused
      else (case pt_ctx w of
              Some e \<Rightarrow> Inl (PollFailed e)
            | None \<Rightarrow>
                (case pt_reply w of
                   PollLost e \<Rightarrow> Inr interval
                 | PollOk None \<Rightarrow> Inl (PollFailed ''decode token response'')
                 | PollOk (Some out) \<Rightarrow>
                     if df_InstallToken out = [] then Inl (PollFailed ''token response carried no install token'')
                     else Inl (Approved out)
                 | PollError e \<Rightarrow>
                     if e = ''authorization_pending'' then Inr interval
                     else if e = ''slow_down'' then Inr (interval + slowDownIncrement)
                     else if e = ''access_denied'' \<or> e = ''expired_token'' then Inl PollRefused
                     else Inl (PollFailed (''enrollment failed: '' @ e)))))"

text \<open>The result comes with the number of the turn it was reached in.\<close>

partial_function (option) poll_loop :: "(nat \<Rightarrow> poll_turn) \<Rightarrow> time \<Rightarrow> nat \<Rightarrow> time \<Rightarrow> (poll_end \<times> nat) option" where
  "poll_loop w deadline n interval =
     (case poll_step deadline interval (w n) of
        Inl e \<Rightarrow> Some (e, n)
      | Inr interval' \<Rightarrow> poll_loop w deadline (Suc n) interval')"

definition pollForInstallToken :: "(nat \<Rightarrow> poll_turn) \<Rightarrow> time \<Rightarrow> deviceCodeResponse \<Rightarrow> (poll_end \<times> nat) option" where
  "pollForInstallToken w start code = poll_loop w (start + lifetime code) 0 (pollInterval code)"

section \<open>The whole flow\<close>

record EnrollmentStatus =
  st_State :: string
  st_UserCode :: string
  st_VerificationURI :: string
  st_Message :: string

definition status_error :: EnrollmentStatus where
  "status_error =
     \<lparr>st_State = ''error'', st_UserCode = [], st_VerificationURI = [],
      st_Message = ''Could not reach Hasfy to start enrolment; retrying.''\<rparr>"

definition status_awaiting :: "deviceCodeResponse \<Rightarrow> EnrollmentStatus" where
  "status_awaiting code =
     \<lparr>st_State = ''awaiting_approval'', st_UserCode = dc_UserCode code, st_VerificationURI = approvalURL code, st_Message = []\<rparr>"

definition status_enrolled :: EnrollmentStatus where
  "status_enrolled = \<lparr>st_State = ''enrolled'', st_UserCode = [], st_VerificationURI = [], st_Message = []\<rparr>"

fun firstNonEmpty :: "string list \<Rightarrow> string" where
  "firstNonEmpty [] = []"
| "firstNonEmpty (v # vs) = (if v \<noteq> [] then v else firstNonEmpty vs)"

definition enrolled_values :: "string \<Rightarrow> relayEnrollmentResponse \<Rightarrow> (string, string) gomap" where
  "enrolled_values apiBase e =
     [(''HASFY_API_URL'', firstNonEmpty [re_APIBaseURL e, apiBase]),
      (''HASFY_RELAY_URL'', re_RelayURL e),
      (''HASFY_DEVICE_ID'', re_DeviceID e),
      (''HASFY_ORG_ID'', re_OrgID e),
      (envDeviceEnrollmentToken, re_DeviceEnrollmentToken e)]"

definition isEnrolled :: "(string, string) gomap \<Rightarrow> bool" where
  "isEnrolled env \<longleftrightarrow>
     getenv ''HASFY_DEVICE_ID'' env \<noteq> [] \<and> getenv ''HASFY_ORG_ID'' env \<noteq> [] \<and> getenv ''HASFY_RELAY_URL'' env \<noteq> []"

text \<open>
  One turn of the outer loop: the context at its start, the three exchanges, the clock when polling starts,
  the context during the minute's wait, the outcomes of writing the environment file and each status, and the
  order in which \<open>range\<close> visits the map of values.
\<close>

record enroll_turn =
  et_ctx :: "string option"
  et_code :: "deviceCodeResponse api_reply"
  et_wait :: "string option"
  et_start :: time
  et_polls :: "nat \<Rightarrow> poll_turn"
  et_fetch :: "relayEnrollmentResponse api_reply"
  et_write :: "fs_outcome list"
  et_order :: "(string \<times> string) list"
  et_status :: "fs_outcome list"
  et_status2 :: "fs_outcome list"

record enroll_files =
  ef_env :: dir
  ef_status :: dir

datatype enroll_end = EnrollFailed string | Enrolled "(string, string) gomap"

definition publish ::
  "(EnrollmentStatus \<Rightarrow> bytes) \<Rightarrow> string \<Rightarrow> EnrollmentStatus \<Rightarrow> fs_outcome list \<Rightarrow> enroll_files \<Rightarrow> enroll_files" where
  "publish json statusPath st outs fs =
     fs\<lparr>ef_status := snd (writeEnrollmentStatus statusPath (json st) outs (ef_status fs))\<rparr>"

text \<open>\<open>Inr\<close> starts another turn.\<close>

definition enroll_finish ::
  "(EnrollmentStatus \<Rightarrow> bytes) \<Rightarrow> string \<Rightarrow> string \<Rightarrow> enroll_turn \<Rightarrow> enroll_files \<Rightarrow> enroll_end \<times> enroll_files" where
  "enroll_finish json statusPath apiBase w fs =
     (case fetchRelayEnrollment (et_fetch w) of
        Inl e \<Rightarrow> (EnrollFailed (''relay enrollment: '' @ e), fs)
      | Inr e \<Rightarrow>
          (let vals = enrolled_values apiBase e in
           case writeEnvFile (et_order w) vals (et_write w) (ef_env fs) of
             (Done, d) \<Rightarrow> (Enrolled vals, publish json statusPath status_enrolled (et_status2 w) (fs\<lparr>ef_env := d\<rparr>))
           | (Failed e, d) \<Rightarrow> (EnrollFailed (''persist enrollment: '' @ e), fs\<lparr>ef_env := d\<rparr>)
           | (Crashed, d) \<Rightarrow> (EnrollFailed ''crashed'', fs\<lparr>ef_env := d\<rparr>)))"

definition enroll_step ::
  "(EnrollmentStatus \<Rightarrow> bytes) \<Rightarrow> string \<Rightarrow> string \<Rightarrow> enroll_turn \<Rightarrow> enroll_files \<Rightarrow> (enroll_end option \<times> enroll_files) option" where
  "enroll_step json statusPath apiBase w fs =
     (case et_ctx w of
        Some e \<Rightarrow> Some (Some (EnrollFailed e), fs)
      | None \<Rightarrow>
          (case requestDeviceCode (et_code w) of
             Inl e \<Rightarrow>
               (let fs1 = publish json statusPath status_error (et_status w) fs
                in Some (map_option EnrollFailed (et_wait w), fs1))
           | Inr code \<Rightarrow>
               (let fs1 = publish json statusPath (status_awaiting code) (et_status w) fs in
                case pollForInstallToken (et_polls w) (et_start w) code of
                  None \<Rightarrow> None
                | Some (PollRefused, n) \<Rightarrow> Some (None, fs1)
                | Some (PollFailed e, n) \<Rightarrow> Some (Some (EnrollFailed e), fs1)
                | Some (Approved token, n) \<Rightarrow>
                    (case enroll_finish json statusPath apiBase w fs1 of (r, fs2) \<Rightarrow> Some (Some r, fs2)))))"

partial_function (option) runSelfEnrollment ::
  "(EnrollmentStatus \<Rightarrow> bytes) \<Rightarrow> string \<Rightarrow> string \<Rightarrow> (nat \<Rightarrow> enroll_turn) \<Rightarrow> nat \<Rightarrow> enroll_files \<Rightarrow> (enroll_end \<times> enroll_files) option" where
  "runSelfEnrollment json statusPath apiBase w n fs =
     (case enroll_step json statusPath apiBase (w n) fs of
        None \<Rightarrow> None
      | Some (r, fs') \<Rightarrow>
          (case r of
             Some e \<Rightarrow> Some (e, fs')
           | None \<Rightarrow> runSelfEnrollment json statusPath apiBase w (Suc n) fs'))"

section \<open>Polling always ends\<close>

lemma poll_step_Inr: "poll_step deadline i w = Inr i' \<Longrightarrow> i \<le> i' \<and> pt_now w \<le> deadline"
  by (auto simp: poll_step_def slowDownIncrement_def split: if_splits option.splits poll_reply.splits)

lemma poll_step_late: "deadline < pt_now w \<Longrightarrow> poll_step deadline i w = Inl PollRefused"
  by (simp add: poll_step_def)

lemma poll_loop_ends:
  assumes clock: "\<And>k. pt_now (w k) + step \<le> pt_now (w (Suc k))"
  shows "deadline < pt_now (w n) + int k * step \<Longrightarrow> \<exists>e m. poll_loop w deadline n i = Some (e, m) \<and> m \<le> n + k"
proof (induction k arbitrary: n i)
  case 0
  then show ?case by (subst poll_loop.simps) (simp add: poll_step_late)
next
  case (Suc k)
  show ?case
  proof (cases "poll_step deadline i (w n)")
    case (Inl e)
    then show ?thesis by (subst poll_loop.simps) simp
  next
    case (Inr i')
    have "deadline < pt_now (w (Suc n)) + int k * step"
      using Suc.prems clock [of n] by (simp add: algebra_simps)
    from Suc.IH [OF this, of i'] obtain e m where "poll_loop w deadline (Suc n) i' = Some (e, m)" "m \<le> Suc n + k"
      by blast
    with Inr show ?thesis by (subst poll_loop.simps) simp
  qed
qed

text \<open>A reply that keeps the loop going, and what a result says of the turns before it.\<close>

definition keeps_polling :: "poll_turn \<Rightarrow> bool" where
  "keeps_polling w \<longleftrightarrow> pt_ctx w = None \<and>
     (case pt_reply w of PollLost e \<Rightarrow> True | PollError e \<Rightarrow> e = ''authorization_pending'' \<or> e = ''slow_down'' | PollOk b \<Rightarrow> False)"

lemma poll_step_keeps: "poll_step deadline i w = Inr i' \<Longrightarrow> keeps_polling w"
  by (auto simp: poll_step_def keeps_polling_def split: if_splits option.splits poll_reply.splits)

lemma poll_step_approved:
  "poll_step deadline i w = Inl (Approved out) \<Longrightarrow>
   pt_reply w = PollOk (Some out) \<and> df_InstallToken out \<noteq> [] \<and> pt_now w \<le> deadline"
  by (auto simp: poll_step_def split: if_splits option.splits poll_reply.splits)

lemma poll_loop_result:
  assumes "poll_loop w deadline n i = Some em"
  shows "n \<le> snd em \<and> (\<exists>i'. poll_step deadline i' (w (snd em)) = Inl (fst em)) \<and> (\<forall>k. n \<le> k \<and> k < snd em \<longrightarrow> keeps_polling (w k))"
proof (rule poll_loop.raw_induct [where P = "\<lambda>w deadline n i em. n \<le> snd em \<and>
      (\<exists>i'. poll_step deadline i' (w (snd em)) = Inl (fst em)) \<and> (\<forall>k. n \<le> k \<and> k < snd em \<longrightarrow> keeps_polling (w k))", OF _ assms])
  fix loop :: "(nat \<Rightarrow> poll_turn) \<Rightarrow> time \<Rightarrow> nat \<Rightarrow> time \<Rightarrow> (poll_end \<times> nat) option"
  fix w :: "nat \<Rightarrow> poll_turn" and deadline i :: time and n :: nat and em
  assume IH: "\<And>w deadline n i em. loop w deadline n i = Some em \<Longrightarrow> n \<le> snd em \<and>
      (\<exists>i'. poll_step deadline i' (w (snd em)) = Inl (fst em)) \<and> (\<forall>k. n \<le> k \<and> k < snd em \<longrightarrow> keeps_polling (w k))"
    and eq: "(case poll_step deadline i (w n) of Inl e \<Rightarrow> Some (e, n) | Inr i' \<Rightarrow> loop w deadline (Suc n) i') = Some em"
  show "n \<le> snd em \<and> (\<exists>i'. poll_step deadline i' (w (snd em)) = Inl (fst em)) \<and> (\<forall>k. n \<le> k \<and> k < snd em \<longrightarrow> keeps_polling (w k))"
  proof (cases "poll_step deadline i (w n)")
    case (Inl e)
    with eq show ?thesis by auto
  next
    case (Inr i')
    with eq have "loop w deadline (Suc n) i' = Some em" by simp
    from IH [OF this] poll_step_keeps [OF Inr] show ?thesis
      by (metis Suc_leI Suc_le_eq le_eq_less_or_eq less_Suc_eq_le Suc_leD)
  qed
qed

lemma less_next_multiple: "0 < (i::int) \<Longrightarrow> L < (L div i + 1) * i"
proof -
  assume i: "0 < i"
  have "L div i * i + L mod i = L" by simp
  moreover have "L mod i < i" using i by simp
  ultimately show ?thesis unfolding distrib_right by linarith
qed

text \<open>
  C26. Waiting for approval always ends. When the clock never runs backwards and no timer fires before its
  time, the loop returns after at most one more turn than intervals fit in the code's lifetime, whatever the
  server answers and however often it is lost; and when it returns a token, that is the one the server gave
  in that turn, before the deadline, after nothing but \<open>authorization_pending\<close>, \<open>slow_down\<close> and lost replies.
\<close>

theorem poll_terminates:
  assumes "0 < pollInterval code" "start \<le> pt_now (w 0)"
    and "\<And>n. pt_now (w n) + pollInterval code \<le> pt_now (w (Suc n))"
  shows "\<exists>e m. pollForInstallToken w start code = Some (e, m) \<and>
    int m \<le> max 0 (lifetime code) div pollInterval code + 1 \<and>
    (\<forall>k < m. keeps_polling (w k)) \<and>
    (\<forall>out. e = Approved out \<longrightarrow>
       pt_reply (w m) = PollOk (Some out) \<and> df_InstallToken out \<noteq> [] \<and> pt_now (w m) \<le> start + lifetime code)"
proof -
  let ?L = "max 0 (lifetime code)" and ?i = "pollInterval code"
  let ?k = "nat (?L div ?i) + 1"
  have "int ?k = ?L div ?i + 1" using assms(1) pos_imp_zdiv_nonneg_iff [of ?i ?L] by simp
  with less_next_multiple [OF assms(1), of ?L] have "?L < int ?k * ?i" by (simp only:)
  then have "start + lifetime code < pt_now (w 0) + int ?k * ?i" using assms(2) by linarith
  from poll_loop_ends [OF assms(3) this, of ?i] obtain e m where
    r: "poll_loop w (start + lifetime code) 0 ?i = Some (e, m)" and m: "m \<le> 0 + ?k" by blast
  have "int m \<le> ?L div ?i + 1"
    using m pos_imp_zdiv_nonneg_iff [of ?i ?L] assms(1) by linarith
  with r poll_loop_result [OF r] show ?thesis
    by (auto simp: pollForInstallToken_def dest: poll_step_approved)
qed

definition demo_code :: deviceCodeResponse where
  "demo_code =
     \<lparr>dc_DeviceCode = ''dc'', dc_UserCode = ''ABCD'', dc_VerificationURI = ''https://app.hasfy.fr/device'',
      dc_VerificationURIComplete = [], dc_ExpiresIn = 600, dc_Interval = 5\<rparr>"

definition demo_polls :: "nat \<Rightarrow> poll_turn" where
  "demo_polls n =
     \<lparr>pt_now = int n * (5 * second), pt_ctx = None,
      pt_reply = (if n = 2 then PollOk (Some \<lparr>df_InstallToken = ''it'', df_EquipmentID = ''eq''\<rparr>)
                  else PollError ''authorization_pending'')\<rparr>"

lemma demo_code_times: "pollInterval demo_code = 5 * second" "lifetime demo_code = 600 * second"
  by (simp_all add: demo_code_def pollInterval_def lifetime_def wrap64_def)

theorem poll_terminates_witness:
  "\<exists>e m. pollForInstallToken demo_polls 0 demo_code = Some (e, m) \<and> int m \<le> 121"
proof -
  have "pt_now (demo_polls n) + pollInterval demo_code \<le> pt_now (demo_polls (Suc n))" for n
    by (simp add: demo_polls_def demo_code_times)
  moreover have "0 < pollInterval demo_code" "0 \<le> pt_now (demo_polls 0)"
    by (simp_all add: demo_code_times demo_polls_def)
  ultimately obtain e m where "pollForInstallToken demo_polls 0 demo_code = Some (e, m)"
      "int m \<le> max 0 (lifetime demo_code) div pollInterval demo_code + 1"
    using poll_terminates [of demo_code 0 demo_polls] by blast
  then show ?thesis by (auto simp: demo_code_times)
qed

section \<open>A device that is approved is enrolled\<close>

text \<open>A turn that ends with a fresh code being offered, and one in which everything succeeds.\<close>

definition offers_again :: "enroll_turn \<Rightarrow> bool" where
  "offers_again w \<longleftrightarrow> et_ctx w = None \<and>
     (case requestDeviceCode (et_code w) of
        Inl e \<Rightarrow> et_wait w = None
      | Inr code \<Rightarrow> map_option fst (pollForInstallToken (et_polls w) (et_start w) code) = Some PollRefused)"

definition succeeds_with :: "enroll_turn \<Rightarrow> relayEnrollmentResponse \<Rightarrow> bool" where
  "succeeds_with w e \<longleftrightarrow> et_ctx w = None \<and>
     (case requestDeviceCode (et_code w) of
        Inl _ \<Rightarrow> False
      | Inr code \<Rightarrow>
          (case pollForInstallToken (et_polls w) (et_start w) code of Some (Approved t, n) \<Rightarrow> True | _ \<Rightarrow> False)) \<and>
     fetchRelayEnrollment (et_fetch w) = Inr e \<and> set (et_write w) \<subseteq> {FsOk}"

lemma enroll_step_again: "offers_again w \<Longrightarrow> \<exists>fs'. enroll_step json sp api w fs = Some (None, fs') \<and> ef_env fs' = ef_env fs"
  by (auto simp: enroll_step_def offers_again_def publish_def Let_def split: option.splits sum.splits)

lemma enroll_step_succeeds:
  assumes "succeeds_with w e"
  shows "\<exists>fs' d. enroll_step json sp api w fs = Some (Some (Enrolled (enrolled_values api e)), fs') \<and> ef_env fs' = d \<and>
    writeEnvFile (et_order w) (enrolled_values api e) (et_write w) (ef_env fs) = (Done, d)"
proof -
  obtain d where "writeEnvFile (et_order w) (enrolled_values api e) (et_write w) (ef_env fs) = (Done, d)"
    using env_update.all_ok [of "et_write w" "et_order w" "enrolled_values api e" "ef_env fs"] assms
    by (simp add: succeeds_with_def) blast
  with assms show ?thesis
    by (auto simp: enroll_step_def succeeds_with_def enroll_finish_def publish_def Let_def
        split: option.splits sum.splits prod.splits poll_end.splits)
qed

lemma enroll_runs_to:
  assumes "\<And>k. n \<le> k \<Longrightarrow> k < n + m \<Longrightarrow> offers_again (w k)"
  shows "\<exists>fs'. runSelfEnrollment json sp api w n fs = runSelfEnrollment json sp api w (n + m) fs' \<and> ef_env fs' = ef_env fs"
  using assms
proof (induction m arbitrary: n fs)
  case (Suc m)
  obtain fs1 where s: "enroll_step json sp api (w n) fs = Some (None, fs1)" "ef_env fs1 = ef_env fs"
    using enroll_step_again Suc.prems [of n] by force
  then have "runSelfEnrollment json sp api w n fs = runSelfEnrollment json sp api w (Suc n) fs1"
    by (subst runSelfEnrollment.simps) simp
  with Suc.IH [of "Suc n" fs1] Suc.prems s(2) show ?case by auto
qed auto

lemma fetched_complete:
  "fetchRelayEnrollment r = Inr e \<Longrightarrow> re_DeviceID e \<noteq> [] \<and> re_RelayURL e \<noteq> []"
  by (auto simp: fetchRelayEnrollment_def split: api_reply.splits option.splits if_splits)

lemma enrollment_run:
  assumes "\<And>k. k < n \<Longrightarrow> offers_again (w k)" "succeeds_with (w n) e"
    and "env_clean (enrolled_values api e)" "mset (et_order (w n)) = mset (enrolled_values api e)"
  obtains fs' f m where "runSelfEnrollment json sp api w 0 fs = Some (Enrolled (enrolled_values api e), fs')"
    "d_file (ef_env fs') = Some f" "fl_mode f = 384" "loadEnvFile (Contents (fl_data f)) = (None, m)"
    "\<And>k. getenv k m = getenv k (enrolled_values api e)"
proof -
  obtain fs1 where fs1: "runSelfEnrollment json sp api w 0 fs = runSelfEnrollment json sp api w n fs1"
    using enroll_runs_to [of 0 n w json sp api fs] assms(1) by auto
  obtain fs' where step: "enroll_step json sp api (w n) fs1 = Some (Some (Enrolled (enrolled_values api e)), fs')"
    and wr: "writeEnvFile (et_order (w n)) (enrolled_values api e) (et_write (w n)) (ef_env fs1) = (Done, ef_env fs')"
    using enroll_step_succeeds [OF assms(2)] by blast
  have run: "runSelfEnrollment json sp api w 0 fs = Some (Enrolled (enrolled_values api e), fs')"
    unfolding fs1 by (subst runSelfEnrollment.simps) (simp add: step)
  from env_update.success [OF wr] load_env_text [OF assms(3,4)] obtain m where
    f: "d_file (ef_env fs') = Some \<lparr>fl_mode = 384, fl_data = env_text (et_order (w n)) (enrolled_values api e)\<rparr>"
    and m: "loadEnvFile (Contents (env_text (et_order (w n)) (enrolled_values api e))) = (None, m)"
      "\<And>k. gm_get m k = (case gm_get (enrolled_values api e) k of Some v \<Rightarrow> if v = [] then None else Some v | None \<Rightarrow> None)"
    by blast
  have "getenv k m = getenv k (enrolled_values api e)" for k
    by (simp add: getenv_def m(2) split: option.split)
  with that [OF run f] m(1) show ?thesis by simp
qed

lemma getenv_enrolled_values:
  "getenv ''HASFY_DEVICE_ID'' (enrolled_values api e) = re_DeviceID e"
  "getenv ''HASFY_ORG_ID'' (enrolled_values api e) = re_OrgID e"
  "getenv ''HASFY_RELAY_URL'' (enrolled_values api e) = re_RelayURL e"
  "getenv ''HASFY_API_URL'' (enrolled_values api e) = firstNonEmpty [re_APIBaseURL e, api]"
  "getenv envDeviceEnrollmentToken (enrolled_values api e) = re_DeviceEnrollmentToken e"
  by (simp_all add: enrolled_values_def getenv_def gm_get_def envDeviceEnrollmentToken_def)

lemma enrolled_values_enrolled:
  assumes "succeeds_with w e" "\<And>k. getenv k m = getenv k (enrolled_values api e)"
  shows "isEnrolled m \<longleftrightarrow> re_OrgID e \<noteq> []"
proof -
  have "re_DeviceID e \<noteq> [] \<and> re_RelayURL e \<noteq> []"
    using assms(1) fetched_complete by (auto simp: succeeds_with_def)
  then show ?thesis by (simp add: isEnrolled_def assms(2) getenv_enrolled_values)
qed

text \<open>
  Enrolment is never given up: however many codes lapse, are refused or cannot be requested, a turn that is
  approved and answered enrols the device. The flow then returns the configuration, the environment
  file has mode 0600 and loads back to it, and the next start finds the device enrolled, provided the
  server named an organisation: \<open>fetchRelayEnrollment\<close> does not require one, but \<open>isEnrolled\<close> does.
\<close>

lemma enrollment_completes:
  assumes "\<And>k. k < n \<Longrightarrow> offers_again (w k)" "succeeds_with (w n) e"
    and "env_clean (enrolled_values api e)" "mset (et_order (w n)) = mset (enrolled_values api e)"
  shows "\<exists>fs' f m. runSelfEnrollment json sp api w 0 fs = Some (Enrolled (enrolled_values api e), fs') \<and>
    d_file (ef_env fs') = Some f \<and> fl_mode f = 384 \<and> loadEnvFile (Contents (fl_data f)) = (None, m) \<and>
    (isEnrolled m \<longleftrightarrow> re_OrgID e \<noteq> []) \<and> getenv ''HASFY_DEVICE_ID'' m = re_DeviceID e"
proof -
  obtain fs' f m where run: "runSelfEnrollment json sp api w 0 fs = Some (Enrolled (enrolled_values api e), fs')"
    "d_file (ef_env fs') = Some f" "fl_mode f = 384" "loadEnvFile (Contents (fl_data f)) = (None, m)"
    and m: "\<And>k. getenv k m = getenv k (enrolled_values api e)"
    using enrollment_run [where w = w and n = n, OF assms] by blast
  with enrolled_values_enrolled [OF assms(2) m] show ?thesis
    by (auto simp: m getenv_enrolled_values)
qed

definition demo_enrollment :: relayEnrollmentResponse where
  "demo_enrollment =
     \<lparr>re_Success = True, re_RelayURL = ''wss://relay.hasfy.fr/agent/ws'', re_DeviceID = ''d1'', re_OrgID = ''o1'',
      re_APIBaseURL = [], re_DeviceEnrollmentToken = ''one-shot''\<rparr>"

definition demo_turn :: "nat \<Rightarrow> enroll_turn" where
  "demo_turn n =
     \<lparr>et_ctx = None, et_code = (if n = 0 then NoReply ''no network'' else Reply 200 (Some demo_code)), et_wait = None,
      et_start = 0, et_polls = (\<lambda>k. (demo_polls (Suc (Suc k)))), et_fetch = Reply 200 (Some demo_enrollment),
      et_write = [], et_order = enrolled_values ''https://app.hasfy.fr'' demo_enrollment, et_status = [FsFail ''disk full'' 0],
      et_status2 = []\<rparr>"

lemma demo_turns: "offers_again (demo_turn 0)" "succeeds_with (demo_turn 1) demo_enrollment"
proof -
  show "offers_again (demo_turn 0)"
    by (simp add: offers_again_def demo_turn_def requestDeviceCode_def)
  have "pollForInstallToken (\<lambda>k. demo_polls (Suc (Suc k))) 0 demo_code =
      Some (Approved \<lparr>df_InstallToken = ''it'', df_EquipmentID = ''eq''\<rparr>, 0)"
    unfolding pollForInstallToken_def
    by (subst poll_loop.simps) (simp add: poll_step_def demo_polls_def demo_code_times)
  then show "succeeds_with (demo_turn 1) demo_enrollment"
    by (simp add: succeeds_with_def demo_turn_def requestDeviceCode_def demo_code_def [symmetric]
        fetchRelayEnrollment_def demo_enrollment_def [symmetric])
      (simp add: demo_code_def demo_enrollment_def)
qed

lemma enrollment_completes_witness:
  "\<exists>fs' f m. runSelfEnrollment (\<lambda>_. ''{}'') ''/etc/hasfy/status'' ''https://app.hasfy.fr'' demo_turn 0 \<lparr>ef_env = empty_dir, ef_status = empty_dir\<rparr> =
     Some (Enrolled (enrolled_values ''https://app.hasfy.fr'' demo_enrollment), fs') \<and>
     d_file (ef_env fs') = Some f \<and> loadEnvFile (Contents (fl_data f)) = (None, m) \<and> isEnrolled m"
proof -
  have "env_clean (enrolled_values ''https://app.hasfy.fr'' demo_enrollment)"
    by (simp add: env_clean_def enrolled_values_def demo_enrollment_def gm_wf_def envDeviceEnrollmentToken_def env_entry_def
        env_name_def env_name_char_def env_value_def ascii_def space_char_def unquote_def quoted_by_def)
  moreover have "mset (et_order (demo_turn 1)) = mset (enrolled_values ''https://app.hasfy.fr'' demo_enrollment)"
    by (simp add: demo_turn_def)
  moreover have "offers_again (demo_turn k)" if "k < 1" for k
    using that demo_turns(1) by simp
  ultimately show ?thesis
    using enrollment_completes [of 1 demo_turn demo_enrollment "''https://app.hasfy.fr''" "\<lambda>_. ''{}''" "''/etc/hasfy/status''"
        "\<lparr>ef_env = empty_dir, ef_status = empty_dir\<rparr>"] demo_turns(2)
    by (auto simp: demo_enrollment_def)
qed

end
