(* ===== verification/Ticket.thy ===== *)
theory Ticket
  imports Enroll
begin

text \<open>
  \<open>cmd/agent/ticket.go\<close>: a report from the machine's user. The flags, as package flag parses them, and the
  server's reply are inputs; the results are the exit code, what is printed and the report that was sent.
\<close>

definition ticketMaxTitle :: nat where "ticketMaxTitle = 150"

definition ticketMaxBody :: nat where "ticketMaxBody = 2000"

definition ticketCategories :: "string list" where
  "ticketCategories = [''hardware'', ''software'', ''network'', ''performance'', ''security'', ''other'']"

record ticketRequest =
  tq_Category :: string
  tq_Title :: string
  tq_Description :: string
  tq_AgentVersion :: string

record ticketResponse =
  tp_Success :: bool
  tp_TicketID :: string
  tp_Deduplicated :: bool
  tp_Error :: string

definition validCategory :: "string \<Rightarrow> bool" where
  "validCategory c \<longleftrightarrow> c \<in> set ticketCategories"

definition postTicket_request :: "string \<Rightarrow> string \<Rightarrow> string \<Rightarrow> bytes \<Rightarrow> device_request" where
  "postTicket_request version apiBase assertion json =
     postJSON version (trim_right_byte CHR ''/'' apiBase @ ''/api/v1/device/tickets'') assertion [] json"

text \<open>\<open>Reply code (Some p)\<close>: \<open>p\<close> is what decoding left in \<open>parsed\<close>; \<open>Reply code None\<close>: the body could not be read.\<close>

definition postTicket :: "string + string \<Rightarrow> ticketResponse api_reply \<Rightarrow> api_error + ticketResponse" where
  "postTicket signed_assertion r =
     (case signed_assertion of
        Inl e \<Rightarrow> Inl (ApiError (''sign assertion: '' @ e))
      | Inr assertion \<Rightarrow>
          (case r of
             NoReply e \<Rightarrow> Inl (ApiError e)
           | Reply code None \<Rightarrow> Inl (ApiError ''unexpected EOF'')
           | Reply code (Some p) \<Rightarrow>
               if code = 200 then Inr p
               else if code = 401 then Inl errDeviceRefused
               else if code = 429 then
                 Inl (ApiError (if tp_Error p = [] then ''too many reports from this device recently'' else tp_Error p))
               else if tp_Error p \<noteq> [] then Inl (ApiError (tp_Error p @ '' (HTTP '' @ format_int code @ '')''))
               else Inl (ApiError (''ticket HTTP '' @ format_int code))))"

section \<open>The command\<close>

definition defaultAPIBaseURL :: string where "defaultAPIBaseURL = ''https://app.hasfy.fr''"

record ticket_flags =
  tf_category :: string
  tf_title :: string
  tf_message :: string
  tf_json :: bool

text \<open>
  What the command finds: the process environment, what reading a file gives, whether \<open>os.Stat\<close> of it
  succeeds, what \<open>loadOrCreateIdentity\<close> returns for a key file and a device, the signature, the reply.
\<close>

record ticket_world =
  tw_version :: string
  tw_goos :: string
  tw_env :: "(string, string) gomap"
  tw_read :: "string \<Rightarrow> file_read"
  tw_stat :: "string \<Rightarrow> bool"
  tw_load :: "string \<Rightarrow> string \<Rightarrow> string + (deviceIdentity \<times> bool)"
  tw_sign :: "deviceIdentity \<Rightarrow> string + string"
  tw_reply :: "ticketResponse api_reply"
  tw_encode :: "ticketResponse \<Rightarrow> string"

text \<open>Where the device's environment and key are.\<close>

definition ticket_env_path :: "ticket_world \<Rightarrow> string" where
  "ticket_env_path w =
     (if getenv ''HASFY_ENV_FILE'' (tw_env w) = [] then defaultEnvFilePath (tw_goos w) else getenv ''HASFY_ENV_FILE'' (tw_env w))"

definition ticket_key_path :: "ticket_world \<Rightarrow> string" where
  "ticket_key_path w =
     (if getenv ''HASFY_DEVICE_KEY_FILE'' (tw_env w) = [] then defaultKeyPath (tw_goos w)
      else getenv ''HASFY_DEVICE_KEY_FILE'' (tw_env w))"

definition loadDeviceContext :: "ticket_world \<Rightarrow> string + (string \<times> deviceIdentity)" where
  "loadDeviceContext w =
     (let envPath = ticket_env_path w; keyPath = ticket_key_path w
      in case loadEnvFile (tw_read w envPath) of
        (Some e, env) \<Rightarrow> Inl (''read '' @ envPath @ '': '' @ e)
      | (None, env) \<Rightarrow>
          if \<not> isEnrolled env then Inl ''this device is not enrolled yet; the agent enrols itself on first start''
          else if \<not> tw_stat w keyPath then
            Inl (''device key not readable at '' @ keyPath @ '' (the daemon owns it; try with sudo)'')
          else (case tw_load w keyPath (getenv ''HASFY_DEVICE_ID'' env) of
                  Inl e \<Rightarrow> Inl (''device identity: '' @ e)
                | Inr (i, True) \<Rightarrow> Inl ''the device key is unusable; ask an administrator to re-enrol this machine''
                | Inr (i, False) \<Rightarrow> Inr (firstNonEmpty [getenv ''HASFY_API_URL'' env, defaultAPIBaseURL], i)))"

record ticket_result =
  tk_code :: int
  tk_stdout :: string
  tk_stderr :: string
  tk_sent :: "ticketRequest option"

definition ticket_failed :: "int \<Rightarrow> string \<Rightarrow> ticketRequest option \<Rightarrow> ticket_result" where
  "ticket_failed code msg sent = \<lparr>tk_code = code, tk_stdout = [], tk_stderr = ''error: '' @ msg @ [CHR 0x0A], tk_sent = sent\<rparr>"

definition ticket_report :: "ticket_world \<Rightarrow> ticket_flags \<Rightarrow> ticketResponse \<Rightarrow> string" where
  "ticket_report w fl p =
     (if tf_json fl then tw_encode w p
      else if tp_Deduplicated p then ''Already reported '' @ [CHR 0xE2, CHR 0x80, CHR 0x94] @ '' added to open ticket '' @ tp_TicketID p
      else ''Ticket '' @ tp_TicketID p @ '' opened'') @ [CHR 0x0A]"

text \<open>The three checks of the arguments, and the request that is built from arguments that pass.\<close>

definition ticket_usage :: "ticket_flags \<Rightarrow> string option" where
  "ticket_usage fl =
     (if trim_space (tf_title fl) = [] then Some ''--title is required''
      else if trim_space (tf_message fl) = [] then Some ''--message is required''
      else if \<not> validCategory (tf_category fl) then Some (''--category must be one of: '' @ join '', '' ticketCategories)
      else None)"

definition ticket_request :: "string \<Rightarrow> ticket_flags \<Rightarrow> ticketRequest" where
  "ticket_request version fl =
     (let title = trim_space (tf_title fl); description = trim_space (tf_message fl)
      in \<lparr>tq_Category = tf_category fl,
          tq_Title = (if ticketMaxTitle < length title then take ticketMaxTitle title else title),
          tq_Description = (if ticketMaxBody < length description then take ticketMaxBody description else description),
          tq_AgentVersion = version\<rparr>)"

text \<open>\<open>None\<close> for the flags is a parse error, which package flag reports itself.\<close>

definition cmdTicket :: "ticket_world \<Rightarrow> ticket_flags option \<Rightarrow> ticket_result" where
  "cmdTicket w flags =
     (case flags of
        None \<Rightarrow> \<lparr>tk_code = 2, tk_stdout = [], tk_stderr = [], tk_sent = None\<rparr>
      | Some fl \<Rightarrow>
          (case ticket_usage fl of
             Some e \<Rightarrow> ticket_failed 2 e None
           | None \<Rightarrow>
               (case loadDeviceContext w of
                  Inl e \<Rightarrow> ticket_failed 1 e None
                | Inr (apiURL, identity) \<Rightarrow>
                    (let sent = (case tw_sign w identity of Inl e \<Rightarrow> None | Inr a \<Rightarrow> Some (ticket_request (tw_version w) fl))
                     in case postTicket (tw_sign w identity) (tw_reply w) of
                          Inl (DeviceRefused e) \<Rightarrow>
                            ticket_failed 1 ''this device is no longer authorised. Ask an administrator to re-enrol it.'' sent
                        | Inl (ApiError e) \<Rightarrow> ticket_failed 1 e sent
                        | Inr p \<Rightarrow> \<lparr>tk_code = 0, tk_stdout = ticket_report w fl p, tk_stderr = [], tk_sent = sent\<rparr>))))"

section \<open>Properties\<close>

lemma ticket_request_bounds:
  assumes "ticket_usage fl = None"
  shows "tq_Category (ticket_request v fl) \<in> set ticketCategories"
    "1 \<le> length (tq_Title (ticket_request v fl)) \<and> length (tq_Title (ticket_request v fl)) \<le> 150"
    "has_prefix (trim_space (tf_title fl)) (tq_Title (ticket_request v fl))"
    "1 \<le> length (tq_Description (ticket_request v fl)) \<and> length (tq_Description (ticket_request v fl)) \<le> 2000"
    "has_prefix (trim_space (tf_message fl)) (tq_Description (ticket_request v fl))"
proof -
  have prefix: "has_prefix s (take n s)" for s :: string and n
    unfolding has_prefix_iff by (metis append_take_drop_id)
  from assms have ne: "1 \<le> length (trim_space (tf_title fl))" "1 \<le> length (trim_space (tf_message fl))"
      "tf_category fl \<in> set ticketCategories"
    by (auto simp: ticket_usage_def validCategory_def Suc_le_eq split: if_splits)
  then show "tq_Category (ticket_request v fl) \<in> set ticketCategories"
    "1 \<le> length (tq_Title (ticket_request v fl)) \<and> length (tq_Title (ticket_request v fl)) \<le> 150"
    "1 \<le> length (tq_Description (ticket_request v fl)) \<and> length (tq_Description (ticket_request v fl)) \<le> 2000"
    by (simp_all add: ticket_request_def Let_def ticketMaxTitle_def ticketMaxBody_def)
  show "has_prefix (trim_space (tf_title fl)) (tq_Title (ticket_request v fl))"
    "has_prefix (trim_space (tf_message fl)) (tq_Description (ticket_request v fl))"
    using prefix [of "trim_space (tf_title fl)"] prefix [of "trim_space (tf_message fl)"]
      has_prefix_iff [of "trim_space (tf_title fl)" "trim_space (tf_title fl)"]
      has_prefix_iff [of "trim_space (tf_message fl)" "trim_space (tf_message fl)"]
    by (simp_all add: ticket_request_def Let_def)
qed

lemma postTicket_accepted: "(\<exists>p. postTicket (Inr a) r = Inr p) \<longleftrightarrow> (\<exists>p. r = Reply 200 (Some p))"
  by (auto simp: postTicket_def split: api_reply.splits option.splits if_splits)

text \<open>The command up to the report, and the report itself.\<close>

lemma cmdTicket_refused:
  "cmdTicket w None = \<lparr>tk_code = 2, tk_stdout = [], tk_stderr = [], tk_sent = None\<rparr>"
  "ticket_usage fl = Some e \<Longrightarrow> cmdTicket w (Some fl) = ticket_failed 2 e None"
  "ticket_usage fl = None \<Longrightarrow> loadDeviceContext w = Inl e \<Longrightarrow> cmdTicket w (Some fl) = ticket_failed 1 e None"
  "ticket_usage fl = None \<Longrightarrow> loadDeviceContext w = Inr (api, i) \<Longrightarrow> tw_sign w i = Inl e \<Longrightarrow>
   cmdTicket w (Some fl) = ticket_failed 1 (''sign assertion: '' @ e) None"
  by (simp_all add: cmdTicket_def postTicket_def)

lemma cmdTicket_reports:
  assumes "ticket_usage fl = None" "loadDeviceContext w = Inr (api, i)" "tw_sign w i = Inr a"
  shows "tk_sent (cmdTicket w (Some fl)) = Some (ticket_request (tw_version w) fl)"
    "tk_code (cmdTicket w (Some fl)) = (if \<exists>p. tw_reply w = Reply 200 (Some p) then 0 else 1)"
proof -
  let ?p = "postTicket (Inr a) (tw_reply w)"
  show "tk_sent (cmdTicket w (Some fl)) = Some (ticket_request (tw_version w) fl)"
    using assms by (cases ?p rule: sum.exhaust) (auto simp: cmdTicket_def ticket_failed_def Let_def split: api_error.splits)
  have "tk_code (cmdTicket w (Some fl)) = (if \<exists>p. ?p = Inr p then 0 else 1)"
    using assms by (cases ?p rule: sum.exhaust) (auto simp: cmdTicket_def ticket_failed_def Let_def split: api_error.splits)
  then show "tk_code (cmdTicket w (Some fl)) = (if \<exists>p. tw_reply w = Reply 200 (Some p) then 0 else 1)"
    by (simp only: postTicket_accepted)
qed

text \<open>What a context means: an enrolled device, and the key that was made for it and not just now.\<close>

lemma loadDeviceContext_enrolled:
  assumes "loadDeviceContext w = Inr (api, i)"
  shows "\<exists>env. loadEnvFile (tw_read w (ticket_env_path w)) = (None, env) \<and>
    getenv ''HASFY_DEVICE_ID'' env \<noteq> [] \<and> getenv ''HASFY_ORG_ID'' env \<noteq> [] \<and> getenv ''HASFY_RELAY_URL'' env \<noteq> [] \<and>
    tw_stat w (ticket_key_path w) \<and> tw_load w (ticket_key_path w) (getenv ''HASFY_DEVICE_ID'' env) = Inr (i, False)"
  using assms
  by (auto simp: loadDeviceContext_def Let_def isEnrolled_def split: prod.splits option.splits if_splits sum.splits bool.splits)

lemma cmdTicket_cases:
  obtains (usage) "tk_sent (cmdTicket w flags) = None" "tk_code (cmdTicket w flags) = 2"
      "\<forall>fl. flags = Some fl \<longrightarrow> ticket_usage fl \<noteq> None"
  | (failed) fl where "flags = Some fl" "ticket_usage fl = None"
      "tk_sent (cmdTicket w flags) = None" "tk_code (cmdTicket w flags) = 1"
  | (sent) fl api i a where "flags = Some fl" "ticket_usage fl = None" "loadDeviceContext w = Inr (api, i)" "tw_sign w i = Inr a"
proof (cases flags)
  case None
  then show ?thesis using usage by (simp add: cmdTicket_refused)
next
  case fl: (Some fl)
  show ?thesis
  proof (cases "ticket_usage fl")
    case (Some e)
    with fl show ?thesis using usage by (simp add: cmdTicket_refused ticket_failed_def)
  next
    case ok: None
    show ?thesis
    proof (cases "loadDeviceContext w")
      case (Inl e)
      with fl ok show ?thesis using failed by (simp add: cmdTicket_refused ticket_failed_def)
    next
      case (Inr c)
      obtain api i where "c = (api, i)" by (cases c)
      with fl ok Inr show ?thesis using failed sent by (cases "tw_sign w i") (simp_all add: cmdTicket_refused ticket_failed_def)
    qed
  qed
qed

text \<open>
  C40. The ticket command sends at most one report, and only one with a known category, a title of 1 to 150 and a
  message of 1 to 2000 bytes, which begin the user's own text. It is sent only from an enrolled device: the
  environment file was read and names a device, an organisation and a relay, and the report is signed with the
  key found for that device, which the command did not create. The command exits with 0 exactly when the server
  accepted the report, with 2 exactly for wrong arguments.
\<close>

theorem ticket_report_valid:
  "(tk_code (cmdTicket w flags) = 2 \<longleftrightarrow> (\<nexists>fl. flags = Some fl \<and> ticket_usage fl = None)) \<and>
   (case tk_sent (cmdTicket w flags) of
      None \<Rightarrow> tk_code (cmdTicket w flags) \<in> {1, 2}
    | Some req \<Rightarrow>
        (\<exists>fl. flags = Some fl \<and> tq_Category req \<in> set ticketCategories \<and>
          (1 \<le> length (tq_Title req) \<and> length (tq_Title req) \<le> 150) \<and> has_prefix (trim_space (tf_title fl)) (tq_Title req) \<and>
          (1 \<le> length (tq_Description req) \<and> length (tq_Description req) \<le> 2000) \<and>
          has_prefix (trim_space (tf_message fl)) (tq_Description req)) \<and>
        (\<exists>env i a. loadEnvFile (tw_read w (ticket_env_path w)) = (None, env) \<and>
          getenv ''HASFY_DEVICE_ID'' env \<noteq> [] \<and> getenv ''HASFY_ORG_ID'' env \<noteq> [] \<and> getenv ''HASFY_RELAY_URL'' env \<noteq> [] \<and>
          tw_stat w (ticket_key_path w) \<and>
          tw_load w (ticket_key_path w) (getenv ''HASFY_DEVICE_ID'' env) = Inr (i, False) \<and> tw_sign w i = Inr a) \<and>
        tk_code (cmdTicket w flags) = (if \<exists>p. tw_reply w = Reply 200 (Some p) then 0 else 1))"
proof (cases w flags rule: cmdTicket_cases)
  case usage
  then show ?thesis by auto
next
  case (failed fl)
  then show ?thesis by auto
next
  case (sent fl api i a)
  note run = cmdTicket_reports [OF sent(2-4)]
  have "tk_code (cmdTicket w (Some fl)) \<noteq> 2" by (simp add: run(2))
  with loadDeviceContext_enrolled [OF sent(3)] show ?thesis
    unfolding sent(1) run(1) option.case using ticket_request_bounds [OF sent(2)] run(2) sent(2,4) by blast
qed

text \<open>Cutting at a byte can cut a character: the title that is sent then ends in half of one.\<close>

lemma truncation_splits_rune:
  fixes fl :: ticket_flags
  defines "t \<equiv> replicate 149 CHR ''a'' @ [CHR 0xC3, CHR 0xA9]"
  assumes "trim_space (tf_title fl) = t"
  shows "tq_Title (ticket_request v fl) = replicate 149 CHR ''a'' @ [CHR 0xC3]"
  using assms by (simp add: ticket_request_def Let_def ticketMaxTitle_def)

end
