(* ===== verification/Inventory.thy ===== *)
theory Inventory
  imports Token RelayConfig
begin

text \<open>
  Inventory: \<open>cmd/agent/inventory.go\<close>. What osquery prints for a table is an input; the rows themselves are
  opaque (a type parameter), because the agent only forwards them.
\<close>

section \<open>Queries\<close>

definition inventoryInterval :: time where "inventoryInterval = hour"

definition inventoryInitialDelay :: time where "inventoryInitialDelay = 2 * minute"

definition inventoryRetryInterval :: time where "inventoryRetryInterval = 10 * minute"

definition noOsqueryRetryInterval :: time where "noOsqueryRetryInterval = 15 * minute"

record osqueryQuery =
  oq_table :: string
  oq_sql :: string
  oq_platforms :: "string list"

text \<open>The line break of a raw string literal: a newline and two tabs.\<close>

definition br :: string where "br = [CHR 0x0A, CHR 0x09, CHR 0x09]"

definition inventoryQueries :: "osqueryQuery list" where
  "inventoryQueries =
    [\<lparr>oq_table = ''system_info'', oq_sql = ''SELECT hostname, uuid, cpu_brand, cpu_physical_cores,'' @ br @
        ''cpu_logical_cores, physical_memory, hardware_vendor, hardware_model,'' @ br @
        ''hardware_serial, computer_name, local_hostname, board_vendor, board_model'' @ br @
        ''FROM system_info LIMIT 1'', oq_platforms = []\<rparr>,
     \<lparr>oq_table = ''os_version'', oq_sql = ''SELECT name, version, major, minor, patch, build,'' @ br @
        ''platform, platform_like, codename, arch FROM os_version LIMIT 1'', oq_platforms = []\<rparr>,
     \<lparr>oq_table = ''interface_addresses'', oq_sql = ''SELECT interface, address, mask, broadcast, type'' @ br @
        ''FROM interface_addresses'' @ br @
        ''WHERE address NOT LIKE '' @ [CHR 0x27] @ ''127.%'' @ [CHR 0x27] @ '' AND address != '' @ [CHR 0x27] @ ''::1'' @ [CHR 0x27] @
        '' LIMIT 20'', oq_platforms = []\<rparr>,
     \<lparr>oq_table = ''mounts'', oq_sql = ''SELECT device, path, type, blocks, blocks_free, blocks_size'' @ br @
        ''FROM mounts LIMIT 20'', oq_platforms = []\<rparr>,
     \<lparr>oq_table = ''smart_drive_info'', oq_sql = ''SELECT device_name, model_family, device_model,'' @ br @
        ''serial_number, disk_id FROM smart_drive_info LIMIT 10'', oq_platforms = [''darwin'', ''linux'']\<rparr>,
     \<lparr>oq_table = ''battery'', oq_sql = ''SELECT percent_remaining, health, cycle_count, condition'' @ br @
        ''FROM battery LIMIT 1'', oq_platforms = [''darwin'']\<rparr>,
     \<lparr>oq_table = ''apps'', oq_sql = ''SELECT name, bundle_short_version AS version, bundle_identifier'' @ br @
        ''FROM apps LIMIT 2000'', oq_platforms = [''darwin'']\<rparr>,
     \<lparr>oq_table = ''homebrew_packages'', oq_sql = ''SELECT name, version FROM homebrew_packages LIMIT 2000'',
        oq_platforms = [''darwin'']\<rparr>,
     \<lparr>oq_table = ''programs'', oq_sql = ''SELECT name, version, publisher FROM programs LIMIT 2000'',
        oq_platforms = [''windows'']\<rparr>,
     \<lparr>oq_table = ''deb_packages'', oq_sql = ''SELECT name, version, source FROM deb_packages LIMIT 2000'',
        oq_platforms = [''linux'']\<rparr>,
     \<lparr>oq_table = ''rpm_packages'', oq_sql = ''SELECT name, version, source FROM rpm_packages LIMIT 2000'',
        oq_platforms = [''linux'']\<rparr>]"

definition appliesHere :: "string \<Rightarrow> osqueryQuery \<Rightarrow> bool" where
  "appliesHere goos q \<longleftrightarrow> oq_platforms q = [] \<or> goos \<in> set (oq_platforms q)"

definition collapseSQL :: "string \<Rightarrow> string" where
  "collapseSQL sql = join '' '' (Utf8.fields sql)"

text \<open>
  Where osqueryi is: the configured path, the vendor's locations, then what \<open>exec.LookPath\<close> finds. \<open>exists\<close>
  is whether \<open>os.Stat\<close> succeeds.
\<close>

definition osquery_candidates :: "string \<Rightarrow> string list" where
  "osquery_candidates goos =
     (if goos = ''darwin'' then [''/opt/osquery/lib/osquery.app/Contents/MacOS/osqueryi'', ''/usr/local/bin/osqueryi'']
      else if goos = ''windows'' then
        [''C:'' @ [CHR 0x5C] @ ''Program Files'' @ [CHR 0x5C] @ ''osquery'' @ [CHR 0x5C] @ ''osqueryi.exe'']
      else [''/usr/bin/osqueryi'', ''/usr/local/bin/osqueryi''])"

definition osqueryBinary :: "string \<Rightarrow> (string, string) gomap \<Rightarrow> (string \<Rightarrow> bool) \<Rightarrow> string option \<Rightarrow> string option" where
  "osqueryBinary goos env exists look_path =
     (let custom = getenv ''HASFY_OSQUERY_PATH'' env in
      if custom \<noteq> [] \<and> exists custom then Some custom
      else (case find exists (osquery_candidates goos) of Some c \<Rightarrow> Some c | None \<Rightarrow> look_path))"

section \<open>Collecting\<close>

text \<open>The process started for a table, and its decoded output.\<close>

record osquery_command =
  oc_argv :: "string list"
  oc_env :: "string list"

definition osquery_command_for :: "string \<Rightarrow> (string, string) gomap \<Rightarrow> osqueryQuery \<Rightarrow> osquery_command" where
  "osquery_command_for binary env q =
     \<lparr>oc_argv = [binary, ''--json'', collapseSQL (oq_sql q)], oc_env = [''PATH='' @ getenv ''PATH'' env]\<rparr>"

datatype 'r osquery_output = RunFailed string | NotJson string | Rows 'r

definition runOsqueryTable :: "osqueryQuery \<Rightarrow> 'r osquery_output \<Rightarrow> string + 'r" where
  "runOsqueryTable q out =
     (case out of
        RunFailed e \<Rightarrow> Inl (''osquery '' @ oq_table q @ '': '' @ e)
      | NotJson e \<Rightarrow> Inl (''decode '' @ oq_table q @ '': '' @ e)
      | Rows r \<Rightarrow> Inr r)"

record 'r tableSnapshot =
  sn_Rows :: 'r
  sn_LatestTimestamp :: string

datatype inventory_error = NoOsquery | InventoryError string

definition add_snapshot ::
  "string \<Rightarrow> (osquery_command \<Rightarrow> 'r osquery_output) \<Rightarrow> string \<Rightarrow> (string, string) gomap \<Rightarrow> osqueryQuery \<Rightarrow>
     (string, 'r tableSnapshot) gomap \<Rightarrow> (string, 'r tableSnapshot) gomap" where
  "add_snapshot binary run now env q m =
     (case runOsqueryTable q (run (osquery_command_for binary env q)) of
        Inl e \<Rightarrow> m
      | Inr rows \<Rightarrow> gm_set (oq_table q) \<lparr>sn_Rows = rows, sn_LatestTimestamp = now\<rparr> m)"

definition collectInventory ::
  "string \<Rightarrow> string option \<Rightarrow> (osquery_command \<Rightarrow> 'r osquery_output) \<Rightarrow> string \<Rightarrow> (string, string) gomap \<Rightarrow>
     inventory_error + (string, 'r tableSnapshot) gomap" where
  "collectInventory goos binary run now env =
     (case binary of
        None \<Rightarrow> Inl NoOsquery
      | Some bin \<Rightarrow>
          (let snapshots = fold (add_snapshot bin run now env) (filter (appliesHere goos) inventoryQueries) []
           in if snapshots = [] then Inl (InventoryError ''no osquery table could be collected'') else Inr snapshots))"

definition postInventory_request :: "string \<Rightarrow> string \<Rightarrow> string \<Rightarrow> bytes \<Rightarrow> device_request" where
  "postInventory_request version apiBase assertion json =
     postJSON version (trim_right_byte CHR ''/'' apiBase @ ''/api/v1/device/inventory'') assertion [] json"

definition postInventory :: "string + string \<Rightarrow> unit api_reply \<Rightarrow> api_error option" where
  "postInventory signed_assertion r =
     (case signed_assertion of
        Inl e \<Rightarrow> Some (ApiError (''sign assertion: '' @ e))
      | Inr assertion \<Rightarrow>
          (case r of
             NoReply e \<Rightarrow> Some (ApiError e)
           | Reply code b \<Rightarrow>
               if code = 401 then Some errDeviceRefused
               else if code \<noteq> 200 then Some (ApiError (''inventory HTTP '' @ format_int code))
               else None))"

section \<open>The reporter\<close>

text \<open>
  One round: the wait, the platform and what the collection finds on it, the upload, and \<open>ctx.Err()\<close> after a
  failure. The state is the list of collections that were accepted.
\<close>

record 'r inventory_round =
  iv_done :: bool
  iv_goos :: string
  iv_env :: "(string, string) gomap"
  iv_exists :: "string \<Rightarrow> bool"
  iv_look_path :: "string option"
  iv_run :: "osquery_command \<Rightarrow> 'r osquery_output"
  iv_now :: string
  iv_signed :: "string + string"
  iv_reply :: "unit api_reply"
  iv_ctx_err :: bool

definition iv_collect :: "'r inventory_round \<Rightarrow> inventory_error + (string, 'r tableSnapshot) gomap" where
  "iv_collect w =
     collectInventory (iv_goos w) (osqueryBinary (iv_goos w) (iv_env w) (iv_exists w) (iv_look_path w)) (iv_run w) (iv_now w) (iv_env w)"

type_synonym 'r reported = "(string, 'r tableSnapshot) gomap list"

definition inventory_cycle :: "'r inventory_round \<Rightarrow> 'r reported \<Rightarrow> time option \<times> 'r reported" where
  "inventory_cycle w s =
     (if iv_done w then (None, s)
      else (case iv_collect w of
              Inl NoOsquery \<Rightarrow> (Some noOsqueryRetryInterval, s)
            | Inl (InventoryError e) \<Rightarrow> if iv_ctx_err w then (None, s) else (Some inventoryRetryInterval, s)
            | Inr snapshots \<Rightarrow>
                (case postInventory (iv_signed w) (iv_reply w) of
                   Some (DeviceRefused e) \<Rightarrow> (None, s)
                 | Some (ApiError e) \<Rightarrow> if iv_ctx_err w then (None, s) else (Some inventoryRetryInterval, s)
                 | None \<Rightarrow> (Some inventoryInterval, s @ [snapshots]))))"

definition runInventoryReporter :: "'r inventory_round list \<Rightarrow> time list \<times> 'r reported \<times> bool" where
  "runInventoryReporter ws = cycles inventory_cycle ws []"

definition inventory_refused :: "'r inventory_round \<Rightarrow> bool" where
  "inventory_refused w \<longleftrightarrow> (case iv_collect w of Inr _ \<Rightarrow>
     (case postInventory (iv_signed w) (iv_reply w) of Some (DeviceRefused e) \<Rightarrow> True | _ \<Rightarrow> False) | Inl _ \<Rightarrow> False)"

interpretation inventory: reporter inventory_cycle "\<lambda>w s. inventory_refused w" inventoryRetryInterval inventoryInterval
proof unfold_locales
  fix w :: "'r inventory_round" and s d
  assume "fst (inventory_cycle w s) = Some d"
  then show "inventoryRetryInterval \<le> d \<and> d \<le> inventoryInterval"
    by (auto simp: inventory_cycle_def inventoryRetryInterval_def inventoryInterval_def noOsqueryRetryInterval_def
        split: if_splits sum.splits inventory_error.splits option.splits api_error.splits)
qed (auto simp: inventory_refused_def inventory_cycle_def split: sum.splits option.splits api_error.splits)

section \<open>What is collected\<close>

lemma snapshots_from:
  assumes "distinct (map oq_table qs)"
  shows "gm_get (fold (add_snapshot bin run now env) qs m) t =
     (case find (\<lambda>q. oq_table q = t) qs of
        Some q \<Rightarrow> (case run (osquery_command_for bin env q) of Rows r \<Rightarrow> Some \<lparr>sn_Rows = r, sn_LatestTimestamp = now\<rparr> | _ \<Rightarrow> gm_get m t)
      | None \<Rightarrow> gm_get m t)"
  using assms
proof (induction qs arbitrary: m)
  case (Cons q qs)
  show ?case
  proof (cases "oq_table q = t")
    case True
    with Cons.prems have "t \<notin> oq_table ` set qs" by simp
    then have "find (\<lambda>q. oq_table q = t) qs = None" by (auto simp: find_None_iff image_iff)
    with Cons True show ?thesis
      by (cases "run (osquery_command_for bin env q)") (simp_all add: add_snapshot_def runOsqueryTable_def)
  next
    case False
    then have "gm_get (add_snapshot bin run now env q m) t = gm_get m t"
      by (simp add: add_snapshot_def split: sum.split)
    with Cons False show ?thesis by (simp split: option.split osquery_output.split)
  qed
qed simp

lemma find_distinct: "distinct (map f xs) \<Longrightarrow> x \<in> set xs \<Longrightarrow> find (\<lambda>y. f y = f x) xs = Some x"
  by (induction xs) auto

lemma queries_distinct: "distinct (map oq_table inventoryQueries)"
  by (simp add: inventoryQueries_def)

lemma fields_no_space:
  "f \<in> set (fields_of rs cur) \<Longrightarrow> list_all ascii (concat rs) \<Longrightarrow> list_all ascii cur \<Longrightarrow>
   list_all (\<lambda>r. length r = 1) rs \<Longrightarrow> list_all (\<lambda>c. \<not> space_char c) cur \<Longrightarrow> list_all (\<lambda>c. \<not> space_char c) f"
proof (induction rs cur rule: fields_of.induct)
  case (2 r rs cur)
  obtain c where r: "r = [c]" using "2.prems"(4) by (cases r) auto
  with "2.prems"(2) have "space_rune r = space_char c" by simp
  with 2 r show ?case by (auto split: if_splits)
qed (auto split: if_splits)

text \<open>Every query is one line when it is run.\<close>

lemma collapsed_one_line:
  assumes "list_all ascii sql"
  shows "CHR 0x0A \<notin> set (collapseSQL sql)"
proof -
  have nl: "space_char CHR 0x0A" by (simp add: space_char_def)
  have "runes sql = map (\<lambda>c. [c]) sql" using assms by (rule runes_all_ascii)
  then have "list_all (\<lambda>c. \<not> space_char c) f" if "f \<in> set (Utf8.fields sql)" for f
    using that assms unfolding Utf8.fields_def by (intro fields_no_space [of f "runes sql" "[]"]) (auto simp: list_all_iff)
  then have "CHR 0x0A \<notin> set f" if "f \<in> set (Utf8.fields sql)" for f
    using that nl unfolding list_all_iff by blast
  moreover have "set (join '' '' fs) \<subseteq> insert CHR '' '' (\<Union> (set ` set fs))" for fs
    by (induction "'' ''" fs rule: join.induct) auto
  ultimately show ?thesis unfolding collapseSQL_def by fastforce
qed

text \<open>
  A collection has exactly the tables that apply to the platform and that osquery could produce, each with
  its rows and the collection's time; one failing table costs nothing else, and nothing is posted when osquery
  is missing or no table succeeded.
\<close>

lemma inventory_collects:
  "case collectInventory goos (Some bin) run now env of
     Inr m \<Rightarrow> m \<noteq> [] \<and>
       (\<forall>q \<in> set inventoryQueries. gm_get m (oq_table q) =
          (if appliesHere goos q then
             (case run (osquery_command_for bin env q) of
                Rows r \<Rightarrow> Some \<lparr>sn_Rows = r, sn_LatestTimestamp = now\<rparr> | _ \<Rightarrow> None)
           else None))
   | Inl e \<Rightarrow> e = InventoryError ''no osquery table could be collected'' \<and>
       (\<forall>q \<in> set inventoryQueries. appliesHere goos q \<longrightarrow> (\<forall>r. run (osquery_command_for bin env q) \<noteq> Rows r))"
proof -
  let ?qs = "filter (appliesHere goos) inventoryQueries"
  let ?m = "fold (add_snapshot bin run now env) ?qs []"
  have dist: "distinct (map oq_table ?qs)" by (rule distinct_map_filter) (rule queries_distinct)
  have inj: "inj_on oq_table (set inventoryQueries)" using queries_distinct by (simp add: distinct_map)
  have get: "gm_get ?m (oq_table q) = (if appliesHere goos q then
      (case run (osquery_command_for bin env q) of Rows r \<Rightarrow> Some \<lparr>sn_Rows = r, sn_LatestTimestamp = now\<rparr> | _ \<Rightarrow> None) else None)"
    if q: "q \<in> set inventoryQueries" for q
  proof (cases "appliesHere goos q")
    case True
    with q have "find (\<lambda>x. oq_table x = oq_table q) ?qs = Some q" using dist by (intro find_distinct) auto
    then show ?thesis using snapshots_from [OF dist, of bin run now env "[]" "oq_table q"] True by (simp split: osquery_output.split)
  next
    case False
    then have "find (\<lambda>x. oq_table x = oq_table q) ?qs = None"
      using q inj by (auto simp: find_None_iff inj_on_def)
    with False show ?thesis using snapshots_from [OF dist, of bin run now env "[]" "oq_table q"] by simp
  qed
  show ?thesis
  proof (cases "?m = []")
    case True
    have "run (osquery_command_for bin env q) \<noteq> Rows r" if "q \<in> set inventoryQueries" "appliesHere goos q" for q r
      using get [OF that(1)] that(2) True by auto
    with True show ?thesis by (simp add: collectInventory_def)
  next
    case False
    with get show ?thesis by (simp add: collectInventory_def)
  qed
qed

lemma inventory_collects_witness:
  "\<exists>m. collectInventory ''linux'' (Some ''/usr/bin/osqueryi'')
       (\<lambda>c. if oc_argv c ! 2 = collapseSQL (oq_sql (inventoryQueries ! 3)) then Rows (7::nat) else RunFailed ''exit 1'') ''now'' [] = Inr m \<and>
     gm_get m ''mounts'' = Some \<lparr>sn_Rows = 7, sn_LatestTimestamp = ''now''\<rparr>"
proof -
  let ?q = "inventoryQueries ! 3"
  let ?run = "\<lambda>c. if oc_argv c ! 2 = collapseSQL (oq_sql ?q) then Rows (7::nat) else RunFailed ''exit 1''"
  have q: "?q \<in> set inventoryQueries" "appliesHere ''linux'' ?q" "oq_table ?q = ''mounts''"
    by (simp_all add: inventoryQueries_def appliesHere_def)
  have run: "?run (osquery_command_for ''/usr/bin/osqueryi'' [] ?q) = Rows 7"
    by (simp add: osquery_command_for_def)
  note C = inventory_collects [where goos = "''linux''" and bin = "''/usr/bin/osqueryi''" and run = ?run and now = "''now''" and env = "[]"]
  show ?thesis
  proof (cases "collectInventory ''linux'' (Some ''/usr/bin/osqueryi'') ?run ''now'' []")
    case (Inl e)
    with C q(1,2) run show ?thesis by auto
  next
    case (Inr m)
    with C q run show ?thesis by auto
  qed
qed

end
