(* ===== verification/Metrics.thy ===== *)
theory Metrics
  imports Token
begin

text \<open>
  Metrics: \<open>cmd/agent/metrics.go\<close> and \<open>cmd/agent/metrics_ship.go\<close>. What gopsutil reads is an input. A
  document keeps the floating-point expressions the code evaluates, as expressions over the 64-bit
  patterns it was given; encoding to JSON, which fails on values JSON has no notation for, is a parameter.
\<close>

section \<open>Documents\<close>

datatype fexpr = FBits "64 word" | FConst int | FOfUint "64 word" | FDiv fexpr fexpr | FSub fexpr fexpr

datatype json = JStr string | JInt int | JFloat fexpr | JObj "(string \<times> json) list"

definition metricsInterval :: time where "metricsInterval = minute"

definition metricsInitialDelay :: time where "metricsInitialDelay = 30 * second"

definition metricsRetryDelay :: time where "metricsRetryDelay = 5 * minute"

definition ingestCredentialsTTL :: time where "ingestCredentialsTTL = 24 * hour"

definition maxBufferedSamples :: nat where "maxBufferedSamples = 60"

definition normalisePlatform :: "string \<Rightarrow> string" where
  "normalisePlatform osName =
     (if osName = ''darwin'' then ''darwin'' else if osName = ''windows'' then ''windows'' else ''linux'')"

definition max64 :: "64 word \<Rightarrow> 64 word \<Rightarrow> 64 word" where
  "max64 a b = (if a > b then a else b)"

function trimSlash :: "string \<Rightarrow> string" where
  "trimSlash s = (if 0 < length s \<and> s ! (length s - 1) = CHR ''/'' then trimSlash (take (length s - 1) s) else s)"
  by pat_completeness auto
termination
  by (relation "measure length") auto

declare trimSlash.simps [simp del]

record VirtualMemory =
  vm_Total :: "64 word"
  vm_Free :: "64 word"
  vm_Used :: "64 word"
  vm_UsedPercent :: "64 word"
  vm_Available :: "64 word"

record HostInfo =
  hi_Hostname :: string
  hi_OS :: string
  hi_Platform :: string
  hi_PlatformVersion :: string
  hi_Uptime :: "64 word"

text \<open>What gopsutil gives; \<open>None\<close> is an error. \<open>cpu.Counts\<close> is called twice.\<close>

record sys_readings =
  sy_now :: string
  sy_cpu :: "64 word list option"
  sy_cores :: "int option"
  sy_mem :: "VirtualMemory option"
  sy_load :: "(64 word \<times> 64 word \<times> 64 word) option"
  sy_load_cores :: "int option"
  sy_host :: "HostInfo option"

definition doc_head :: "string \<Rightarrow> string \<Rightarrow> string \<Rightarrow> string \<Rightarrow> (string \<times> json) list" where
  "doc_head version now deviceID orgID =
     [(''@timestamp'', JStr now),
      (''agent'', JObj [(''id'', JStr deviceID), (''version'', JStr version)]),
      (''organization'', JObj [(''id'', JStr orgID)])]"

definition cpu_metrics :: "sys_readings \<Rightarrow> (string \<times> json) list" where
  "cpu_metrics r =
     (case sy_cpu r of
        Some (p # ps) \<Rightarrow>
          (let tot = FDiv (FBits p) (FConst 100) in
           [(''cpu'', JObj ([(''total'', JObj [(''norm'', JObj [(''pct'', JFloat tot)])]),
                             (''idle'', JObj [(''norm'', JObj [(''pct'', JFloat (FSub (FConst 1) tot))])])] @
                            (case sy_cores r of Some n \<Rightarrow> [(''cores'', JInt n)] | None \<Rightarrow> [])))])
      | _ \<Rightarrow> [])"

definition memory_metrics :: "sys_readings \<Rightarrow> (string \<times> json) list" where
  "memory_metrics r =
     (case sy_mem r of
        None \<Rightarrow> []
      | Some vm \<Rightarrow>
          [(''memory'', JObj
             [(''total'', JInt (uint (vm_Total vm))),
              (''free'', JInt (uint (vm_Free vm))),
              (''used'', JObj [(''bytes'', JInt (uint (vm_Used vm))), (''pct'', JFloat (FDiv (FBits (vm_UsedPercent vm)) (FConst 100)))]),
              (''actual'', JObj
                 [(''free'', JInt (uint (vm_Available vm))),
                  (''used'', JObj
                     [(''bytes'', JInt (uint (vm_Total vm - vm_Available vm))),
                      (''pct'', JFloat (FDiv (FOfUint (vm_Total vm - vm_Available vm)) (FOfUint (max64 (vm_Total vm) 1))))])])])])"

definition load_metrics :: "sys_readings \<Rightarrow> (string \<times> json) list" where
  "load_metrics r =
     (case (sy_load r, sy_load_cores r) of
        (Some (l1, l5, l15), Some n) \<Rightarrow>
          if 0 < n then [(''load'', JObj [(''1'', JFloat (FBits l1)), (''5'', JFloat (FBits l5)), (''15'', JFloat (FBits l15)), (''cores'', JInt n)])]
          else []
      | _ \<Rightarrow> [])"

definition host_metrics :: "sys_readings \<Rightarrow> (string \<times> json) list" where
  "host_metrics r =
     (case sy_host r of
        None \<Rightarrow> []
      | Some i \<Rightarrow> [(''uptime'', JObj [(''duration'', JObj [(''ms'', JInt (uint (hi_Uptime i * 1000)))])])])"

definition host_doc :: "sys_readings \<Rightarrow> (string \<times> json) list" where
  "host_doc r =
     (case sy_host r of
        None \<Rightarrow> []
      | Some i \<Rightarrow>
          [(''host'', JObj
             [(''hostname'', JStr (hi_Hostname i)),
              (''os'', JObj [(''platform'', JStr (normalisePlatform (hi_OS i))), (''version'', JStr (hi_PlatformVersion i)),
                             (''name'', JStr (hi_Platform i))])])])"

definition collectMetrics :: "string \<Rightarrow> string \<Rightarrow> string \<Rightarrow> sys_readings \<Rightarrow> string + json" where
  "collectMetrics version deviceID orgID r =
     (let sys = cpu_metrics r @ memory_metrics r @ load_metrics r @ host_metrics r in
      if sys = [] then Inl ''no metric subsystem could be read''
      else Inr (JObj (doc_head version (sy_now r) deviceID orgID @ host_doc r @ [(''system'', JObj sys)])))"

record partition_usage =
  du_Mountpoint :: string
  du_Device :: string
  du_Fstype :: string
  du_Usage :: "(64 word \<times> 64 word \<times> 64 word \<times> 64 word) option"

text \<open>\<open>du_Usage\<close>: total, free, used bytes and the percentage, or an error.\<close>

definition filesystem_doc :: "string \<Rightarrow> string \<Rightarrow> string \<Rightarrow> string \<Rightarrow> partition_usage \<Rightarrow> json list" where
  "filesystem_doc version now deviceID orgID p =
     (case du_Usage p of
        None \<Rightarrow> []
      | Some (tot, free, used, pct) \<Rightarrow>
          if tot = 0 then []
          else [JObj (doc_head version now deviceID orgID @
            [(''system'', JObj [(''filesystem'', JObj
               [(''mount_point'', JStr (du_Mountpoint p)), (''device_name'', JStr (du_Device p)), (''type'', JStr (du_Fstype p)),
                (''total'', JInt (uint tot)), (''free'', JInt (uint free)),
                (''used'', JObj [(''bytes'', JInt (uint used)), (''pct'', JFloat (FDiv (FBits pct) (FConst 100)))])])])])])"

definition collectFilesystemMetrics ::
  "string \<Rightarrow> string \<Rightarrow> string \<Rightarrow> string \<Rightarrow> partition_usage list option \<Rightarrow> json list" where
  "collectFilesystemMetrics version now deviceID orgID ps =
     (case ps of None \<Rightarrow> [] | Some l \<Rightarrow> concat (map (filesystem_doc version now deviceID orgID) l))"

record IOCounters =
  io_Name :: string
  io_BytesRecv :: "64 word"
  io_PacketsRecv :: "64 word"
  io_BytesSent :: "64 word"
  io_PacketsSent :: "64 word"

definition network_doc :: "string \<Rightarrow> string \<Rightarrow> string \<Rightarrow> string \<Rightarrow> IOCounters \<Rightarrow> json list" where
  "network_doc version now deviceID orgID c =
     (if io_BytesRecv c = 0 \<and> io_BytesSent c = 0 then []
      else [JObj (doc_head version now deviceID orgID @
        [(''system'', JObj [(''network'', JObj
           [(''name'', JStr (io_Name c)),
            (''in'', JObj [(''bytes'', JInt (uint (io_BytesRecv c))), (''packets'', JInt (uint (io_PacketsRecv c)))]),
            (''out'', JObj [(''bytes'', JInt (uint (io_BytesSent c))), (''packets'', JInt (uint (io_PacketsSent c)))])])])])])"

definition collectNetworkMetrics :: "string \<Rightarrow> string \<Rightarrow> string \<Rightarrow> string \<Rightarrow> IOCounters list option \<Rightarrow> json list" where
  "collectNetworkMetrics version now deviceID orgID cs =
     (case cs of None \<Rightarrow> [] | Some l \<Rightarrow> concat (map (network_doc version now deviceID orgID) l))"

section \<open>Shipping\<close>

record ingestCredentials =
  ic_ElasticsearchURL :: string
  ic_APIKey :: string
  ic_IndexPrefix :: string
  ic_ExpiresAt :: string

definition fetchIngestCredentials_request :: "string \<Rightarrow> string \<Rightarrow> string \<Rightarrow> device_request" where
  "fetchIngestCredentials_request version apiBase assertion =
     postJSON version (trimSlash apiBase @ ''/api/v1/device/ingest-credentials'') assertion [] ''{}''"

text \<open>The decoded reply: \<open>success\<close> and the data.\<close>

definition fetchIngestCredentials ::
  "string + string \<Rightarrow> (bool \<times> ingestCredentials) api_reply \<Rightarrow> api_error + ingestCredentials" where
  "fetchIngestCredentials signed_assertion r =
     (case signed_assertion of
        Inl e \<Rightarrow> Inl (ApiError (''sign assertion: '' @ e))
      | Inr assertion \<Rightarrow>
          (case r of
             NoReply e \<Rightarrow> Inl (ApiError e)
           | Reply code b \<Rightarrow>
               if code = 401 then Inl errDeviceRefused
               else if code \<noteq> 200 then Inl (ApiError (''ingest credentials HTTP '' @ format_int code))
               else (case b of
                       None \<Rightarrow> Inl (ApiError ''decode ingest credentials'')
                     | Some (success, c) \<Rightarrow>
                         if \<not> success \<or> ic_APIKey c = [] \<or> ic_ElasticsearchURL c = []
                         then Inl (ApiError ''ingest credentials response was incomplete'') else Inr c)))"

definition dailyIndex :: "string \<Rightarrow> string \<Rightarrow> string" where
  "dailyIndex prefix day = prefix @ ''-'' @ day"

fun bulk_body :: "(json \<Rightarrow> bytes option) \<Rightarrow> string \<Rightarrow> json list \<Rightarrow> bytes option" where
  "bulk_body encode index [] = Some []"
| "bulk_body encode index (d # ds) =
     (case encode (JObj [(''create'', JObj [(''_index'', JStr index)])]) of
        None \<Rightarrow> None
      | Some meta \<Rightarrow>
          (case encode d of
             None \<Rightarrow> None
           | Some l \<Rightarrow> map_option (\<lambda>rest. meta @ [CHR 0x0A] @ l @ [CHR 0x0A] @ rest) (bulk_body encode index ds)))"

datatype ship_error = IngestUnauthorized | ShipError string

definition shipMetrics_request :: "string \<Rightarrow> ingestCredentials \<Rightarrow> bytes \<Rightarrow> device_request" where
  "shipMetrics_request version creds body =
     \<lparr>dq_url = trimSlash (ic_ElasticsearchURL creds) @ ''/_bulk'',
      dq_headers = [(''Content-Type'', ''application/x-ndjson''), (''Authorization'', ''ApiKey '' @ ic_APIKey creds),
                    (''User-Agent'', ''hasfy-agent/'' @ version)],
      dq_body = body\<rparr>"

text \<open>The body of a successful reply only decides what is logged.\<close>

definition shipMetrics ::
  "(json \<Rightarrow> bytes option) \<Rightarrow> string \<Rightarrow> ingestCredentials \<Rightarrow> json list \<Rightarrow> unit api_reply \<Rightarrow> ship_error option" where
  "shipMetrics encode day creds docs r =
     (if docs = [] then None
      else (case bulk_body encode (dailyIndex (ic_IndexPrefix creds) day) docs of
              None \<Rightarrow> Some (ShipError ''json: unsupported value'')
            | Some body \<Rightarrow>
                (case r of
                   NoReply e \<Rightarrow> Some (ShipError e)
                 | Reply code b \<Rightarrow>
                     if code = 401 \<or> code = 403 then Some IngestUnauthorized
                     else if code < 200 \<or> 300 \<le> code then Some (ShipError (''bulk HTTP '' @ format_int code))
                     else None)))"

definition appendBounded :: "'a list \<Rightarrow> 'a list \<Rightarrow> nat \<Rightarrow> 'a list" where
  "appendBounded buffer batch n =
     (let b = buffer @ batch in if n < length b then drop (length b - n) b else b)"

section \<open>The reporter\<close>

record metrics_state =
  mt_creds :: "ingestCredentials option"
  mt_fetched :: time
  mt_buffer :: "json list"

definition metrics_start :: metrics_state where
  "metrics_start = \<lparr>mt_creds = None, mt_fetched = 0, mt_buffer = []\<rparr>"

text \<open>
  One round: the build and the device, the clock and the exchange when credentials are needed, what gopsutil
  reads, the upload. The three samples are collected one after the other, each with its own clock.
\<close>

record metrics_round =
  mr_version :: string
  mr_deviceID :: string
  mr_orgID :: string
  mr_done :: bool
  mr_now :: time
  mr_signed :: "string + string"
  mr_creds :: "(bool \<times> ingestCredentials) api_reply"
  mr_fetched :: time
  mr_creds_ctx_err :: bool
  mr_readings :: sys_readings
  mr_partitions :: "string \<times> partition_usage list option"
  mr_counters :: "string \<times> IOCounters list option"
  mr_day :: string
  mr_upload :: "unit api_reply"
  mr_upload_ctx_err :: bool

definition mr_sample :: "metrics_round \<Rightarrow> string + json" where
  "mr_sample w = collectMetrics (mr_version w) (mr_deviceID w) (mr_orgID w) (mr_readings w)"

definition mr_filesystems :: "metrics_round \<Rightarrow> json list" where
  "mr_filesystems w =
     collectFilesystemMetrics (mr_version w) (fst (mr_partitions w)) (mr_deviceID w) (mr_orgID w) (snd (mr_partitions w))"

definition mr_networks :: "metrics_round \<Rightarrow> json list" where
  "mr_networks w =
     collectNetworkMetrics (mr_version w) (fst (mr_counters w)) (mr_deviceID w) (mr_orgID w) (snd (mr_counters w))"

definition needs_creds :: "metrics_round \<Rightarrow> metrics_state \<Rightarrow> bool" where
  "needs_creds w s \<longleftrightarrow> mt_creds s = None \<or> ingestCredentialsTTL < mr_now w - mt_fetched s"

definition sample_batch :: "metrics_round \<Rightarrow> json list" where
  "sample_batch w = (case mr_sample w of Inr d \<Rightarrow> [d] | Inl e \<Rightarrow> []) @ mr_filesystems w @ mr_networks w"

definition metrics_upload ::
  "(json \<Rightarrow> bytes option) \<Rightarrow> metrics_round \<Rightarrow> ingestCredentials \<Rightarrow> metrics_state \<Rightarrow> time option \<times> metrics_state" where
  "metrics_upload encode w creds s =
     (let s1 = s\<lparr>mt_buffer := appendBounded (mt_buffer s) (sample_batch w) maxBufferedSamples\<rparr> in
      if mt_buffer s1 = [] then (Some metricsInterval, s1)
      else (case shipMetrics encode (mr_day w) creds (mt_buffer s1) (mr_upload w) of
              Some IngestUnauthorized \<Rightarrow> (Some metricsRetryDelay, s1\<lparr>mt_creds := None\<rparr>)
            | Some (ShipError e) \<Rightarrow> if mr_upload_ctx_err w then (None, s1) else (Some metricsRetryDelay, s1)
            | None \<Rightarrow> (Some metricsInterval, s1\<lparr>mt_buffer := []\<rparr>)))"

definition metrics_cycle :: "(json \<Rightarrow> bytes option) \<Rightarrow> metrics_round \<Rightarrow> metrics_state \<Rightarrow> time option \<times> metrics_state" where
  "metrics_cycle encode w s =
     (if mr_done w then (None, s)
      else if needs_creds w s then
        (case fetchIngestCredentials (mr_signed w) (mr_creds w) of
           Inl (DeviceRefused e) \<Rightarrow> (None, s)
         | Inl (ApiError e) \<Rightarrow> if mr_creds_ctx_err w then (None, s) else (Some metricsRetryDelay, s)
         | Inr c \<Rightarrow> metrics_upload encode w c (s\<lparr>mt_creds := Some c, mt_fetched := mr_fetched w\<rparr>))
      else (case mt_creds s of Some c \<Rightarrow> metrics_upload encode w c s | None \<Rightarrow> (None, s)))"

definition runMetricsReporter :: "(json \<Rightarrow> bytes option) \<Rightarrow> metrics_round list \<Rightarrow> time list \<times> metrics_state \<times> bool" where
  "runMetricsReporter encode ws = cycles (metrics_cycle encode) ws metrics_start"

section \<open>Trimming\<close>

lemma trim_right_byte_snoc: "trim_right_byte c (s @ [x]) = (if x = c then trim_right_byte c s else s @ [x])"
  by (simp add: trim_right_byte_def)

text \<open>The agent's own loop is \<open>strings.TrimRight\<close>, which its other requests use.\<close>

lemma trimSlash_TrimRight: "trimSlash s = trim_right_byte CHR ''/'' s"
proof (induction s rule: rev_induct)
  case Nil
  then show ?case by (simp add: trimSlash.simps [of "[]"] trim_right_byte_def)
next
  case (snoc x s)
  then show ?case by (simp add: trimSlash.simps [of "s @ [x]"] trim_right_byte_snoc)
qed

section \<open>The buffer is the end of the log\<close>

definition newest :: "nat \<Rightarrow> 'a list \<Rightarrow> 'a list" where
  "newest n xs = drop (length xs - n) xs"

lemma appendBounded_newest: "appendBounded buffer batch n = newest n (buffer @ batch)"
  by (simp add: appendBounded_def newest_def Let_def)

lemma newest_append: "newest n (newest n xs @ ys) = newest n (xs @ ys)"
proof (cases "length xs \<le> n")
  case False
  then have "newest n xs = drop (length xs - n) xs" "length (newest n xs @ ys) - n = length ys"
    by (simp_all add: newest_def)
  with False show ?thesis by (simp add: newest_def add.commute)
qed (simp add: newest_def)

lemma length_newest: "length (newest n xs) \<le> n"
  by (simp add: newest_def)

text \<open>
  The reporter without a bound: the credentials it holds, when it got them, and every document sampled since
  the last upload that was accepted. A round without credentials samples nothing; any other adds its batch,
  and offers the newest sixty documents. They are sent if there are any and all of them can be encoded; a status
  2xx then empties the log, a 401 or 403 drops the credentials, and any other outcome changes nothing more.
\<close>

record sample_log =
  sl_creds :: "ingestCredentials option"
  sl_fetched :: time
  sl_docs :: "json list"

definition log_start :: sample_log where
  "log_start = \<lparr>sl_creds = None, sl_fetched = 0, sl_docs = []\<rparr>"

definition granted_creds :: "metrics_round \<Rightarrow> ingestCredentials option" where
  "granted_creds w =
     (case (mr_signed w, mr_creds w) of
        (Inr a, Reply code (Some (success, c))) \<Rightarrow>
          if code = 200 \<and> success \<and> ic_APIKey c \<noteq> [] \<and> ic_ElasticsearchURL c \<noteq> [] then Some c else None
      | _ \<Rightarrow> None)"

definition in_use :: "metrics_round \<Rightarrow> sample_log \<Rightarrow> (ingestCredentials \<times> time) option" where
  "in_use w l =
     (case sl_creds l of
        Some c \<Rightarrow>
          if mr_now w - sl_fetched l \<le> 24 * hour then Some (c, sl_fetched l)
          else map_option (\<lambda>c. (c, mr_fetched w)) (granted_creds w)
      | None \<Rightarrow> map_option (\<lambda>c. (c, mr_fetched w)) (granted_creds w))"

definition upload_status :: "metrics_round \<Rightarrow> int option" where
  "upload_status w = (case mr_upload w of Reply code b \<Rightarrow> Some code | NoReply e \<Rightarrow> None)"

definition log_upload :: "(json \<Rightarrow> bytes option) \<Rightarrow> metrics_round \<Rightarrow> ingestCredentials \<times> time \<Rightarrow> json list \<Rightarrow> sample_log" where
  "log_upload encode w ct docs =
     (let (c, t) = ct;
          sent = (docs \<noteq> [] \<and> bulk_body encode (ic_IndexPrefix c @ ''-'' @ mr_day w) (newest 60 docs) \<noteq> None);
          status = (if sent then upload_status w else None)
      in \<lparr>sl_creds = (if status = Some 401 \<or> status = Some 403 then None else Some c), sl_fetched = t,
          sl_docs = (case status of Some code \<Rightarrow> if 200 \<le> code \<and> code < 300 then [] else docs | None \<Rightarrow> docs)\<rparr>)"

definition log_round :: "(json \<Rightarrow> bytes option) \<Rightarrow> metrics_round \<Rightarrow> sample_log \<Rightarrow> sample_log" where
  "log_round encode w l =
     (if mr_done w then l
      else (case in_use w l of
              None \<Rightarrow> l
            | Some ct \<Rightarrow> log_upload encode w ct (sl_docs l @ sample_batch w)))"

definition log_of :: "metrics_state \<Rightarrow> sample_log \<Rightarrow> bool" where
  "log_of s l \<longleftrightarrow>
     mt_buffer s = newest 60 (sl_docs l) \<and> mt_creds s = sl_creds l \<and> mt_fetched s = sl_fetched l"

lemma newest_Nil [simp]: "newest 60 xs = [] \<longleftrightarrow> xs = []" "newest n [] = []"
  by (cases xs; simp add: newest_def)+

lemma granted_fetch:
  "granted_creds w = (case fetchIngestCredentials (mr_signed w) (mr_creds w) of Inr c \<Rightarrow> Some c | Inl e \<Rightarrow> None)"
  by (auto simp: granted_creds_def fetchIngestCredentials_def split: sum.split api_reply.split option.split)

lemma upload_simulates:
  assumes "mt_buffer s = newest 60 docs" "mt_creds s = Some c" "mt_fetched s = t"
    and "metrics_upload encode w c s = (r, s')"
  shows "log_of s' (log_upload encode w (c, t) (docs @ sample_batch w))"
proof -
  have b: "appendBounded (mt_buffer s) (sample_batch w) maxBufferedSamples = newest 60 (docs @ sample_batch w)"
    by (simp add: appendBounded_newest assms(1) newest_append maxBufferedSamples_def)
  from assms(2-4) show ?thesis
    unfolding metrics_upload_def Let_def b
    by (auto simp: shipMetrics_def log_upload_def log_of_def upload_status_def dailyIndex_def
        split: if_splits option.splits ship_error.splits api_reply.splits)
qed

lemma cycle_simulates:
  assumes "log_of s l" "metrics_cycle encode w s = (r, s')"
  shows "log_of s' (log_round encode w l)"
proof -
  consider (over) "mr_done w" | (fetch) "\<not> mr_done w" "needs_creds w s" | (held) c where "\<not> mr_done w" "\<not> needs_creds w s" "mt_creds s = Some c"
    by (cases "mr_done w"; cases "mt_creds s"; cases "needs_creds w s") (auto simp: needs_creds_def)
  then show ?thesis
  proof cases
    case over
    with assms show ?thesis by (simp add: metrics_cycle_def log_round_def)
  next
    case fetch
    with assms(1) have use: "in_use w l = map_option (\<lambda>c. (c, mr_fetched w)) (granted_creds w)"
      by (auto simp: needs_creds_def in_use_def log_of_def ingestCredentialsTTL_def split: option.split)
    show ?thesis
    proof (cases "fetchIngestCredentials (mr_signed w) (mr_creds w)")
      case (Inl e)
      with fetch use assms show ?thesis
        by (auto simp: metrics_cycle_def log_round_def granted_fetch split: api_error.splits if_splits)
    next
      case (Inr c)
      with fetch assms(2)
      have "metrics_upload encode w c (s\<lparr>mt_creds := Some c, mt_fetched := mr_fetched w\<rparr>) = (r, s')"
        by (simp add: metrics_cycle_def)
      from upload_simulates [OF _ _ _ this, of "sl_docs l"] fetch use Inr assms(1) show ?thesis
        by (simp add: log_round_def granted_fetch log_of_def)
    qed
  next
    case held
    with assms have "metrics_upload encode w c s = (r, s')" by (simp add: metrics_cycle_def)
    then have "log_of s' (log_upload encode w (c, sl_fetched l) (sl_docs l @ sample_batch w))"
      using held(3) assms(1) by (intro upload_simulates [of s]) (simp_all add: log_of_def)
    moreover have "in_use w l = Some (c, sl_fetched l)"
      using held(2,3) assms(1) by (cases "sl_creds l") (auto simp: needs_creds_def in_use_def log_of_def ingestCredentialsTTL_def)
    ultimately show ?thesis using held(1) by (simp add: log_round_def)
  qed
qed

lemma cycles_simulate:
  "log_of s l \<Longrightarrow> cycles (metrics_cycle encode) ws s = (ds, s', stopped) \<Longrightarrow>
   log_of s' (fold (log_round encode) (take (length ds + of_bool stopped) ws) l) \<and>
   (\<not> stopped \<longrightarrow> length ds = length ws)"
proof (induction ws arbitrary: s l ds)
  case (Cons w ws)
  obtain r s1 where c: "metrics_cycle encode w s = (r, s1)" by (cases "metrics_cycle encode w s")
  note step = cycle_simulates [OF Cons.prems(1) c]
  show ?case
  proof (cases r)
    case None
    with c step Cons.prems(2) show ?thesis by auto
  next
    case (Some d)
    with c Cons.prems(2) obtain ds1 where ds1: "cycles (metrics_cycle encode) ws s1 = (ds1, s', stopped)" "ds = d # ds1"
      by (auto split: prod.splits)
    from Cons.IH [OF step ds1(1)] ds1(2) show ?thesis by simp
  qed
qed simp

text \<open>
  C29. However uploads and credentials fail, the reporter refines one that keeps every document sampled since the
  last accepted upload: at every point its buffer holds the newest sixty of them, and its credentials are the
  same. So a round with credentials always samples, a failed upload loses nothing but the oldest documents, the
  buffer is emptied only by an upload that was sent and answered with 2xx, credentials are dropped only for a 401 or
  403, and the buffer's size is bounded.
\<close>

theorem metrics_buffer_refines:
  assumes "runMetricsReporter encode ws = (ds, s, stopped)"
    and "l = fold (log_round encode) (take (length ds + (if stopped then 1 else 0)) ws) log_start"
  shows "mt_buffer s = newest 60 (sl_docs l) \<and> mt_creds s = sl_creds l \<and> length (mt_buffer s) \<le> 60 \<and>
    (\<not> stopped \<longrightarrow> length ds = length ws)"
proof -
  have start: "log_of metrics_start log_start" by (simp add: log_of_def metrics_start_def log_start_def)
  have "log_of s l \<and> (\<not> stopped \<longrightarrow> length ds = length ws)"
    using cycles_simulate [OF start assms(1) [unfolded runMetricsReporter_def]] unfolding assms(2) of_bool_def .
  then show ?thesis using length_newest [of 60 "sl_docs l"] by (simp add: log_of_def)
qed

definition demo_readings :: sys_readings where
  "demo_readings =
     \<lparr>sy_now = ''t'', sy_cpu = Some [0], sy_cores = Some 4, sy_mem = None, sy_load = None, sy_load_cores = Some 4, sy_host = None\<rparr>"

definition demo_metrics :: "int \<Rightarrow> metrics_round" where
  "demo_metrics code =
     \<lparr>mr_version = ''v1'', mr_deviceID = ''d1'', mr_orgID = ''o1'', mr_done = False, mr_now = 0, mr_signed = Inr ''assertion'',
      mr_creds = Reply 200 (Some (True, \<lparr>ic_ElasticsearchURL = ''https://es'', ic_APIKey = ''k'', ic_IndexPrefix = ''m'', ic_ExpiresAt = []\<rparr>)),
      mr_fetched = 0, mr_creds_ctx_err = False, mr_readings = demo_readings, mr_partitions = (''t'', None), mr_counters = (''t'', None),
      mr_day = ''2026.01.01'', mr_upload = Reply code None, mr_upload_ctx_err = False\<rparr>"

theorem metrics_buffer_refines_witness:
  "\<exists>ds s. runMetricsReporter (\<lambda>_. Some []) [demo_metrics 200, demo_metrics 503, demo_metrics 403] = (ds, s, False) \<and>
     mt_buffer s = sample_batch (demo_metrics 503) @ sample_batch (demo_metrics 403) \<and> length (mt_buffer s) = 2 \<and> mt_creds s = None"
proof -
  let ?ws = "[demo_metrics 200, demo_metrics 503, demo_metrics 403]"
  obtain ds s stopped where r: "runMetricsReporter (\<lambda>_. Some []) ?ws = (ds, s, stopped)"
    by (cases "runMetricsReporter (\<lambda>_. Some []) ?ws")
  have "length (fst (runMetricsReporter (\<lambda>_. Some []) ?ws)) = 3 \<and> \<not> snd (snd (runMetricsReporter (\<lambda>_. Some []) ?ws))"
    by code_simp
  with r have "length ds = 3" "\<not> stopped" by simp_all
  moreover have "sl_docs (fold (log_round (\<lambda>_. Some [])) ?ws log_start) = sample_batch (demo_metrics 503) @ sample_batch (demo_metrics 403) \<and>
      sl_creds (fold (log_round (\<lambda>_. Some [])) ?ws log_start) = None \<and>
      length (sample_batch (demo_metrics 503) @ sample_batch (demo_metrics 403)) = 2"
    by code_simp
  ultimately show ?thesis
    using metrics_buffer_refines [OF r refl] r by (simp add: newest_def)
qed

section \<open>Pace, refusal and the limits of the buffer\<close>

definition metrics_refused :: "metrics_round \<Rightarrow> metrics_state \<Rightarrow> bool" where
  "metrics_refused w s \<longleftrightarrow> needs_creds w s \<and>
     (case fetchIngestCredentials (mr_signed w) (mr_creds w) of Inl (DeviceRefused e) \<Rightarrow> True | _ \<Rightarrow> False)"

interpretation metrics: reporter "metrics_cycle encode" metrics_refused metricsInterval metricsRetryDelay
proof unfold_locales
  fix w s d
  assume "fst (metrics_cycle encode w s) = Some d"
  then show "metricsInterval \<le> d \<and> d \<le> metricsRetryDelay"
    by (auto simp: metrics_cycle_def metrics_upload_def Let_def metricsInterval_def metricsRetryDelay_def
        split: if_splits sum.splits option.splits api_error.splits ship_error.splits)
qed (auto simp: metrics_refused_def metrics_cycle_def split: sum.splits api_error.splits)

text \<open>
  The bound counts documents, not samples: a round of more than sixty loses its first document, the system
  sample, before any upload is tried.
\<close>

lemma wide_round_loses_sample:
  assumes "mr_sample w = Inr d" "59 < length (mr_filesystems w @ mr_networks w)" "d \<notin> set (mr_filesystems w @ mr_networks w)"
  shows "d \<notin> set (appendBounded [] (sample_batch w) maxBufferedSamples)"
proof -
  define n where "n = length (mr_filesystems w @ mr_networks w) - 60"
  then have "length (mr_filesystems w @ mr_networks w) = 60 + n" using assms(2) by simp
  then have "appendBounded [] (sample_batch w) maxBufferedSamples = drop n (mr_filesystems w @ mr_networks w)"
    using assms(1) by (simp add: appendBounded_def sample_batch_def maxBufferedSamples_def)
  then show ?thesis using assms(3) in_set_dropD by metis
qed

text \<open>A document JSON cannot express keeps every upload from being sent while it is in the buffer.\<close>

lemma unencodable_blocks: "d \<in> set docs \<Longrightarrow> encode d = None \<Longrightarrow> shipMetrics encode day creds docs r = Some (ShipError ''json: unsupported value'')"
proof -
  assume d: "d \<in> set docs" "encode d = None"
  then have "bulk_body encode index docs = None" for index
    by (induction docs) (auto split: option.split)
  with d show ?thesis by (auto simp: shipMetrics_def)
qed

end
