(* ===== verification/AgentMain.thy ===== *)
theory AgentMain
  imports AgentLoop Ticket Inventory Metrics
begin

text \<open>
  The daemon's life: \<open>cmd/agent/main.go\<close>, the dial of \<open>runOnce\<close> and the Windows service of
  \<open>cmd/agent/service_windows.go\<close>. A start reads the configuration, enrols the device if it has to, opens
  or makes its key, and starts the reporters and the reconnect loop. The disk it finds and leaves is a value.
\<close>

section \<open>The command line\<close>

datatype entry = PrintVersion string | TicketCommand "string list" | Service | Daemon

text \<open>\<open>args\<close> is \<open>os.Args\<close>, \<open>is_service\<close> what \<open>svc.IsWindowsService\<close> gives; off Windows it is \<open>Inr False\<close>.\<close>

definition runAsService :: "string + bool \<Rightarrow> bool" where
  "runAsService is_service = (case is_service of Inl e \<Rightarrow> False | Inr b \<Rightarrow> b)"

definition agent_main :: "string \<Rightarrow> string + bool \<Rightarrow> string list \<Rightarrow> entry" where
  "agent_main version is_service args =
     (let rest = (if runAsService is_service then Service else Daemon) in
      if 1 < length args then
        (if args ! 1 \<in> {''--version'', ''-v'', ''version''} then PrintVersion (version @ [CHR 0x0A])
         else if args ! 1 = ''ticket'' then TicketCommand (drop 2 args)
         else rest)
      else rest)"

section \<open>Start\<close>

definition override_keys :: "string list" where
  "override_keys = [''HASFY_API_URL'', ''HASFY_RELAY_URL'', ''HASFY_DEVICE_ID'', ''HASFY_ORG_ID'', envDeviceEnrollmentToken]"

definition override_one :: "(string, string) gomap \<Rightarrow> string \<Rightarrow> (string, string) gomap \<Rightarrow> (string, string) gomap" where
  "override_one proc k env = (if getenv k proc \<noteq> [] then gm_set k (getenv k proc) env else env)"

definition override_env :: "(string, string) gomap \<Rightarrow> (string, string) gomap \<Rightarrow> (string, string) gomap" where
  "override_env proc env = fold (override_one proc) override_keys env"

definition path_or :: "string \<Rightarrow> (string, string) gomap \<Rightarrow> string \<Rightarrow> string" where
  "path_or k proc fallback = (if getenv k proc = [] then fallback else getenv k proc)"

record agent_paths =
  ap_env :: string
  ap_key :: string
  ap_status :: string

definition agent_paths :: "string \<Rightarrow> (string, string) gomap \<Rightarrow> agent_paths" where
  "agent_paths goos proc =
     \<lparr>ap_env = path_or ''HASFY_ENV_FILE'' proc (defaultEnvFilePath goos),
      ap_key = path_or ''HASFY_DEVICE_KEY_FILE'' proc (defaultKeyPath goos),
      ap_status = path_or ''HASFY_STATUS_FILE'' proc (defaultStatusFilePath goos)\<rparr>"

text \<open>
  What a start meets: the build, the platform, the process environment, errors of reading the files, the turns
  of an enrolment and \<open>ctx.Err()\<close> after it, and randomness and outcomes for a new key.
\<close>

record boot_input =
  bi_version :: string
  bi_goos :: string
  bi_goarch :: string
  bi_hostname :: string
  bi_proc :: "(string, string) gomap"
  bi_env_error :: "string option"
  bi_turns :: "nat \<Rightarrow> enroll_turn"
  bi_json :: "EnrollmentStatus \<Rightarrow> bytes"
  bi_ctx_err :: bool
  bi_key_error :: "string option"
  bi_seed :: bytes
  bi_key_outs :: "fs_outcome list"

record agent_disk =
  dk_env :: dir
  dk_status :: dir
  dk_key :: "fs_file option"

definition read_file :: "string option \<Rightarrow> fs_file option \<Rightarrow> file_read" where
  "read_file err f =
     (case err of Some e \<Rightarrow> Unreadable e | None \<Rightarrow> (case f of None \<Rightarrow> NotExist | Some x \<Rightarrow> Contents (fl_data x)))"

text \<open>What the goroutines of a started daemon are given.\<close>

record agent_start =
  as_apiURL :: string
  as_relayURL :: string
  as_identity :: deviceIdentity
  as_hello :: Register
  as_enroll :: enrollmentState

datatype boot_end = Exit2 string | Stopping | Power_off | Started agent_start

text \<open>\<open>runAgent\<close> from the enrolled configuration on.\<close>

definition boot_identity ::
  "boot_input \<Rightarrow> string \<Rightarrow> (string, string) gomap \<Rightarrow> agent_disk \<Rightarrow> boot_end \<times> agent_disk" where
  "boot_identity b apiURL env d =
     (case loadOrCreateIdentity (bi_key_error b) (bi_seed b) (bi_key_outs b) (getenv ''HASFY_DEVICE_ID'' env) (dk_key d) of
        (None, k) \<Rightarrow> (Power_off, d\<lparr>dk_key := k\<rparr>)
      | (Some (Inl e), k) \<Rightarrow> (Exit2 (''device identity: '' @ e), d\<lparr>dk_key := k\<rparr>)
      | (Some (Inr (identity, created)), k) \<Rightarrow>
          (Started
             \<lparr>as_apiURL = apiURL, as_relayURL = getenv ''HASFY_RELAY_URL'' env, as_identity = identity,
              as_hello =
                \<lparr>r_DeviceID = getenv ''HASFY_DEVICE_ID'' env, r_OrgID = getenv ''HASFY_ORG_ID'' env, r_Hostname = bi_hostname b,
                 r_OS = bi_goos b, r_Arch = bi_goarch b, r_Version = bi_version b, r_Tags = []\<rparr>,
              as_enroll =
                \<lparr>en_needed = created, en_secret = getenv envDeviceEnrollmentToken env,
                 en_envPath = ap_env (agent_paths (bi_goos b) (bi_proc b))\<rparr>\<rparr>,
           d\<lparr>dk_key := k\<rparr>))"

text \<open>\<open>None\<close> is an enrolment that never returns.\<close>

definition runAgent_boot :: "boot_input \<Rightarrow> agent_disk \<Rightarrow> (boot_end \<times> agent_disk) option" where
  "runAgent_boot b d =
     (let paths = agent_paths (bi_goos b) (bi_proc b) in
      case loadEnvFile (read_file (bi_env_error b) (d_file (dk_env d))) of
        (Some e, env0) \<Rightarrow> Some (Exit2 (''read '' @ ap_env paths @ '': '' @ e), d)
      | (None, env0) \<Rightarrow>
          (let env = override_env (bi_proc b) env0;
               apiURL = firstNonEmpty [getenv ''HASFY_API_URL'' env, defaultAPIBaseURL]
           in if isEnrolled env then Some (boot_identity b apiURL env d)
              else
                (case runSelfEnrollment (bi_json b) (ap_status paths) apiURL (bi_turns b) 0
                        \<lparr>ef_env = dk_env d, ef_status = dk_status d\<rparr> of
                   None \<Rightarrow> None
                 | Some (EnrollFailed e, fs) \<Rightarrow>
                     Some (if bi_ctx_err b then Stopping else Exit2 (''enrollment failed: '' @ e),
                           d\<lparr>dk_env := ef_env fs, dk_status := ef_status fs\<rparr>)
                 | Some (Enrolled env1, fs) \<Rightarrow>
                     Some (boot_identity b (firstNonEmpty [getenv ''HASFY_API_URL'' env1, apiURL]) env1
                             (d\<lparr>dk_env := ef_env fs, dk_status := ef_status fs\<rparr>)))))"

section \<open>The reconnect loop\<close>

text \<open>What \<open>runOnce\<close> opens a connection with: the URL, the header and the first frame.\<close>

record dial =
  dl_url :: string
  dl_headers :: "(string \<times> string list) list"
  dl_first :: Frame

definition runOnce_dial :: "string \<Rightarrow> string \<Rightarrow> Register \<Rightarrow> dial" where
  "runOnce_dial url token reg =
     \<lparr>dl_url = url, dl_headers = [(''Authorization'', [''Bearer '' @ token])],
      dl_first = (frame TypeRegister [] [])\<lparr>f_Register := Some reg\<rparr>\<rparr>"

text \<open>
  One iteration: the token store when the connection was dialled, \<open>ctx.Err()\<close> after \<open>runOnce\<close> returned, and
  whether the context ended the wait. \<open>None\<close> is the return; the state is the backoff.
\<close>

record attempt =
  at_store :: tokenStore
  at_ctx_err :: bool
  at_done :: bool

definition backoff_next :: "time \<Rightarrow> time" where
  "backoff_next b = (if b < minute then b * 2 else b)"

definition reconnect_cycle :: "attempt \<Rightarrow> time \<Rightarrow> time option \<times> time" where
  "reconnect_cycle w backoff =
     (if at_ctx_err w \<or> at_done w then (None, backoff) else (Some backoff, backoff_next backoff))"

definition dials :: "agent_start \<Rightarrow> attempt list \<Rightarrow> dial list" where
  "dials st ws = map (\<lambda>w. runOnce_dial (as_relayURL st) (tokenStore_get (at_store w)) (as_hello st)) ws"

text \<open>
  The end of \<open>runAgent\<close>: \<open>waited\<close> is what \<open>store.wait\<close> gave. The connections it opens, the delays between
  them, and whether it returned.
\<close>

definition runAgent_loop :: "agent_start \<Rightarrow> bool \<Rightarrow> attempt list \<Rightarrow> dial list \<times> time list \<times> bool" where
  "runAgent_loop st waited ws =
     (if \<not> waited then ([], [], True)
      else (case cycles reconnect_cycle ws second of
              (ds, b, returned) \<Rightarrow> (dials st (take (if returned then Suc (length ds) else length ds) ws), ds, returned)))"

section \<open>The Windows service\<close>

datatype svc_state = StartPending | Running | StopPending | Stopped

text \<open>The order in which a service goes through its states.\<close>

fun svc_rank :: "svc_state \<Rightarrow> nat" where
  "svc_rank StartPending = 0"
| "svc_rank Running = 1"
| "svc_rank StopPending = 2"
| "svc_rank Stopped = 3"

lemma svc_rank_inject: "svc_rank a = svc_rank b \<Longrightarrow> a = b"
  by (cases a; cases b) simp_all

instantiation svc_state :: linorder
begin

definition less_eq_svc_state :: "svc_state \<Rightarrow> svc_state \<Rightarrow> bool" where
  "less_eq_svc_state a b \<longleftrightarrow> svc_rank a \<le> svc_rank b"

definition less_svc_state :: "svc_state \<Rightarrow> svc_state \<Rightarrow> bool" where
  "less_svc_state a b \<longleftrightarrow> svc_rank a < svc_rank b"

instance
  by standard (auto simp: less_eq_svc_state_def less_svc_state_def dest: svc_rank_inject)

end

datatype svc_cmd = Interrogate | Stop | Shutdown | OtherCmd int

record svc_status =
  sv_State :: svc_state
  sv_Accepts :: "svc_cmd list"
  sv_WaitHint :: "32 word"

definition acceptedControls :: "svc_cmd list" where "acceptedControls = [Stop, Shutdown]"

definition svc_status :: "svc_state \<Rightarrow> svc_status" where
  "svc_status st = \<lparr>sv_State = st, sv_Accepts = [], sv_WaitHint = 0\<rparr>"

text \<open>
  What ends the wait of the handler: the daemon returned, the daemon called \<open>os.Exit\<close>, or a control
  came with the status the manager last saw.
\<close>

datatype svc_event = DaemonReturned | DaemonExits int | Control svc_cmd svc_status

text \<open>The handler's own result, or the exit of the process under it.\<close>

datatype svc_end = Returns bool "32 word" | ProcessExits int

definition startup_statuses :: "svc_status list" where
  "startup_statuses =
     [(svc_status StartPending)\<lparr>sv_WaitHint := word_of_int (30 * second div millisecond)\<rparr>,
      (svc_status Running)\<lparr>sv_Accepts := acceptedControls\<rparr>]"

text \<open>
  The statuses sent, whether the daemon's context was cancelled before the return, and the end. The wait after
  a stop ends when the daemon returns and by itself after 20 seconds; only an exit of the process cuts it short.
\<close>

definition svc_stop :: "svc_event list \<Rightarrow> svc_status list \<times> bool \<times> svc_end option" where
  "svc_stop es =
     (let pending = (svc_status StopPending)\<lparr>sv_WaitHint := word_of_int (20 * second div millisecond)\<rparr> in
      case es of
        DaemonExits code # _ \<Rightarrow> ([pending], True, Some (ProcessExits code))
      | _ \<Rightarrow> ([pending, svc_status Stopped], True, Some (Returns False 0)))"

fun svc_loop :: "svc_event list \<Rightarrow> svc_status list \<times> bool \<times> svc_end option" where
  "svc_loop [] = ([], False, None)"
| "svc_loop (DaemonReturned # es) = ([svc_status Stopped], False, Some (Returns False 1))"
| "svc_loop (DaemonExits code # es) = ([], False, Some (ProcessExits code))"
| "svc_loop (Control c current # es) =
     (case c of
        Interrogate \<Rightarrow> (case svc_loop es of (sts, b, r) \<Rightarrow> (current # sts, b, r))
      | Stop \<Rightarrow> svc_stop es
      | Shutdown \<Rightarrow> svc_stop es
      | OtherCmd k \<Rightarrow> svc_loop es)"

definition Execute :: "svc_event list \<Rightarrow> svc_status list \<times> bool \<times> svc_end option" where
  "Execute es = (case svc_loop es of (sts, b, r) \<Rightarrow> (startup_statuses @ sts, b, r))"

section \<open>Configuration\<close>

lemma getenv_gm_set [simp]: "getenv k (gm_set k' v m) = (if k = k' then v else getenv k m)"
  by (simp add: getenv_def)

lemma getenv_override_fold:
  "getenv k (fold (override_one proc) ks env) =
     (if k \<in> set ks \<and> getenv k proc \<noteq> [] then getenv k proc else getenv k env)"
  by (induction ks arbitrary: env) (auto simp: override_one_def)

text \<open>The process environment wins over the file for the five names it may set, and for no other.\<close>

lemma getenv_override:
  "getenv k (override_env proc env) =
     (if k \<in> set override_keys \<and> getenv k proc \<noteq> [] then getenv k proc else getenv k env)"
  unfolding override_env_def by (rule getenv_override_fold)

lemma boot_identity_started:
  assumes "boot_identity b api env d = (Started st, d')"
  obtains created where
    "loadOrCreateIdentity (bi_key_error b) (bi_seed b) (bi_key_outs b) (getenv ''HASFY_DEVICE_ID'' env) (dk_key d) =
       (Some (Inr (as_identity st, created)), dk_key d')"
    "en_needed (as_enroll st) \<longleftrightarrow> created" "en_secret (as_enroll st) = getenv envDeviceEnrollmentToken env"
    "as_relayURL st = getenv ''HASFY_RELAY_URL'' env" "r_DeviceID (as_hello st) = getenv ''HASFY_DEVICE_ID'' env"
    "r_OrgID (as_hello st) = getenv ''HASFY_ORG_ID'' env" "dk_env d' = dk_env d"
  using assms by (auto simp: boot_identity_def split: prod.splits option.splits sum.splits)

lemma boot_started:
  assumes "runAgent_boot b d = Some (Started st, d')"
  obtains api env d0 where "boot_identity b api env d0 = (Started st, d')" "dk_key d0 = dk_key d"
proof -
  note boot = assms [unfolded runAgent_boot_def Let_def]
  obtain err env0 where l: "loadEnvFile (read_file (bi_env_error b) (d_file (dk_env d))) = (err, env0)" by fastforce
  from boot l have err: "err = None" by (cases err) auto
  show ?thesis
  proof (cases "isEnrolled (override_env (bi_proc b) env0)")
    case True
    with boot l err that show ?thesis by auto
  next
    case False
    with boot l err that show ?thesis
      by (auto split: option.splits prod.splits enroll_end.splits if_splits)
  qed
qed

text \<open>A start from an enrolled configuration does not touch the environment file and does not enrol.\<close>

lemma boot_enrolled:
  assumes "loadEnvFile (read_file (bi_env_error b) (d_file (dk_env d))) = (None, env0)"
    and "isEnrolled (override_env (bi_proc b) env0)"
  obtains api where "runAgent_boot b d = Some (boot_identity b api (override_env (bi_proc b) env0) d)"
  using assms by (simp add: runAgent_boot_def Let_def)

lemma boot_enrolls:
  assumes "loadEnvFile (read_file (bi_env_error b) (d_file (dk_env d))) = (None, env0)"
    and "\<not> isEnrolled (override_env (bi_proc b) env0)"
    and "runSelfEnrollment (bi_json b) (ap_status (agent_paths (bi_goos b) (bi_proc b)))
      (firstNonEmpty [getenv ''HASFY_API_URL'' (override_env (bi_proc b) env0), defaultAPIBaseURL]) (bi_turns b) 0
      \<lparr>ef_env = dk_env d, ef_status = dk_status d\<rparr> = Some (Enrolled env1, fs)"
  obtains api where "runAgent_boot b d = Some (boot_identity b api env1 (d\<lparr>dk_env := ef_env fs, dk_status := ef_status fs\<rparr>))"
  using assms by (simp add: runAgent_boot_def Let_def)

section \<open>Properties\<close>

text \<open>
  C27. The device's key is registered by at most one start. A start registers exactly when it made the key; every
  later start of the device finds the key, has the same identity and goes straight to asking for tokens, also
  when the first registration never reached the server.
\<close>

theorem registration_not_retried:
  assumes "length (bi_seed b) = SeedSize" "runAgent_boot b d = Some (Started st, d1)"
    and "length (bi_seed b') = SeedSize" "dk_key d1' = dk_key d1" "runAgent_boot b' d1' = Some (Started st', d2)"
  shows "(en_needed (as_enroll st) \<longleftrightarrow> dk_key d = None) \<and> \<not> en_needed (as_enroll st') \<and>
    token_manager_start (as_enroll st') r outs e = (True, e) \<and>
    di_seed (as_identity st') = di_seed (as_identity st) \<and> dk_key d2 = dk_key d1"
proof -
  from boot_started [OF assms(2)] obtain api env d0 where
    b1: "boot_identity b api env d0 = (Started st, d1)" "dk_key d0 = dk_key d" by blast
  from boot_identity_started [OF b1(1)] obtain created where
    l1: "loadOrCreateIdentity (bi_key_error b) (bi_seed b) (bi_key_outs b) (getenv ''HASFY_DEVICE_ID'' env) (dk_key d0) =
       (Some (Inr (as_identity st, created)), dk_key d1)" "en_needed (as_enroll st) \<longleftrightarrow> created" by blast
  from identity_file [OF l1(1) assms(1)] obtain k where
    k: "dk_key d1 = Some k" "fl_data k = di_seed (as_identity st)" "created \<longleftrightarrow> dk_key d0 = None" by blast
  from boot_started [OF assms(5)] obtain api' env' d0' where
    b2: "boot_identity b' api' env' d0' = (Started st', d2)" "dk_key d0' = dk_key d1'" by blast
  from boot_identity_started [OF b2(1)] obtain created' where
    l2: "loadOrCreateIdentity (bi_key_error b') (bi_seed b') (bi_key_outs b') (getenv ''HASFY_DEVICE_ID'' env') (dk_key d0') =
       (Some (Inr (as_identity st', created')), dk_key d2)" "en_needed (as_enroll st') \<longleftrightarrow> created'" by blast
  from identity_file [OF l2(1) assms(3)] obtain k' where
    k': "dk_key d2 = Some k'" "fl_data k' = di_seed (as_identity st')" "created' \<longleftrightarrow> dk_key d0' = None" by blast
  have old: "dk_key d0' = Some k" by (simp add: b2(2) assms(4) k(1))
  from l2(1) have "dk_key d2 = Some k"
    by (auto simp: loadOrCreateIdentity_def old split: option.splits if_splits)
  with k k' l1(2) l2(2) b1(2) old show ?thesis by (auto simp: token_manager_start_def)
qed

section \<open>A device that enrols and starts again\<close>

text \<open>A start with nothing failing around the files and no override in the process environment.\<close>

definition undisturbed :: "boot_input \<Rightarrow> bool" where
  "undisturbed b \<longleftrightarrow> bi_env_error b = None \<and> bi_key_error b = None \<and> set (bi_key_outs b) \<subseteq> {FsOk} \<and>
     length (bi_seed b) = SeedSize \<and> (\<forall>k \<in> set override_keys. getenv k (bi_proc b) = [])"

lemma undisturbed_override: "undisturbed b \<Longrightarrow> override_env (bi_proc b) env = env"
proof -
  assume "undisturbed b"
  then have "\<And>k. k \<in> set override_keys \<Longrightarrow> getenv k (bi_proc b) = []" by (simp add: undisturbed_def)
  moreover have "fold (override_one proc) ks env = env" if "\<And>k. k \<in> set ks \<Longrightarrow> getenv k proc = []" for proc ks
    using that by (induction ks) (simp_all add: override_one_def)
  ultimately show ?thesis unfolding override_env_def by blast
qed

lemma key_run_ok:
  assumes "set outs \<subseteq> {FsOk}"
  shows "key_run seed key_steps outs None = (Done, Some \<lparr>fl_mode = 384, fl_data = seed\<rparr>)"
proof -
  have "next_outcome os = FsOk \<and> set (tl os) \<subseteq> {FsOk}" if "set os \<subseteq> {FsOk}" for os
    using that by (cases os) (auto simp: next_outcome_def)
  with assms show ?thesis by (simp add: key_run_unfold)
qed

lemma boot_identity_new:
  assumes "undisturbed b" "dk_key d = None"
  obtains st where "boot_identity b api env d = (Started st, d\<lparr>dk_key := Some \<lparr>fl_mode = 384, fl_data = bi_seed b\<rparr>\<rparr>)"
    "en_needed (as_enroll st)" "as_identity st = \<lparr>di_deviceID = getenv ''HASFY_DEVICE_ID'' env, di_seed = bi_seed b\<rparr>"
  using assms by (simp add: boot_identity_def loadOrCreateIdentity_def undisturbed_def key_run_ok)

lemma boot_identity_old:
  assumes "undisturbed b" "dk_key d = Some k" "length (fl_data k) = SeedSize"
  obtains st where "boot_identity b api env d = (Started st, d)" "\<not> en_needed (as_enroll st)"
    "as_identity st = \<lparr>di_deviceID = getenv ''HASFY_DEVICE_ID'' env, di_seed = fl_data k\<rparr>"
  using assms by (simp add: boot_identity_def loadOrCreateIdentity_def undisturbed_def)

text \<open>The first start of a fresh device: what it leaves on the disk reads back as the configuration it runs with.\<close>

lemma first_start:
  assumes "undisturbed b" "d_file (dk_env d) = None" "dk_key d = None"
    and "\<And>k. k < n \<Longrightarrow> offers_again (bi_turns b k)" "succeeds_with (bi_turns b n) e"
    and "env_clean (enrolled_values defaultAPIBaseURL e)"
    and "mset (et_order (bi_turns b n)) = mset (enrolled_values defaultAPIBaseURL e)"
  obtains st d1 f m api where "runAgent_boot b d = Some (Started st, d1)"
    "boot_identity b api (enrolled_values defaultAPIBaseURL e) (d1\<lparr>dk_key := None\<rparr>) = (Started st, d1)"
    "en_needed (as_enroll st)" "as_identity st = \<lparr>di_deviceID = re_DeviceID e, di_seed = bi_seed b\<rparr>"
    "dk_key d1 = Some \<lparr>fl_mode = 384, fl_data = bi_seed b\<rparr>" "d_file (dk_env d1) = Some f"
    "loadEnvFile (Contents (fl_data f)) = (None, m)"
    "\<And>k. getenv k m = getenv k (enrolled_values defaultAPIBaseURL e)"
proof -
  let ?vals = "enrolled_values defaultAPIBaseURL e" and ?sp = "ap_status (agent_paths (bi_goos b) (bi_proc b))"
  have empty: "loadEnvFile (read_file (bi_env_error b) (d_file (dk_env d))) = (None, [])"
    using assms(1) by (simp add: read_file_def undisturbed_def assms(2) loadEnvFile_def)
  have env0: "override_env (bi_proc b) [] = []" by (rule undisturbed_override [OF assms(1)])
  obtain fs f m where run: "runSelfEnrollment (bi_json b) ?sp defaultAPIBaseURL
      (bi_turns b) 0 \<lparr>ef_env = dk_env d, ef_status = dk_status d\<rparr> = Some (Enrolled ?vals, fs)"
    and f: "d_file (ef_env fs) = Some f" "loadEnvFile (Contents (fl_data f)) = (None, m)" "\<And>k. getenv k m = getenv k ?vals"
    by (rule enrollment_run [where w = "bi_turns b" and n = n and json = "bi_json b" and sp = ?sp
        and fs = "\<lparr>ef_env = dk_env d, ef_status = dk_status d\<rparr>", OF assms(4-7)]) (assumption, blast)
  let ?d = "d\<lparr>dk_env := ef_env fs, dk_status := ef_status fs\<rparr>"
  have "getenv k [] = []" for k by (simp add: getenv_def gm_get_def)
  then have "\<not> isEnrolled (override_env (bi_proc b) [])"
    "firstNonEmpty [getenv ''HASFY_API_URL'' (override_env (bi_proc b) []), defaultAPIBaseURL] = defaultAPIBaseURL"
    by (simp_all add: env0 isEnrolled_def)
  with run obtain api where boot: "runAgent_boot b d = Some (boot_identity b api ?vals ?d)"
    using boot_enrolls [OF empty, of ?vals fs] by auto
  obtain st where st: "boot_identity b api ?vals ?d = (Started st, ?d\<lparr>dk_key := Some \<lparr>fl_mode = 384, fl_data = bi_seed b\<rparr>\<rparr>)"
      "en_needed (as_enroll st)" "as_identity st = \<lparr>di_deviceID = getenv ''HASFY_DEVICE_ID'' ?vals, di_seed = bi_seed b\<rparr>"
    using boot_identity_new [OF assms(1), of ?d api ?vals] assms(3) by auto
  let ?d1 = "?d\<lparr>dk_key := Some \<lparr>fl_mode = 384, fl_data = bi_seed b\<rparr>\<rparr>"
  have "?d1\<lparr>dk_key := None\<rparr> = ?d" using assms(3) by (cases d) simp
  with st(1) have "boot_identity b api ?vals (?d1\<lparr>dk_key := None\<rparr>) = (Started st, ?d1)" by simp
  from that [OF _ this st(2) _ _ _ f(2,3)] show ?thesis
    using boot st f(1) by (simp add: getenv_enrolled_values)
qed

text \<open>
  C13. A fresh device comes up and stays itself: when the device flow ends with an approval, however many codes
  lapsed before, the first start has the configuration the server gave, makes a key and the secret to
  register it; the next start reads the same device, organisation, relay and key back from the disk,
  without enrolling again.
\<close>

theorem fresh_device_resumes:
  assumes "undisturbed b" "undisturbed b'" "d_file (dk_env d) = None" "dk_key d = None"
    and "\<And>k. k < n \<Longrightarrow> offers_again (bi_turns b k)" "succeeds_with (bi_turns b n) e" "re_OrgID e \<noteq> []"
    and "env_clean (enrolled_values defaultAPIBaseURL e)"
    and "mset (et_order (bi_turns b n)) = mset (enrolled_values defaultAPIBaseURL e)"
  shows "\<exists>st d1 st'. runAgent_boot b d = Some (Started st, d1) \<and> runAgent_boot b' d1 = Some (Started st', d1) \<and>
    as_relayURL st = re_RelayURL e \<and> r_DeviceID (as_hello st) = re_DeviceID e \<and> r_OrgID (as_hello st) = re_OrgID e \<and>
    en_needed (as_enroll st) \<and> en_secret (as_enroll st) = re_DeviceEnrollmentToken e \<and>
    as_identity st' = as_identity st \<and> as_relayURL st' = as_relayURL st \<and> \<not> en_needed (as_enroll st') \<and>
    r_DeviceID (as_hello st') = r_DeviceID (as_hello st) \<and> r_OrgID (as_hello st') = r_OrgID (as_hello st)"
proof -
  let ?vals = "enrolled_values defaultAPIBaseURL e"
  obtain st d1 f m api where b1: "runAgent_boot b d = Some (Started st, d1)"
      "boot_identity b api ?vals (d1\<lparr>dk_key := None\<rparr>) = (Started st, d1)" "en_needed (as_enroll st)"
      "as_identity st = \<lparr>di_deviceID = re_DeviceID e, di_seed = bi_seed b\<rparr>"
      "dk_key d1 = Some \<lparr>fl_mode = 384, fl_data = bi_seed b\<rparr>" "d_file (dk_env d1) = Some f"
      "loadEnvFile (Contents (fl_data f)) = (None, m)" and m: "\<And>k. getenv k m = getenv k ?vals"
    by (rule first_start [where n = n, OF assms(1,3,4,5,6,8,9)]) (assumption, blast)
  have loads: "loadEnvFile (read_file (bi_env_error b') (d_file (dk_env d1))) = (None, m)"
    using assms(2) by (simp add: read_file_def b1(6,7) undisturbed_def)
  have env: "override_env (bi_proc b') m = m" by (rule undisturbed_override [OF assms(2)])
  have "isEnrolled (override_env (bi_proc b') m)"
    using enrolled_values_enrolled [OF assms(6) m] assms(7) by (simp add: env)
  from boot_enrolled [OF loads this] obtain a2 where b2: "runAgent_boot b' d1 = Some (boot_identity b' a2 m d1)"
    by (auto simp: env)
  have "length (bi_seed b) = SeedSize" using assms(1) by (simp add: undisturbed_def)
  with b1(5) obtain st' where st': "boot_identity b' a2 m d1 = (Started st', d1)" "\<not> en_needed (as_enroll st')"
      "as_identity st' = \<lparr>di_deviceID = getenv ''HASFY_DEVICE_ID'' m, di_seed = bi_seed b\<rparr>"
    using boot_identity_old [OF assms(2), of d1 "\<lparr>fl_mode = 384, fl_data = bi_seed b\<rparr>" a2 m] by auto
  from boot_identity_started [OF b1(2)] obtain c1 where r1: "en_secret (as_enroll st) = getenv envDeviceEnrollmentToken ?vals"
    "as_relayURL st = getenv ''HASFY_RELAY_URL'' ?vals" "r_DeviceID (as_hello st) = getenv ''HASFY_DEVICE_ID'' ?vals"
    "r_OrgID (as_hello st) = getenv ''HASFY_ORG_ID'' ?vals" by blast
  from boot_identity_started [OF st'(1)] obtain c2 where r2: "as_relayURL st' = getenv ''HASFY_RELAY_URL'' m"
    "r_DeviceID (as_hello st') = getenv ''HASFY_DEVICE_ID'' m" "r_OrgID (as_hello st') = getenv ''HASFY_ORG_ID'' m" by blast
  show ?thesis
    by (intro exI [of _ st] exI [of _ d1] exI [of _ st']) (simp add: b1(1,3,4) b2 st' r1 r2 m getenv_enrolled_values)
qed

definition demo_boot :: boot_input where
  "demo_boot =
     \<lparr>bi_version = ''v1'', bi_goos = ''linux'', bi_goarch = ''amd64'', bi_hostname = ''h'', bi_proc = [], bi_env_error = None,
      bi_turns = demo_turn, bi_json = (\<lambda>_. ''{}''), bi_ctx_err = False, bi_key_error = None, bi_seed = demo_seed, bi_key_outs = []\<rparr>"

definition empty_disk :: agent_disk where
  "empty_disk = \<lparr>dk_env = empty_dir, dk_status = empty_dir, dk_key = None\<rparr>"

lemma demo_boot: "undisturbed demo_boot" "length (bi_seed demo_boot) = SeedSize" "bi_turns demo_boot = demo_turn"
  by (simp_all add: undisturbed_def demo_boot_def demo_seed_def SeedSize_def getenv_def gm_get_def)

lemma demo_enrolled_clean:
  "env_clean (enrolled_values defaultAPIBaseURL demo_enrollment)"
  "mset (et_order (demo_turn 1)) = mset (enrolled_values defaultAPIBaseURL demo_enrollment)"
  by (simp_all add: env_clean_def enrolled_values_def demo_enrollment_def gm_wf_def envDeviceEnrollmentToken_def env_entry_def
      env_name_def env_name_char_def env_value_def ascii_def space_char_def unquote_def quoted_by_def defaultAPIBaseURL_def
      demo_turn_def)

theorem fresh_device_resumes_witness:
  "\<exists>st d1 st'. runAgent_boot demo_boot empty_disk = Some (Started st, d1) \<and> runAgent_boot demo_boot d1 = Some (Started st', d1) \<and>
     r_DeviceID (as_hello st') = ''d1'' \<and> en_secret (as_enroll st) = ''one-shot''"
proof -
  have "offers_again (bi_turns demo_boot k)" if "k < 1" for k using that demo_turns(1) by (simp add: demo_boot)
  then show ?thesis
    using fresh_device_resumes [of demo_boot demo_boot empty_disk 1 demo_enrollment] demo_boot demo_turns(2) demo_enrolled_clean
    by (auto simp: empty_disk_def empty_dir_def) (auto simp: demo_enrollment_def)
qed

text \<open>A device that is configured by its process environment alone.\<close>

definition enrolled_boot :: boot_input where
  "enrolled_boot = demo_boot\<lparr>bi_proc :=
     [(''HASFY_DEVICE_ID'', ''d1''), (''HASFY_ORG_ID'', ''o1''), (''HASFY_RELAY_URL'', ''wss://r''), (envDeviceEnrollmentToken, ''s'')]\<rparr>"

lemma enrolled_boot_starts:
  assumes "d_file (dk_env d) = None"
  obtains api env where "runAgent_boot enrolled_boot d = Some (boot_identity enrolled_boot api env d)"
proof -
  have "loadEnvFile (read_file (bi_env_error enrolled_boot) (d_file (dk_env d))) = (None, [])"
    by (simp add: read_file_def assms loadEnvFile_def enrolled_boot_def demo_boot_def)
  moreover have "isEnrolled (override_env (bi_proc enrolled_boot) [])"
    by (simp add: isEnrolled_def getenv_override override_keys_def) (simp add: enrolled_boot_def getenv_def gm_get_def)
  ultimately show ?thesis using that by (auto elim: boot_enrolled)
qed

theorem registration_not_retried_witness:
  "\<exists>st d1 st' d2. runAgent_boot enrolled_boot empty_disk = Some (Started st, d1) \<and> en_needed (as_enroll st) \<and>
     runAgent_boot enrolled_boot d1 = Some (Started st', d2) \<and>
     token_manager_start (as_enroll st') (NoReply ''no network'') [] empty_dir = (True, empty_dir)"
proof -
  let ?k = "\<lparr>fl_mode = 384, fl_data = demo_seed\<rparr>"
  have b: "bi_key_error enrolled_boot = None" "bi_key_outs enrolled_boot = []" "bi_seed enrolled_boot = demo_seed"
    by (simp_all add: enrolled_boot_def demo_boot_def)
  have seed: "length demo_seed = SeedSize" by (simp add: demo_seed_def SeedSize_def)
  obtain a1 e1 where b1: "runAgent_boot enrolled_boot empty_disk = Some (boot_identity enrolled_boot a1 e1 empty_disk)"
    using enrolled_boot_starts [of empty_disk] by (auto simp: empty_disk_def empty_dir_def)
  obtain st where st: "boot_identity enrolled_boot a1 e1 empty_disk = (Started st, empty_disk\<lparr>dk_key := Some ?k\<rparr>)"
    by (simp add: boot_identity_def loadOrCreateIdentity_def b key_run_ok empty_disk_def)
  obtain a2 e2 where b2: "runAgent_boot enrolled_boot (empty_disk\<lparr>dk_key := Some ?k\<rparr>) =
      Some (boot_identity enrolled_boot a2 e2 (empty_disk\<lparr>dk_key := Some ?k\<rparr>))"
    using enrolled_boot_starts [of "empty_disk\<lparr>dk_key := Some ?k\<rparr>"] by (auto simp: empty_disk_def empty_dir_def)
  obtain st' where st': "boot_identity enrolled_boot a2 e2 (empty_disk\<lparr>dk_key := Some ?k\<rparr>) = (Started st', empty_disk\<lparr>dk_key := Some ?k\<rparr>)"
    by (simp add: boot_identity_def loadOrCreateIdentity_def b empty_disk_def seed)
  have "en_needed (as_enroll st) \<and> token_manager_start (as_enroll st') (NoReply ''no network'') [] empty_dir = (True, empty_dir)"
    using registration_not_retried [of enrolled_boot empty_disk st "empty_disk\<lparr>dk_key := Some ?k\<rparr>" enrolled_boot
        "empty_disk\<lparr>dk_key := Some ?k\<rparr>" st' "empty_disk\<lparr>dk_key := Some ?k\<rparr>" "NoReply ''no network''" "[]" empty_dir] b1 b2 st st' b seed
    by (simp add: empty_disk_def)
  with b1 b2 st st' show ?thesis by auto
qed

section \<open>Reconnecting\<close>

lemma backoff_at: "(backoff_next ^^ n) second = (if n < 6 then 2 ^ n else 64) * second"
proof (induction n)
  case (Suc n)
  then have eq: "(backoff_next ^^ Suc n) second = backoff_next ((if n < 6 then 2 ^ n else 64) * second)"
    by (simp only: funpow.simps comp_apply)
  show ?case
  proof (cases "n < 6")
    case True
    then consider "n = 0" | "n = 1" | "n = 2" | "n = 3" | "n = 4" | "n = 5" by linarith
    then show ?thesis unfolding eq by cases (simp_all add: backoff_next_def)
  next
    case False
    then show ?thesis unfolding eq by (simp add: backoff_next_def)
  qed
qed simp

lemma reconnect_cycles:
  "cycles reconnect_cycle ws b = (ds, b', returned) \<Longrightarrow>
   ds = map (\<lambda>n. (backoff_next ^^ n) b) [0..<length ds] \<and>
   (if returned then length ds < length ws \<and> (at_ctx_err (ws ! length ds) \<or> at_done (ws ! length ds)) else length ds = length ws)"
proof (induction ws arbitrary: b ds)
  case (Cons w ws)
  show ?case
  proof (cases "at_ctx_err w \<or> at_done w")
    case True
    with Cons.prems show ?thesis by (auto simp: reconnect_cycle_def)
  next
    case False
    then have "reconnect_cycle w b = (Some b, backoff_next b)" by (simp add: reconnect_cycle_def)
    with Cons.prems obtain ds1 where r: "cycles reconnect_cycle ws (backoff_next b) = (ds1, b', returned)" "ds = b # ds1"
      by (auto split: prod.splits)
    have "[0..<Suc n] = 0 # map Suc [0..<n]" for n by (simp add: map_Suc_upt upt_conv_Cons)
    then have "ds = map (\<lambda>n. (backoff_next ^^ n) b) [0..<length ds]"
      using Cons.IH [OF r(1)] by (simp add: r(2) comp_def funpow_swap1)
    with Cons.IH [OF r(1)] r(2) show ?thesis by auto
  qed
qed simp

text \<open>
  C38. The agent never gives up its relay: until the context ends it dials again after each connection, one
  more time than it has waited, every time with the token that is newest then. The delays are 1, 2, 4, 8, 16, 32
  and from then on 64 seconds. Without a first token it does not dial at all.
\<close>

theorem reconnects_forever:
  assumes "runAgent_loop st waited ws = (cs, ds, returned)"
  shows "ds = map (\<lambda>n. (if n < 6 then 2 ^ n else 64) * second) [0..<length ds] \<and>
    map dl_headers cs = map (\<lambda>w. [(''Authorization'', [''Bearer '' @ tokenStore_get (at_store w)])]) (take (length cs) ws) \<and>
    (if \<not> waited then cs = [] \<and> ds = []
     else if returned then length cs = Suc (length ds) \<and> (at_ctx_err (ws ! length ds) \<or> at_done (ws ! length ds))
     else length cs = length ws \<and> length ds = length ws)"
proof (cases waited)
  case True
  obtain ds' b r where c: "cycles reconnect_cycle ws second = (ds', b, r)" by (cases "cycles reconnect_cycle ws second")
  with assms True have d: "ds' = ds" "r = returned" "cs = dials st (take (if returned then Suc (length ds) else length ds) ws)"
    by (auto simp: runAgent_loop_def)
  note run = reconnect_cycles [OF c [unfolded d(1,2)]]
  then have ds: "ds = map (\<lambda>n. (if n < 6 then 2 ^ n else 64) * second) [0..<length ds]"
    by (simp only: backoff_at)
  have n: "length cs = (if returned then Suc (length ds) else length ws)"
    using run by (auto simp: d(3) dials_def split: if_splits)
  have "map dl_headers cs = map (\<lambda>w. [(''Authorization'', [''Bearer '' @ tokenStore_get (at_store w)])]) (take (length cs) ws)"
    unfolding n using run by (auto simp: d(3) dials_def runOnce_dial_def take_map comp_def split: if_splits)
  with ds n run True show ?thesis by auto
next
  case False
  with assms show ?thesis by (auto simp: runAgent_loop_def)
qed

definition demo_attempt :: "string \<Rightarrow> attempt" where
  "demo_attempt t = \<lparr>at_store = \<lparr>ts_token = t, ts_ready = True, ts_once = True\<rparr>, at_ctx_err = False, at_done = False\<rparr>"

definition demo_started :: agent_start where
  "demo_started =
     \<lparr>as_apiURL = ''https://app.hasfy.fr'', as_relayURL = ''wss://relay.hasfy.fr/agent/ws'',
      as_identity = \<lparr>di_deviceID = ''d1'', di_seed = demo_seed\<rparr>,
      as_hello = \<lparr>r_DeviceID = ''d1'', r_OrgID = ''o1'', r_Hostname = ''h'', r_OS = ''linux'', r_Arch = ''amd64'', r_Version = ''v1'', r_Tags = []\<rparr>,
      as_enroll = \<lparr>en_needed = False, en_secret = [], en_envPath = []\<rparr>\<rparr>"

theorem reconnects_forever_witness:
  "fst (snd (runAgent_loop demo_started True [demo_attempt ''a'', demo_attempt ''b''])) = [second, 2 * second]"
proof -
  obtain cs ds r where run: "runAgent_loop demo_started True [demo_attempt ''a'', demo_attempt ''b''] = (cs, ds, r)"
    by (cases "runAgent_loop demo_started True [demo_attempt ''a'', demo_attempt ''b'']")
  then have "length ds = 2"
    by (auto simp: runAgent_loop_def reconnect_cycle_def demo_attempt_def)
  with reconnects_forever [OF run] run show ?thesis by (simp add: upt_conv_Cons)
qed

section \<open>A refused device falls silent\<close>

text \<open>
  C37. A device that Hasfy-App refuses stops asking: the token manager, the inventory reporter and the metrics
  reporter each return at the refusal, and whatever could have happened afterwards has no effect. A refused
  registration ends the token manager before its first request.
\<close>

theorem refused_device_silent:
  assumes "cycles token_cycle ts s = (ds, s1, False)" "refuses t"
    and "cycles inventory_cycle vs v = (vs', v1, False)" "inventory_refused i"
    and "cycles (metrics_cycle encode) ms m = (ms', m1, False)" "metrics_refused r m1"
    and "en_needed en" "en_secret en \<noteq> []"
  shows "(\<exists>s2. \<forall>later. cycles token_cycle (ts @ t # later) s = (ds, s2, True)) \<and>
    (\<exists>v2. \<forall>later. cycles inventory_cycle (vs @ i # later) v = (vs', v2, True)) \<and>
    (\<exists>m2. \<forall>later. cycles (metrics_cycle encode) (ms @ r # later) m = (ms', m2, True)) \<and>
    runTokenManager en (Reply 401 body) outs d ts s = ([], s, True)"
proof (intro conjI)
  show "runTokenManager en (Reply 401 body) outs d ts s = ([], s, True)"
    using assms(7,8) by (simp add: runTokenManager_def token_manager_start_def registerPublicKey_def)
qed (rule tokens.silent_after_refusal [OF assms(1,2)] inventory.silent_after_refusal [OF assms(3,4)]
    metrics.silent_after_refusal [OF assms(5,6)])+

theorem refused_device_silent_witness:
  "runTokenManager \<lparr>en_needed = True, en_secret = ''s'', en_envPath = []\<rparr> (Reply 401 None) [] empty_dir [] newTokenStore = ([], newTokenStore, True) \<and>
   (\<exists>s2. \<forall>later. cycles token_cycle ((demo_round ''a'')\<lparr>tr_reply := Reply 401 None\<rparr> # later) newTokenStore = ([], s2, True))"
proof -
  let ?t = "(demo_round ''a'')\<lparr>tr_reply := Reply 401 None\<rparr>"
  let ?i = "\<lparr>iv_done = False, iv_goos = ''linux'', iv_env = [], iv_exists = (\<lambda>p. p = ''/usr/bin/osqueryi''), iv_look_path = None,
    iv_run = (\<lambda>c. Rows (0 :: nat)), iv_now = ''now'', iv_signed = Inr ''a'', iv_reply = Reply 401 None, iv_ctx_err = False\<rparr>"
  let ?r = "(demo_metrics 200)\<lparr>mr_creds := Reply 401 None\<rparr>"
  have t: "refuses ?t"
    by (simp add: refuses_def demo_round_def acquireToken_def errDeviceRefused_def)
  have "osqueryBinary ''linux'' [] (\<lambda>p. p = ''/usr/bin/osqueryi'') None = Some ''/usr/bin/osqueryi''"
    by (simp add: osqueryBinary_def osquery_candidates_def getenv_def gm_get_def)
  then have collects_some: "\<exists>m. iv_collect ?i = Inr m"
    using inventory_collects [where goos = "''linux''" and bin = "''/usr/bin/osqueryi''" and run = "\<lambda>c. Rows (0 :: nat)"
        and now = "''now''" and env = "[]"]
    by (auto simp: iv_collect_def inventoryQueries_def appliesHere_def split: sum.splits)
  have i: "inventory_refused ?i"
    using collects_some by (auto simp: inventory_refused_def postInventory_def errDeviceRefused_def split: sum.split)
  have r: "metrics_refused ?r metrics_start"
    by (simp add: metrics_refused_def needs_creds_def metrics_start_def demo_metrics_def fetchIngestCredentials_def errDeviceRefused_def)
  have nil: "cycles c [] x = ([], x, False)" for c :: "'w \<Rightarrow> 's \<Rightarrow> time option \<times> 's" and x by simp
  from refused_device_silent [OF nil [of token_cycle newTokenStore] t nil [of inventory_cycle "[]"] i nil [of "metrics_cycle (\<lambda>_. None)" metrics_start] r,
      of "\<lparr>en_needed = True, en_secret = ''s'', en_envPath = []\<rparr>" None "[]" empty_dir]
  show ?thesis by simp
qed

section \<open>The service\<close>

text \<open>Controls that leave the service running, and what is answered to them.\<close>

definition lets_run :: "svc_event \<Rightarrow> bool" where
  "lets_run e \<longleftrightarrow> (case e of Control c st \<Rightarrow> c \<noteq> Stop \<and> c \<noteq> Shutdown | _ \<Rightarrow> False)"

definition echoes :: "svc_event list \<Rightarrow> svc_status list" where
  "echoes es = List.map_filter (\<lambda>e. case e of Control Interrogate st \<Rightarrow> Some st | _ \<Rightarrow> None) es"

lemma svc_loop_lets_run:
  "\<forall>e \<in> set es. lets_run e \<Longrightarrow>
   svc_loop (es @ gs) = (echoes es @ fst (svc_loop gs), fst (snd (svc_loop gs)), snd (snd (svc_loop gs)))"
proof (induction es)
  case (Cons e es)
  then show ?case by (cases e) (auto simp: lets_run_def echoes_def map_filter_simps split: svc_cmd.splits prod.splits)
qed (simp add: echoes_def map_filter_simps)

text \<open>
  C39. The service keeps to the manager's protocol: it reports that it starts and that it runs, echoes every
  interrogation and ignores unknown controls; its own states only go forward; a stop or shutdown is answered by a pending stop and, unless the
  process exits during the wait, by the final status and code 0; a daemon that returns is reported as stopped
  with code 1. But a daemon that calls \<open>os.Exit\<close>, as it does when its configuration, key or enrolment is
  unusable, takes the handler with it, and no final status is sent.
\<close>

theorem service_protocol:
  assumes "\<forall>e \<in> set es. lets_run e" "c \<in> {Stop, Shutdown}" "\<forall>code. fs \<noteq> [] \<longrightarrow> hd fs \<noteq> DaemonExits code"
  shows "Execute es = (startup_statuses @ echoes es, False, None) \<and>
    Execute (es @ Control c current # fs) =
      (startup_statuses @ echoes es @ [\<lparr>sv_State = StopPending, sv_Accepts = [], sv_WaitHint = 20000\<rparr>, svc_status Stopped],
       True, Some (Returns False 0)) \<and>
    Execute (es @ DaemonReturned # fs) = (startup_statuses @ echoes es @ [svc_status Stopped], False, Some (Returns False 1)) \<and>
    Execute (es @ DaemonExits 2 # fs) = (startup_statuses @ echoes es, False, Some (ProcessExits 2)) \<and>
    map sv_State startup_statuses = [StartPending, Running] \<and> map sv_WaitHint startup_statuses = [30000, 0] \<and>
    sorted (map sv_State startup_statuses @ [StopPending, Stopped])"
proof -
  have "svc_stop fs = ([\<lparr>sv_State = StopPending, sv_Accepts = [], sv_WaitHint = 20000\<rparr>, svc_status Stopped], True, Some (Returns False 0))"
    using assms(3) by (cases fs) (auto simp: svc_stop_def svc_status_def Let_def split: svc_event.split)
  moreover have "svc_loop (Control c current # fs) = svc_stop fs" using assms(2) by auto
  moreover have "svc_loop (es @ []) = (echoes es, False, None)"
    using svc_loop_lets_run [OF assms(1), of "[]"] by simp
  ultimately show ?thesis
    by (simp add: Execute_def svc_loop_lets_run [OF assms(1)] startup_statuses_def svc_status_def less_eq_svc_state_def)
qed

theorem service_protocol_witness:
  "snd (snd (Execute [Control Interrogate (svc_status Running), Control (OtherCmd 200) (svc_status Running), Control Shutdown (svc_status Running)])) =
     Some (Returns False 0)"
  using service_protocol [of "[Control Interrogate (svc_status Running), Control (OtherCmd 200) (svc_status Running)]" Shutdown "[]" "svc_status Running"]
  by (simp add: lets_run_def)

section \<open>Overrides and enrolment\<close>

text \<open>
  The process environment wins over the file, but not over an enrolment made by the same start, whose
  values replace the whole map.
\<close>

lemma enrolment_drops_overrides:
  assumes "loadEnvFile (read_file (bi_env_error b) (d_file (dk_env d))) = (None, env0)"
    and "\<not> isEnrolled (override_env (bi_proc b) env0)"
    and "runSelfEnrollment (bi_json b) (ap_status (agent_paths (bi_goos b) (bi_proc b)))
      (firstNonEmpty [getenv ''HASFY_API_URL'' (override_env (bi_proc b) env0), defaultAPIBaseURL]) (bi_turns b) 0
      \<lparr>ef_env = dk_env d, ef_status = dk_status d\<rparr> = Some (Enrolled env1, fs)"
    and "runAgent_boot b d = Some (Started st, d')"
  shows "as_relayURL st = getenv ''HASFY_RELAY_URL'' env1 \<and> r_DeviceID (as_hello st) = getenv ''HASFY_DEVICE_ID'' env1"
proof -
  from boot_enrolls [OF assms(1-3)] assms(4) obtain api where
    "boot_identity b api env1 (d\<lparr>dk_env := ef_env fs, dk_status := ef_status fs\<rparr>) = (Started st, d')"
    by (metis option.inject)
  from boot_identity_started [OF this] show ?thesis by blast
qed

end
