(* ===== verification/AgentWS.thy ===== *)
theory AgentWS
  imports Server
begin

text \<open>
  \<open>internal/server/agent_ws.go\<close>: the endpoint agents connect to. The websocket library and the
  socket are outside the repository: whether \<open>Accept\<close> succeeds, what \<open>readFrame\<close> returns (\<open>None\<close>
  for an error or a timeout) and whether a write succeeds are inputs of the steps, and what the code
  does to the socket is a list of effects. The handler runs \<open>handleAgentWS_start\<close>, then its two
  pumps step by step while other goroutines run, then \<open>handleAgentWS_end\<close>.
\<close>

datatype ws_status = StatusNormalClosure | StatusGoingAway | StatusPolicyViolation | StatusInternalError

datatype ws_effect = WsWrite Frame | WsClose ws_status string

definition wsReadLimit :: int where "wsReadLimit = 2 ^ 20"
definition wsPingInterval :: time where "wsPingInterval = 25 * second"
definition wsRegisterTimeout :: time where "wsRegisterTimeout = 10 * second"

text \<open>
  A message from a socket, \<open>None\<close> for an error of the connection. A message beyond the limit of
  \<open>SetReadLimit\<close> is an error of \<open>Read\<close>; \<open>unmarshal\<close> is \<open>json.Unmarshal\<close> into a frame.
\<close>

definition readFrame :: "(bytes \<Rightarrow> Frame option) \<Rightarrow> bytes option \<Rightarrow> Frame option" where
  "readFrame unmarshal msg =
     (case msg of
        None \<Rightarrow> None
      | Some data \<Rightarrow> if wsReadLimit < int (length data) then None else unmarshal data)"

section \<open>The handshake\<close>

datatype agent_outcome =
    ARefused http_error
  | ANotUpgraded
  | AClosed
  | AConnected addr
  | APanicked panic

definition agent_of_register :: "Register \<Rightarrow> Agent" where
  "agent_of_register reg =
     \<lparr>a_DeviceID = r_DeviceID reg, a_OrgID = r_OrgID reg, a_Hostname = r_Hostname reg, a_OS = r_OS reg,
      a_Arch = r_Arch reg, a_Version = r_Version reg, a_JoinedAt = 0, a_outbound = None, a_cancel = None\<rparr>"

definition agent_connect_event :: "HttpReq \<Rightarrow> Agent \<Rightarrow> Event" where
  "agent_connect_event r a =
     (event ''agent.connect'')
       \<lparr>ev_OrgID := a_OrgID a, ev_DeviceID := a_DeviceID a, ev_IP := clientIP r,
        ev_Meta := [(''hostname'', a_Hostname a), (''os'', a_OS a)]\<rparr>"

definition handleAgentWS_start ::
  "AgentClaims jwt_parse \<Rightarrow> bool \<Rightarrow> Frame option \<Rightarrow> addr \<Rightarrow> time \<Rightarrow> HttpReq \<Rightarrow> Server \<Rightarrow>
   agent_outcome \<times> ws_effect list \<times> Server" where
  "handleAgentWS_start parse accepted first p now r s =
     (let tok = bearerToken r in
      if tok = [] then (ARefused (401, ''unauthorized''), [], s)
      else
        (case VerifyAgent parse now (sv_verifier s) tok of
           Inl ErrUnauthorized \<Rightarrow>
             (ARefused (401, ''unauthorized''), [],
              emit now ((event ''auth.fail'')\<lparr>ev_IP := clientIP r, ev_Reason := ''bad agent token''\<rparr>) s)
         | Inr claims \<Rightarrow>
             if \<not> accepted then (ANotUpgraded, [], s)
             else
               (case first of
                  None \<Rightarrow> (AClosed, [WsClose StatusPolicyViolation ''register frame required''], s)
                | Some f \<Rightarrow>
                    (if f_Type f \<noteq> TypeRegister
                     then (AClosed, [WsClose StatusPolicyViolation ''register frame required''], s)
                     else
                       (case f_Register f of
                          None \<Rightarrow> (AClosed, [WsClose StatusPolicyViolation ''register frame required''], s)
                        | Some reg \<Rightarrow>
                            if r_DeviceID reg \<noteq> ac_DeviceID claims \<or> r_OrgID reg \<noteq> ac_OrgID claims
                            then (AClosed, [WsClose StatusPolicyViolation ''claims mismatch''],
                                  emit now ((event ''auth.fail'')
                                    \<lparr>ev_IP := clientIP r, ev_DeviceID := r_DeviceID reg, ev_OrgID := r_OrgID reg,
                                     ev_Reason := ''register mismatch with token claims''\<rparr>) s)
                            else
                              (let a = agent_of_register reg in
                               case Registry_Register now (nat (cf_WriteBufSize (sv_cfg s))) p
                                      (store_agent p a (sv_reg s)) of
                                 Inl e \<Rightarrow> (APanicked e, [], s)
                               | Inr rg \<Rightarrow>
                                   (AConnected p, [], emit now (agent_connect_event r a) (s\<lparr>sv_reg := rg\<rparr>))))))))"

section \<open>The pumps\<close>

definition agentReadPump_step :: "Frame \<Rightarrow> Server \<Rightarrow> panic + Server" where
  "agentReadPump_step f s =
     (case f_Type f of
        TypePong \<Rightarrow> Inr s
      | TypePing \<Rightarrow> Inr s
      | t \<Rightarrow>
          if t \<in> {TypeExecAck, TypeExit, TypeError, TypeStdout, TypeStderr, TypePtyData, TypePtyExit}
          then and_then (routeAgentResponse f (sv_router s)) (\<lambda>rt. Inr (s\<lparr>sv_router := rt\<rparr>))
          else Inr s)"

text \<open>The loop on what \<open>readFrame\<close> returns, up to the first error.\<close>

fun agentReadPump :: "Frame option list \<Rightarrow> Server \<Rightarrow> panic + Server" where
  "agentReadPump [] s = Inr s"
| "agentReadPump (None # fs) s = Inr s"
| "agentReadPump (Some f # fs) s = and_then (agentReadPump_step f s) (agentReadPump fs)"

datatype write_event = WCtxDone | WOutbound bool | WPing bool

text \<open>
  One turn of the write pump: the effects, whether it goes on, the new state. The flag of an event
  says whether the write succeeds. A receive from an empty open channel is not ready.
\<close>

definition agentWritePump_step :: "write_event \<Rightarrow> addr \<Rightarrow> Server \<Rightarrow> panic + (ws_effect list \<times> bool \<times> Server)" where
  "agentWritePump_step ev p s =
     (case ev of
        WCtxDone \<Rightarrow> Inr ([], False, s)
      | WOutbound sent \<Rightarrow>
          and_then (outbound_recv p (sv_reg s)) (\<lambda>(x, rg).
            (case x of
               Value f \<Rightarrow> Inr ([WsWrite f], sent, s\<lparr>sv_reg := rg\<rparr>)
             | Drained \<Rightarrow> Inr ([], False, s)
             | Empty \<Rightarrow> Inr ([], True, s)))
      | WPing sent \<Rightarrow> Inr ([WsWrite (frame TypePing [] [])], sent, s))"

section \<open>The end of a connection\<close>

definition handleAgentWS_end :: "time \<Rightarrow> addr \<Rightarrow> Server \<Rightarrow> panic + Server" where
  "handleAgentWS_end now p s =
     and_then (Registry_Unregister p (sv_reg s)) (\<lambda>rg.
     and_then (deref rg p) (\<lambda>a.
       Inr (emit now ((event ''agent.disconnect'')\<lparr>ev_OrgID := a_OrgID a, ev_DeviceID := a_DeviceID a\<rparr>)
              (s\<lparr>sv_reg := rg\<rparr>))))"

section \<open>Properties\<close>

lemma agent_of_register_simps [simp]:
  "agent_new (agent_of_register reg)" "a_DeviceID (agent_of_register reg) = r_DeviceID reg"
  "a_OrgID (agent_of_register reg) = r_OrgID reg"
  by (simp_all add: agent_of_register_def agent_new_def)

lemma start_cases:
  assumes "handleAgentWS_start parse accepted first p now r s = (AConnected q, ws, s')"
  obtains claims f reg rg where
    "q = p" "ws = []" "VerifyAgent parse now (sv_verifier s) (bearerToken r) = Inr claims" "bearerToken r \<noteq> []"
    "first = Some f" "f_Type f = TypeRegister" "f_Register f = Some reg"
    "r_DeviceID reg = ac_DeviceID claims" "r_OrgID reg = ac_OrgID claims"
    "Registry_Register now (nat (cf_WriteBufSize (sv_cfg s))) p (store_agent p (agent_of_register reg) (sv_reg s)) = Inr rg"
    "s' = emit now (agent_connect_event r (agent_of_register reg)) (s\<lparr>sv_reg := rg\<rparr>)"
  using assms
  by (auto simp: handleAgentWS_start_def Let_def split: if_splits sum.splits auth_error.splits option.splits)

lemma register_new_reachable:
  assumes "registry_reachable r" "rg_heap r p = None" "agent_new a"
    and "Registry_Register now n p (store_agent p a r) = Inr r'"
  shows "registry_reachable r'"
proof -
  have "registry_reachable (store_agent p a r)"
    by (rule registry_reachable.step [OF assms(1) registry_step.alloc [OF assms(2,3)]])
  moreover have "rg_heap (store_agent p a r) p = Some a" by (simp add: store_agent_def)
  ultimately show ?thesis
    using assms(3,4) by (meson registry_reachable.step registry_step.register)
qed

text \<open>
  C1. A device comes online only with a token that is signed under the agent secret, and exactly
  under the device and the organisation its claims name, whatever its register frame says: after the
  handshake it is the agent the registry returns for that device, live and audited as connected.
\<close>

theorem agent_identity_authentic:
  assumes "jwt_sound verifies parse" and "registry_reachable (sv_reg s)" and "rg_heap (sv_reg s) p = None"
    and "handleAgentWS_start parse accepted first p now r s = (AConnected q, ws, s')"
  shows "registry_reachable (sv_reg s') \<and>
    (\<exists>claims a. verifies ''HS256'' (v_agentSecret (sv_verifier s)) claims (bearerToken r) \<and>
       Registry_Get (ac_DeviceID claims) (sv_reg s') = Inr q \<and> rg_heap (sv_reg s') q = Some a \<and>
       agent_live a \<and> a_DeviceID a = ac_DeviceID claims \<and> a_OrgID a = ac_OrgID claims \<and>
       (\<exists>e. lg_out (sv_audit s') = lg_out (sv_audit s) @ [e] \<and> ev_Kind e = ''agent.connect'' \<and>
            ev_OrgID e = ac_OrgID claims \<and> ev_DeviceID e = ac_DeviceID claims))"
  using assms(4)
proof (cases rule: start_cases)
  case (1 claims f reg rg)
  have new: "agent_new (agent_of_register reg)" by simp
  have reach: "registry_reachable rg"
    by (rule register_new_reachable [OF assms(2,3) new 1(10)])
  have p: "rg_heap (store_agent p (agent_of_register reg) (sv_reg s)) p = Some (agent_of_register reg)"
    by (simp add: store_agent_def)
  have get: "gm_get (rg_byDev rg) (r_DeviceID reg) = Some p"
    using 1(10) p by (auto simp: Registry_Register_def and_then_Inr on_agent_def deref_def store_agent_def)
  have heap: "\<exists>a. rg_heap rg p = Some a \<and> a_OrgID a = r_OrgID reg"
    using 1(10)
    by (cases rule: Register_cases [OF registry_inv_alloc [OF registry_reachable_inv [OF assms(2)] assms(3) new] p new,
          where now = now and n = "nat (cf_WriteBufSize (sv_cfg s))"])
      (auto simp: store_agent_def)
  have "verifies ''HS256'' (v_agentSecret (sv_verifier s)) claims (bearerToken r)"
    using 1(3) jwt_soundD [OF assms(1)] by (auto simp: VerifyAgent_Inr)
  then show ?thesis
    using 1 reach get heap reachable_registered [OF reach get]
    by (auto simp: Registry_Get_def agent_connect_event_def stamp_def)
qed

definition demo_agent_request :: HttpReq where
  "demo_agent_request =
     \<lparr>rq_Method = ''GET'', rq_Path = ''/agent/ws'', rq_Header = [(''Authorization'', ''Bearer agent-token'')],
      rq_Query = [], rq_RemoteAddr = ''10.0.0.7:5000'', rq_Body = Some []\<rparr>"

definition demo_register :: Frame where
  "demo_register =
     (frame TypeRegister [] [])
       \<lparr>f_Register := Some \<lparr>r_DeviceID = ''d1'', r_OrgID = ''o1'', r_Hostname = ''h'', r_OS = ''linux'',
                            r_Arch = ''amd64'', r_Version = ''1'', r_Tags = []\<rparr>\<rparr>"

lemma demo_agent_start:
  "\<exists>s'. handleAgentWS_start demo_agent_parse True (Some demo_register) 0 5 demo_agent_request demo_server
          = (AConnected 0, [], s')"
  by (simp add: handleAgentWS_start_def Let_def bearerToken_def header_def gm_get_def demo_agent_request_def
      demo_server_def VerifyAgent_def demo_agent_parse_def hs256_key_def demo_agent_claims_def demo_register_def
      Registry_Register_def on_agent_def deref_def store_agent_def agent_of_register_def Registry_New_def)

lemma demo_server_new: "sv_reg demo_server = Registry_New" "sv_verifier demo_server = demo_verifier"
  by (simp_all add: demo_server_def)

theorem agent_identity_authentic_witness:
  "\<exists>s' a. handleAgentWS_start demo_agent_parse True (Some demo_register) 0 5 demo_agent_request demo_server
            = (AConnected 0, [], s') \<and>
     Registry_Get ''d1'' (sv_reg s') = Inr 0 \<and> rg_heap (sv_reg s') 0 = Some a \<and> agent_live a"
proof -
  obtain s' where h: "handleAgentWS_start demo_agent_parse True (Some demo_register) 0 5 demo_agent_request demo_server
      = (AConnected 0, [], s')"
    using demo_agent_start by blast
  have "registry_reachable (sv_reg demo_server)" "rg_heap (sv_reg demo_server) 0 = None"
    using registry_reachable.init by (simp_all add: demo_server_new Registry_New_def)
  from agent_identity_authentic [OF demo_agent_sound this h] h show ?thesis
    by (auto simp: demo_agent_signed_def demo_agent_claims_def)
qed

text \<open>
  The end of an agent's connection never panics, also when the device has reconnected in the
  meantime: it is audited once, the device is then not reachable through this connection, and every
  other registered agent stays as it was.
\<close>

lemma agent_disconnect_clean:
  assumes "registry_reachable (sv_reg s)" and "rg_heap (sv_reg s) p = Some a"
  shows "\<exists>s'. handleAgentWS_end now p s = Inr s' \<and>
    lg_out (sv_audit s') = lg_out (sv_audit s) @
      [(event ''agent.disconnect'')\<lparr>ev_Ts := Some now, ev_OrgID := a_OrgID a, ev_DeviceID := a_DeviceID a\<rparr>] \<and>
    Registry_Get d (sv_reg s') =
      (if Registry_Get d (sv_reg s) = Inr p then Inl ErrNotFound else Registry_Get d (sv_reg s)) \<and>
    (\<forall>q. q \<noteq> p \<longrightarrow> rg_heap (sv_reg s') q = rg_heap (sv_reg s) q)"
proof (cases "gm_get (rg_byDev (sv_reg s)) (a_DeviceID a) = Some p")
  case True
  then obtain a' where a': "evict a = Inr a'" "a_DeviceID a' = a_DeviceID a" "a_OrgID a' = a_OrgID a"
    using reachable_registered [OF assms(1) True] assms(2) evict_live by fastforce
  let ?rg = "store_agent p a' ((sv_reg s)\<lparr>rg_byDev := gm_delete (a_DeviceID a) (rg_byDev (sv_reg s))\<rparr>)"
  have "handleAgentWS_end now p s =
      Inr (emit now ((event ''agent.disconnect'')\<lparr>ev_OrgID := a_OrgID a, ev_DeviceID := a_DeviceID a\<rparr>)
             (s\<lparr>sv_reg := ?rg\<rparr>))"
    using a' by (simp add: handleAgentWS_end_def Unregister_current [OF assms(2) True a'(1)] deref_def store_agent_def)
  moreover have "gm_get (rg_byDev (sv_reg s)) d = Some p \<longleftrightarrow> d = a_DeviceID a"
    using reachable_registered [OF assms(1), of d p] assms(2) True by auto
  then have "Registry_Get d ?rg =
      (if Registry_Get d (sv_reg s) = Inr p then Inl ErrNotFound else Registry_Get d (sv_reg s))"
    by (auto simp: Registry_Get_def store_agent_def split: option.splits)
  ultimately show ?thesis by (simp add: stamp_def store_agent_def)
next
  case False
  moreover have "gm_get (rg_byDev (sv_reg s)) d \<noteq> Some p"
    using reachable_registered [OF assms(1), of d p] assms(2) False by fastforce
  ultimately show ?thesis
    using Unregister_stale [OF assms(2) False] assms(2)
    by (auto simp: handleAgentWS_end_def deref_def Registry_Get_def stamp_def split: option.splits)
qed

lemma agent_disconnect_clean_witness:
  "\<exists>s'. handleAgentWS_end 9 0 (demo_server\<lparr>sv_reg := demo_two\<rparr>) = Inr s' \<and>
     Registry_Get ''d1'' (sv_reg s') = Inl ErrNotFound"
proof -
  have "registry_reachable (sv_reg (demo_server\<lparr>sv_reg := demo_two\<rparr>))" by (simp add: demo_two_reachable)
  from agent_disconnect_clean [OF this, of 0 _ 9 "''d1''"] show ?thesis
    by (auto simp: Registry_Get_def)
qed

definition routed_types :: "FrameType list" where
  "routed_types = [TypeExecAck, TypeExit, TypeError, TypeStdout, TypeStderr, TypePtyData, TypePtyExit]"

lemma read_pump_step:
  "agentReadPump_step f s =
     (if f_Type f \<in> set routed_types
      then and_then (routeAgentResponse f (sv_router s)) (\<lambda>rt. Inr (s\<lparr>sv_router := rt\<rparr>)) else Inr s)"
  by (cases "f_Type f") (simp_all add: agentReadPump_step_def routed_types_def)

text \<open>
  What the read pump does with the frames of an agent, up to the first read error: those of the
  seven response types are routed in order, every other frame, a register or exec included, has no
  effect.
\<close>

lemma read_pump_routes:
  "agentReadPump fs s =
     and_then (route_all (filter (\<lambda>f. f_Type f \<in> set routed_types) (map the (takeWhile (\<lambda>x. x \<noteq> None) fs))) (sv_router s))
       (\<lambda>rt. Inr (s\<lparr>sv_router := rt\<rparr>))"
proof (induction fs s rule: agentReadPump.induct)
  case (3 f fs s)
  show ?case
  proof (cases "f_Type f \<in> set routed_types")
    case True
    then show ?thesis
      using 3 by (cases "routeAgentResponse f (sv_router s)") (simp_all add: read_pump_step)
  next
    case False
    then show ?thesis using 3 by (simp add: read_pump_step)
  qed
qed simp_all

end
