(* ===== verification/Api.thy ===== *)
theory Api
  imports Server
begin

text \<open>
  \<open>internal/server/api.go\<close>: the list of online devices of an organisation, and the minting of an
  operator's session. JSON decoding of a body is the parameter \<open>unmarshal\<close>, the random id that
  \<open>uuid\<close> makes is an argument, and \<open>sign\<close> is the JWT library (theory Auth).
\<close>

section \<open>Listing devices\<close>

record listDevicesReq =
  ld_OrgID :: string

record deviceRow =
  dv_DeviceID :: string
  dv_Hostname :: string
  dv_OS :: string
  dv_Arch :: string
  dv_Version :: string
  dv_JoinedAt :: time

definition device_row :: "Agent \<Rightarrow> deviceRow" where
  "device_row a =
     \<lparr>dv_DeviceID = a_DeviceID a, dv_Hostname = a_Hostname a, dv_OS = a_OS a, dv_Arch = a_Arch a,
      dv_Version = a_Version a, dv_JoinedAt = a_JoinedAt a\<rparr>"

text \<open>
  The three guards every service endpoint opens with: the body, the signature, the decoded request.
  \<open>valid\<close> is the endpoint's check of mandatory fields.
\<close>

definition svc_guard ::
  "(bytes \<Rightarrow> 'q option) \<Rightarrow> ('q \<Rightarrow> bool) \<Rightarrow> time \<Rightarrow> HttpReq \<Rightarrow> Server \<Rightarrow> (http_error + 'q) \<times> Server" where
  "svc_guard unmarshal valid now r s =
     (case readBody s r of
        Inl e \<Rightarrow> (Inl e, s)
      | Inr body \<Rightarrow>
          (case verifySvcHMAC now r body s of
             (Some e, s') \<Rightarrow> (Inl e, s')
           | (None, s') \<Rightarrow>
               (case unmarshal body of
                  None \<Rightarrow> (Inl (400, ''bad request''), s')
                | Some q \<Rightarrow> if valid q then (Inr q, s') else (Inl (400, ''bad request''), s'))))"

text \<open>
  \<open>es\<close> is the order in which this \<open>range\<close> visits the registry. Every address it lists is allocated.
\<close>

definition handleListDevices ::
  "(bytes \<Rightarrow> listDevicesReq option) \<Rightarrow> (string \<times> addr) list \<Rightarrow> time \<Rightarrow> HttpReq \<Rightarrow> Server \<Rightarrow>
   deviceRow list reply \<times> Server" where
  "handleListDevices unmarshal es now r s =
     (case svc_guard unmarshal (\<lambda>q. ld_OrgID q \<noteq> []) now r s of
        (Inl e, s') \<Rightarrow> (Error e, s')
      | (Inr q, s') \<Rightarrow>
          (Json 200 (List.map_filter (\<lambda>p. map_option device_row (rg_heap (sv_reg s') p))
                       (Registry_ListByOrg es (ld_OrgID q) (sv_reg s'))), s'))"

section \<open>Minting a session\<close>

text \<open>A nil agent would panic in \<open>net/http\<close>'s hands; the registry never holds one.\<close>

record issueSessionReq =
  is_OrgID :: string
  is_DeviceID :: string
  is_UserID :: string
  is_IP :: string
  is_UA :: string

record issueSessionRes =
  ir_SessionID :: string
  ir_Token :: string
  ir_WSURL :: string
  ir_ExpiresIn :: int

definition handleIssueSession ::
  "SessionClaims jwt_sign \<Rightarrow> (time \<Rightarrow> time) \<Rightarrow> (bytes \<Rightarrow> issueSessionReq option) \<Rightarrow> string \<Rightarrow> time \<Rightarrow> HttpReq \<Rightarrow> Server \<Rightarrow>
   issueSessionRes reply \<times> Server" where
  "handleIssueSession sign date unmarshal sid now r s =
     (case svc_guard unmarshal (\<lambda>q. is_OrgID q \<noteq> [] \<and> is_DeviceID q \<noteq> [] \<and> is_UserID q \<noteq> []) now r s of
        (Inl e, s') \<Rightarrow> (Error e, s')
      | (Inr q, s') \<Rightarrow>
          (case Registry_Get (is_DeviceID q) (sv_reg s') of
             Inl ErrNotFound \<Rightarrow> (Error (409, ''device offline''), s')
           | Inr p \<Rightarrow>
               (case deref (sv_reg s') p of
                  Inl _ \<Rightarrow> (Error (500, []), s')
                | Inr a \<Rightarrow>
                    if a_OrgID a \<noteq> is_OrgID q
                    then (Error (403, ''forbidden''),
                          emit now ((event ''auth.fail'')
                            \<lparr>ev_OrgID := is_OrgID q, ev_DeviceID := is_DeviceID q,
                             ev_Operator := is_UserID q, ev_Reason := ''org mismatch''\<rparr>) s')
                    else
                      (case IssueSession sign date now (sv_verifier s') (is_OrgID q) (is_DeviceID q) sid
                              (is_UserID q) (is_IP q) (is_UA q) of
                         None \<Rightarrow> (Error (500, ''issue failed''), s')
                       | Some tok \<Rightarrow>
                           (Json 200 \<lparr>ir_SessionID = sid, ir_Token = tok, ir_WSURL = ''/console/ws'', ir_ExpiresIn = 5 * 60\<rparr>,
                            emit now ((event ''session.open'')
                              \<lparr>ev_OrgID := is_OrgID q, ev_DeviceID := is_DeviceID q, ev_SessionID := sid,
                               ev_Operator := is_UserID q, ev_IP := is_IP q\<rparr>) s')))))"

section \<open>What the guards establish\<close>

lemma svc_guard_Inr:
  "svc_guard unmarshal valid now r s = (Inr q, s') \<longleftrightarrow>
     s' = s \<and> (\<exists>body. readBody s r = Inr body \<and> verifySvcHMAC now r body s = (None, s) \<and>
                unmarshal body = Some q \<and> valid q)"
proof
  assume "svc_guard unmarshal valid now r s = (Inr q, s')"
  then obtain body where b: "readBody s r = Inr body" "verifySvcHMAC now r body s = (None, s')"
      "unmarshal body = Some q" "valid q"
    by (auto simp: svc_guard_def split: sum.splits prod.splits option.splits if_splits)
  moreover from b(2) have "s' = s" by (simp add: verifySvcHMAC_None)
  ultimately show "s' = s \<and> (\<exists>body. readBody s r = Inr body \<and> verifySvcHMAC now r body s = (None, s) \<and>
                unmarshal body = Some q \<and> valid q)" by blast
qed (auto simp: svc_guard_def)

lemma svc_guard_state:
  "snd (svc_guard unmarshal valid now r s) = s \<or>
   (\<exists>e. svc_guard unmarshal valid now r s =
      (Inl (401, ''bad sig''), emit now e s) \<and> ev_Kind e = ''auth.fail'' \<and> ev_OrgID e = [])"
  by (auto simp: svc_guard_def verifySvcHMAC_def Let_def split: sum.splits option.splits if_splits)

definition svc_authentic :: "time \<Rightarrow> HttpReq \<Rightarrow> Server \<Rightarrow> bool" where
  "svc_authentic now r s \<longleftrightarrow>
     (\<exists>body ts. rq_Body r = Some body \<and> parse_int64 (header ''X-Hasfy-Ts'' r) = Some ts \<and>
        abs64 (wrap64 (unix now - ts)) \<le> 60 \<and>
        header ''X-Hasfy-Sig'' r =
          svc_signature (cf_SvcSecret (sv_cfg s)) (format_int ts) (rq_Method r) (rq_Path r) body)"

lemma svc_guard_authentic: "svc_guard unmarshal valid now r s = (Inr q, s') \<Longrightarrow> svc_authentic now r s"
  by (auto simp: svc_guard_Inr verifySvcHMAC_None svc_authentic_def readBody_def split: option.splits if_splits)

section \<open>Properties\<close>

lemma rows_of_agents:
  assumes "registry_reachable r" "distinct ps"
    "\<And>p. p \<in> set ps \<longleftrightarrow> (\<exists>d a. Registry_Get d r = Inr p \<and> rg_heap r p = Some a \<and> a_OrgID a = org)"
  defines "rows \<equiv> List.map_filter (\<lambda>p. map_option device_row (rg_heap r p)) ps"
  shows "distinct (map dv_DeviceID rows)"
    and "set rows = {device_row a | a d p. Registry_Get d r = Inr p \<and> rg_heap r p = Some a \<and> a_OrgID a = org}"
proof -
  let ?a = "\<lambda>p. the (rg_heap r p)"
  have some: "\<exists>a d. rg_heap r p = Some a \<and> gm_get (rg_byDev r) d = Some p" if "p \<in> set ps" for p
    using that assms(3) by (fastforce simp: Registry_Get_def split: option.splits)
  then have rows: "rows = map (\<lambda>p. device_row (?a p)) ps"
    unfolding rows_def by (induction ps) (force simp: List.map_filter_def)+
  have reg: "gm_get (rg_byDev r) (a_DeviceID (?a p)) = Some p" if mem: "p \<in> set ps" for p
  proof -
    obtain a d where p: "rg_heap r p = Some a" "gm_get (rg_byDev r) d = Some p" using some [OF mem] by blast
    from reachable_registered [OF assms(1) p(2)] p show ?thesis by auto
  qed
  have "inj_on (\<lambda>p. a_DeviceID (?a p)) (set ps)"
  proof (rule inj_onI)
    fix p q
    assume p: "p \<in> set ps" and q: "q \<in> set ps" and eq: "a_DeviceID (?a p) = a_DeviceID (?a q)"
    from reg [OF p] have "gm_get (rg_byDev r) (a_DeviceID (?a q)) = Some p" by (simp only: eq)
    with reg [OF q] show "p = q" by (metis option.inject)
  qed
  then show "distinct (map dv_DeviceID rows)"
    using assms(2) by (simp add: rows distinct_map device_row_def comp_def)
  show "set rows = {device_row a | a d p. Registry_Get d r = Inr p \<and> rg_heap r p = Some a \<and> a_OrgID a = org}"
  proof -
    have "set rows = {device_row a | a p. p \<in> set ps \<and> rg_heap r p = Some a}"
      using some by (force simp: rows image_iff)
    also have "\<dots> = {device_row a | a d p. Registry_Get d r = Inr p \<and> rg_heap r p = Some a \<and> a_OrgID a = org}"
      unfolding assms(3) by (rule Collect_cong) (auto, blast)
    finally show ?thesis .
  qed
qed

text \<open>
  The device list is given only for a body signed by the service, and then, in whatever order the
  registry is ranged over, it has one row for each online device of the organisation the body
  names and no other device; it changes nothing.
\<close>

lemma device_list_exact:
  assumes "registry_reachable (sv_reg s)" and "mset es = mset (rg_byDev (sv_reg s))"
    and "handleListDevices unmarshal es now r s = (Json 200 rows, s')"
  shows "svc_authentic now r s \<and> s' = s \<and> distinct (map dv_DeviceID rows) \<and>
    (\<exists>body q. rq_Body r = Some body \<and> unmarshal body = Some q \<and>
       set rows = {device_row a | a d p. Registry_Get d (sv_reg s) = Inr p \<and> rg_heap (sv_reg s) p = Some a \<and>
                                         a_OrgID a = ld_OrgID q})"
proof -
  obtain q where g: "svc_guard unmarshal (\<lambda>q. ld_OrgID q \<noteq> []) now r s = (Inr q, s')"
    and rows: "rows = List.map_filter (\<lambda>p. map_option device_row (rg_heap (sv_reg s') p))
                        (Registry_ListByOrg es (ld_OrgID q) (sv_reg s'))"
    using assms(3) by (auto simp: handleListDevices_def split: prod.splits sum.splits)
  from g have s': "s' = s" by (simp add: svc_guard_Inr)
  from g obtain body where body: "rq_Body r = Some body" "unmarshal body = Some q"
    by (auto simp: svc_guard_Inr readBody_def split: option.splits if_splits)
  note spec = ListByOrg_spec [OF assms(1,2), of "ld_OrgID q"]
  have "distinct (map dv_DeviceID rows)"
    using rows_of_agents(1) [OF assms(1), of "Registry_ListByOrg es (ld_OrgID q) (sv_reg s)" "ld_OrgID q"] spec
    by (simp add: rows s')
  moreover have "set rows = {device_row a | a d p. Registry_Get d (sv_reg s) = Inr p \<and>
      rg_heap (sv_reg s) p = Some a \<and> a_OrgID a = ld_OrgID q}"
    using rows_of_agents(2) [OF assms(1), of "Registry_ListByOrg es (ld_OrgID q) (sv_reg s)" "ld_OrgID q"] spec
    by (simp add: rows s')
  ultimately show ?thesis
    using s' body svc_guard_authentic [OF g] by blast
qed

definition demo_online :: Server where
  "demo_online = demo_server\<lparr>sv_reg := demo_connected\<rparr>"

lemma demo_online_simps [simp]:
  "sv_reg demo_online = demo_connected" "cf_SvcSecret (sv_cfg demo_online) = replicate 32 CHR ''k''"
  "cf_MaxFrameBytes (sv_cfg demo_online) = 2 ^ 20" "sv_verifier demo_online = demo_verifier"
  "sv_router demo_online = newRouter"
  by (simp_all add: demo_online_def demo_server_def demo_config_def)

lemma signed_request_accepted:
  "verifySvcHMAC 0 (signed_request (cf_SvcSecret (sv_cfg s)) ''0'' meth path body) body s = (None, s)"
  by (simp add: verifySvcHMAC_None signed_request_def header_def gm_get_def parse_int64_def parse_nat_def
      digit_value_def int64_def unix_def format_int_def format_nat.simps abs64_def wrap64_def)

lemma demo_connected_facts [simp]:
  "gm_get (rg_byDev demo_connected) d = (if d = ''d1'' then Some 0 else None)"
  "rg_heap demo_connected 0 = Some (registered_agent 5 2 (new_agent ''d1'' ''o1''))"
  by (simp_all add: demo_connected_def store_agent_def gm_get_def)

lemma demo_connected_entries: "rg_byDev demo_connected = [(''d1'', 0)]"
  by (simp add: demo_connected_def store_agent_def)

abbreviation demo_request :: "bytes \<Rightarrow> HttpReq" where
  "demo_request body \<equiv> signed_request (replicate 32 CHR ''k'') ''0'' ''POST'' ''/api'' body"

lemma demo_guard:
  "length body \<le> 100 \<Longrightarrow> unmarshal body = Some q \<Longrightarrow> valid q \<Longrightarrow>
   svc_guard unmarshal valid 0 (demo_request body) demo_online = (Inr q, demo_online)"
  using signed_request_accepted [of demo_online "''POST''" "''/api''" body]
  by (simp add: svc_guard_Inr readBody_def) (simp add: signed_request_def)

lemma device_list_exact_witness:
  "\<exists>rows. handleListDevices (\<lambda>b. Some \<lparr>ld_OrgID = b\<rparr>) [(''d1'', 0)] 0 (demo_request ''o1'') demo_online
            = (Json 200 rows, demo_online) \<and> distinct (map dv_DeviceID rows)"
proof -
  obtain rows where h: "handleListDevices (\<lambda>b. Some \<lparr>ld_OrgID = b\<rparr>) [(''d1'', 0)] 0 (demo_request ''o1'') demo_online
      = (Json 200 rows, demo_online)"
    by (simp add: handleListDevices_def demo_guard)
  moreover have "registry_reachable (sv_reg demo_online)" by (simp add: demo_connected_reachable)
  ultimately show ?thesis
    using device_list_exact [of demo_online "[(''d1'', 0)]"] demo_connected_entries by auto
qed

text \<open>
  C34. A session is minted only for a signed request, for a device that is online in the organisation
  the request names. Its token is the signed claims of that request and id, it is accepted from the
  operator's browser until it expires, and the mint is audited as one \<open>session.open\<close>.
\<close>

theorem issued_session_usable:
  assumes "handleIssueSession sign date unmarshal sid now r s = (Json 200 res, s')"
    and "rq_Body r = Some body" and "unmarshal body = Some q"
    and "claims = session_claims date now (is_OrgID q) (is_DeviceID q) sid (is_UserID q) (is_IP q) (is_UA q)"
    and "jwt_accepts sign parse claims" and "numeric_date date" and "sid \<noteq> []"
    and "now - 30 * second \<le> now'" "now' \<le> now + 299 * second"
  shows "svc_authentic now r s \<and>
    (\<exists>p a. Registry_Get (is_DeviceID q) (sv_reg s) = Inr p \<and> rg_heap (sv_reg s) p = Some a \<and> a_OrgID a = is_OrgID q) \<and>
    VerifySession parse now' (sv_verifier s) (ir_Token res) ip (is_UA q) = Inr claims \<and>
    (\<exists>e. lg_out (sv_audit s') = lg_out (sv_audit s) @ [e] \<and> ev_Kind e = ''session.open'' \<and>
       ev_SessionID e = sid \<and> ev_OrgID e = is_OrgID q \<and> ev_Operator e = is_UserID q)"
proof -
  obtain s1 where g: "svc_guard unmarshal (\<lambda>q. is_OrgID q \<noteq> [] \<and> is_DeviceID q \<noteq> [] \<and> is_UserID q \<noteq> []) now r s
      = (Inr q, s1)"
    using assms(1-3)
    by (auto simp: handleIssueSession_def svc_guard_Inr readBody_def split: prod.splits sum.splits if_splits)
  then have s1: "s1 = s" and valid: "is_OrgID q \<noteq> []" "is_DeviceID q \<noteq> []" by (auto simp: svc_guard_Inr)
  obtain p a where h: "Registry_Get (is_DeviceID q) (sv_reg s) = Inr p" "rg_heap (sv_reg s) p = Some a"
      "a_OrgID a = is_OrgID q"
    and sign: "IssueSession sign date now (sv_verifier s) (is_OrgID q) (is_DeviceID q) sid (is_UserID q) (is_IP q) (is_UA q)
        = Some (ir_Token res)"
    and s': "s' = emit now ((event ''session.open'')
              \<lparr>ev_OrgID := is_OrgID q, ev_DeviceID := is_DeviceID q, ev_SessionID := sid,
               ev_Operator := is_UserID q, ev_IP := is_IP q\<rparr>) s"
    using assms(1) g s1
    by (auto simp: handleIssueSession_def deref_def split: sum.splits reg_error.splits if_splits option.splits)
  have "parse now' (hs256_key (v_sessionSecret (sv_verifier s))) [''HS256''] (ir_Token res) = Some claims"
    by (rule minted_parse [OF assms(5,6,4) sign assms(8,9)])
  then have "VerifySession parse now' (sv_verifier s) (ir_Token res) ip (is_UA q) = Inr claims"
    using assms(4,7) valid by (simp add: VerifySession_Inr session_claims_def)
  moreover have "\<exists>e. lg_out (sv_audit s') = lg_out (sv_audit s) @ [e] \<and> ev_Kind e = ''session.open'' \<and>
       ev_SessionID e = sid \<and> ev_OrgID e = is_OrgID q \<and> ev_Operator e = is_UserID q"
    by (simp add: s' stamp_def)
  ultimately show ?thesis using h svc_guard_authentic [OF g] by blast
qed

definition demo_issue :: issueSessionReq where
  "demo_issue = \<lparr>is_OrgID = ''o1'', is_DeviceID = ''d1'', is_UserID = ''u1'', is_IP = ''10.0.0.1'', is_UA = ''Firefox''\<rparr>"

theorem issued_session_usable_witness:
  "\<exists>res s'. handleIssueSession demo_sign id (\<lambda>b. Some demo_issue) ''s1'' 0 (demo_request ''{}'') demo_online = (Json 200 res, s') \<and>
     VerifySession demo_parse minute demo_verifier (ir_Token res) ''203.0.113.9'' ''Firefox'' = Inr demo_claims"
proof -
  have claims: "demo_claims = session_claims id 0 (is_OrgID demo_issue) (is_DeviceID demo_issue) ''s1''
      (is_UserID demo_issue) (is_IP demo_issue) (is_UA demo_issue)"
    by (simp add: demo_claims_def demo_issue_def)
  have "IssueSession demo_sign id 0 demo_verifier ''o1'' ''d1'' ''s1'' ''u1'' ''10.0.0.1'' ''Firefox'' = Some ''session-token''"
    by (simp add: IssueSession_def demo_sign_def demo_claims_def)
  then obtain res s' where h: "handleIssueSession demo_sign id (\<lambda>b. Some demo_issue) ''s1'' 0 (demo_request ''{}'') demo_online
      = (Json 200 res, s')"
    using demo_guard [of "''{}''" "\<lambda>b. Some demo_issue" demo_issue]
    by (simp add: handleIssueSession_def demo_issue_def Registry_Get_def deref_def registered_agent_def new_agent_def)
  have "rq_Body (demo_request ''{}'') = Some ''{}''" by (simp add: signed_request_def)
  from issued_session_usable [OF h this refl claims demo_accepts numeric_date_id, of minute "''203.0.113.9''"] h show ?thesis
    by (simp add: demo_issue_def)
qed

end
