(* ===== verification/ExecApi.thy ===== *)
theory ExecApi
  imports Api Encoding
begin

text \<open>
  \<open>internal/server/exec_api.go\<close>: one command on one device for Hasfy-App. \<open>handleExec\<close> blocks twice,
  so it is three steps between which other goroutines run: \<open>handleExec_accept\<close> up to the audit of
  the start, \<open>handleExec_send\<close>, and after \<open>collectExecResult\<close> has returned \<open>handleExec_finish\<close>.
  A panic of a step unwinds through the deferred \<open>detach\<close> and is recovered by \<open>net/http\<close>.
\<close>

section \<open>Requests\<close>

definition maxExecTimeoutMs :: int where "maxExecTimeoutMs = 600000"
definition defaultExecOutputCap :: int where "defaultExecOutputCap = 2 ^ 20"

record execReq =
  er_OrgID :: string
  er_DeviceID :: string
  er_Argv :: "string list"
  er_Script :: "Script option"
  er_Cwd :: string
  er_TimeoutMs :: int
  er_OutputCap :: int
  er_OperatorUserID :: string
  er_ExecutionID :: string

record execRes =
  xr_ExitCode :: int
  xr_Stdout :: bytes
  xr_Stderr :: bytes
  xr_Truncated :: bool
  xr_TimedOut :: bool
  xr_DurationMs :: int

definition auditArgv :: "execReq \<Rightarrow> string list" where
  "auditArgv req =
     (case er_Script req of Some s \<Rightarrow> [s_Interpreter s, ''<script>''] | None \<Rightarrow> er_Argv req)"

text \<open>
  \<open>Duration.String\<close> of a count of milliseconds: a fraction of a second in milliseconds, else
  seconds with up to three decimals, after hours and minutes when there are any.
\<close>

definition millis_fraction :: "nat \<Rightarrow> string" where
  "millis_fraction f =
     (if f = 0 then []
      else CHR ''.'' # trim_right_byte CHR ''0''
             [digit_char (f div 100), digit_char (f div 10 mod 10), digit_char (f mod 10)])"

definition durationLabel :: "int \<Rightarrow> string" where
  "durationLabel ms =
     (let u = nat \<bar>ms\<bar>; s = u div 1000; m = s div 60; h = m div 60;
          secs = format_nat (s mod 60) @ millis_fraction (u mod 1000) @ ''s'';
          txt = (if u = 0 then ''0s''
                 else if u < 1000 then format_nat u @ ''ms''
                 else if m = 0 then secs
                 else if h = 0 then format_nat m @ ''m'' @ secs
                 else format_nat h @ ''h'' @ format_nat (m mod 60) @ ''m'' @ secs)
      in if ms < 0 then CHR ''-'' # txt else txt)"

text \<open>The values the frame carries, after the server-side limits.\<close>

definition exec_timeout :: "execReq \<Rightarrow> int" where
  "exec_timeout req =
     (if er_TimeoutMs req \<le> 0 \<or> maxExecTimeoutMs < er_TimeoutMs req then maxExecTimeoutMs else er_TimeoutMs req)"

definition exec_cap :: "execReq \<Rightarrow> int" where
  "exec_cap req =
     (if er_OutputCap req \<le> 0 \<or> 8 * 2 ^ 20 < er_OutputCap req then defaultExecOutputCap else er_OutputCap req)"

definition exec_frame :: "execReq \<Rightarrow> string \<Rightarrow> string \<Rightarrow> Frame" where
  "exec_frame req sid eid =
     (frame TypeExec sid eid)
       \<lparr>f_Exec := Some \<lparr>x_Argv = er_Argv req, x_Cwd = er_Cwd req, x_Env = [], x_Stdin = [],
                       x_TimeoutMs = exec_timeout req, x_OutputCap = exec_cap req, x_Script = er_Script req\<rparr>\<rparr>"

section \<open>The handler\<close>

record exec_call =
  xc_req :: execReq
  xc_agent :: addr
  xc_sess :: addr
  xc_sid :: string
  xc_eid :: string
  xc_started :: time

datatype exec_outcome = Waiting exec_call | Replied "execRes reply" | Panicked panic

definition detach :: "string \<Rightarrow> Server \<Rightarrow> Server" where
  "detach sid s = s\<lparr>sv_router := router_detach sid (sv_router s)\<rparr>"

definition exec_start_event :: "execReq \<Rightarrow> string \<Rightarrow> string \<Rightarrow> Event" where
  "exec_start_event req sid eid =
     (event ''exec.start'')
       \<lparr>ev_OrgID := er_OrgID req, ev_DeviceID := er_DeviceID req, ev_SessionID := sid, ev_ExecID := eid,
        ev_Operator := er_OperatorUserID req, ev_Argv := auditArgv req,
        ev_Meta := [(''execution_id'', er_ExecutionID req), (''source'', ''app'')]\<rparr>"

text \<open>\<open>sessionUUID\<close> and \<open>execID\<close> are what \<open>uuid.NewString\<close> returns, \<open>sess\<close> the address of the session.\<close>

definition handleExec_accept ::
  "(bytes \<Rightarrow> execReq option) \<Rightarrow> string \<Rightarrow> string \<Rightarrow> addr \<Rightarrow> time \<Rightarrow> HttpReq \<Rightarrow> Server \<Rightarrow> exec_outcome \<times> Server" where
  "handleExec_accept unmarshal sessionUUID execID sess now r s =
     (case svc_guard unmarshal
             (\<lambda>q. er_OrgID q \<noteq> [] \<and> er_DeviceID q \<noteq> [] \<and> er_OperatorUserID q \<noteq> []) now r s of
        (Inl e, s') \<Rightarrow> (Replied (Error e), s')
      | (Inr req, s') \<Rightarrow>
          if er_Argv req = [] \<and> er_Script req = None
          then (Replied (Error (400, ''argv or script is required'')), s')
          else
            (case Registry_Get (er_DeviceID req) (sv_reg s') of
               Inl ErrNotFound \<Rightarrow> (Replied (Error (409, ''device offline'')), s')
             | Inr p \<Rightarrow>
                 (case deref (sv_reg s') p of
                    Inl e \<Rightarrow> (Panicked e, s')
                  | Inr a \<Rightarrow>
                      if a_OrgID a \<noteq> er_OrgID req
                      then (Replied (Error (403, ''forbidden'')),
                            emit now ((event ''auth.fail'')
                              \<lparr>ev_OrgID := er_OrgID req, ev_DeviceID := er_DeviceID req,
                               ev_Operator := er_OperatorUserID req, ev_Reason := ''org mismatch''\<rparr>) s')
                      else
                        (let sid = ''svc-'' @ sessionUUID in
                         case router_connect sid sess None (sv_router s') of
                           (False, rt) \<Rightarrow> (Replied (Error (500, ''session collision'')), s'\<lparr>sv_router := rt\<rparr>)
                         | (True, rt) \<Rightarrow>
                             (Waiting \<lparr>xc_req = req, xc_agent = p, xc_sess = sess, xc_sid = sid, xc_eid = execID,
                                       xc_started = now\<rparr>,
                              emit now (exec_start_event req sid execID) (s'\<lparr>sv_router := rt\<rparr>))))))"

definition handleExec_send :: "time \<Rightarrow> exec_call \<Rightarrow> Server \<Rightarrow> exec_outcome \<times> Server" where
  "handleExec_send now c s =
     (case send_to (xc_agent c) (exec_frame (xc_req c) (xc_sid c) (xc_eid c)) (sv_reg s) of
        Inl e \<Rightarrow> (Panicked e, detach (xc_sid c) s)
      | Inr (False, rg) \<Rightarrow> (Replied (Error (503, ''agent backpressure'')), detach (xc_sid c) (s\<lparr>sv_reg := rg\<rparr>))
      | Inr (True, rg) \<Rightarrow> (Waiting (c\<lparr>xc_started := now\<rparr>), s\<lparr>sv_reg := rg\<rparr>))"

text \<open>
  What the loop's \<open>select\<close> yields: the context is over (timeout plus 15 seconds, or the caller hung
  up), the session was closed, or a frame for it.
\<close>

datatype collect_event = CtxDone | SessClosed | FromAgent Frame

definition decodeOutput :: "Frame \<Rightarrow> bytes" where
  "decodeOutput f =
     (case f_Output f of
        None \<Rightarrow> []
      | Some out \<Rightarrow>
          if o_Data out = [] then []
          else (case std_decode (o_Data out) of Some raw \<Rightarrow> raw | None \<Rightarrow> []))"

definition exec_result :: "int \<Rightarrow> bool \<Rightarrow> bytes \<Rightarrow> bytes \<Rightarrow> execRes" where
  "exec_result code trunc stdout stderr =
     \<lparr>xr_ExitCode = code, xr_Stdout = stdout, xr_Stderr = stderr, xr_Truncated = trunc,
      xr_TimedOut = False, xr_DurationMs = 0\<rparr>"

text \<open>\<open>None\<close>: the loop still waits after these events.\<close>

fun collectExecResult :: "collect_event list \<Rightarrow> bytes \<Rightarrow> bytes \<Rightarrow> (execRes \<times> bool) option" where
  "collectExecResult [] stdout stderr = None"
| "collectExecResult (CtxDone # es) stdout stderr = Some (exec_result (-1) False stdout stderr, True)"
| "collectExecResult (SessClosed # es) stdout stderr = Some (exec_result (-1) False stdout stderr, False)"
| "collectExecResult (FromAgent f # es) stdout stderr =
     (if f_Type f = TypeStdout then collectExecResult es (stdout @ decodeOutput f) stderr
      else if f_Type f = TypeStderr then collectExecResult es stdout (stderr @ decodeOutput f)
      else if f_Type f = TypeExit then
        (case f_Exit f of
           Some e \<Rightarrow> Some (exec_result (e_ExitCode e) (e_Truncated e) stdout stderr, False)
         | None \<Rightarrow> Some (exec_result (-1) False stdout stderr, False))
      else collectExecResult es stdout stderr)"

definition exec_exit_event :: "exec_call \<Rightarrow> execRes \<Rightarrow> Event" where
  "exec_exit_event c res =
     (event ''exec.exit'')
       \<lparr>ev_OrgID := er_OrgID (xc_req c), ev_DeviceID := er_DeviceID (xc_req c), ev_SessionID := xc_sid c,
        ev_ExecID := xc_eid c, ev_Operator := er_OperatorUserID (xc_req c), ev_ExitCode := Some (xr_ExitCode res),
        ev_Meta := [(''execution_id'', er_ExecutionID (xc_req c)), (''source'', ''app''),
                    (''duration'', durationLabel (xr_DurationMs res))]\<rparr>"

definition handleExec_finish :: "time \<Rightarrow> exec_call \<Rightarrow> execRes \<times> bool \<Rightarrow> Server \<Rightarrow> exec_outcome \<times> Server" where
  "handleExec_finish now c collected s =
     (let res = (fst collected)\<lparr>xr_DurationMs := go_div (now - xc_started c) millisecond,
                                xr_TimedOut := snd collected\<rparr>;
          sent = (if snd collected
                  then map_sum id snd (send_to (xc_agent c) (frame TypeCancel (xc_sid c) (xc_eid c)) (sv_reg s))
                  else Inr (sv_reg s))
      in (case sent of
            Inl e \<Rightarrow> (Panicked e, detach (xc_sid c) s)
          | Inr rg \<Rightarrow>
              (Replied (Json 200 res),
               detach (xc_sid c) (emit now (exec_exit_event c res) (s\<lparr>sv_reg := rg\<rparr>)))))"

section \<open>Properties\<close>

lemma exec_limits: "0 < exec_timeout req \<and> exec_timeout req \<le> 600000 \<and> 0 < exec_cap req \<and> exec_cap req \<le> 8388608"
  by (simp add: exec_timeout_def exec_cap_def maxExecTimeoutMs_def defaultExecOutputCap_def)

lemma accept_cases:
  assumes "handleExec_accept unmarshal u eid sess now r s = (Waiting c, s')"
  obtains req p a rt where
    "svc_authentic now r s" "req = xc_req c" "p = xc_agent c"
    "Registry_Get (er_DeviceID req) (sv_reg s) = Inr p" "rg_heap (sv_reg s) p = Some a" "a_OrgID a = er_OrgID req"
    "er_Argv req \<noteq> [] \<or> er_Script req \<noteq> None" "er_OperatorUserID req \<noteq> []" "er_OrgID req \<noteq> []"
    "router_connect (xc_sid c) sess None (sv_router s) = (True, rt)" "xc_sid c = ''svc-'' @ u" "xc_eid c = eid"
    "xc_sess c = sess"
    "s' = emit now (exec_start_event req (xc_sid c) eid) (s\<lparr>sv_router := rt\<rparr>)"
proof -
  obtain req s1 where g: "svc_guard unmarshal
      (\<lambda>q. er_OrgID q \<noteq> [] \<and> er_DeviceID q \<noteq> [] \<and> er_OperatorUserID q \<noteq> []) now r s = (Inr req, s1)"
    using assms by (auto simp: handleExec_accept_def split: prod.splits sum.splits)
  then have "s1 = s" "er_OrgID req \<noteq> []" "er_OperatorUserID req \<noteq> []" by (auto simp: svc_guard_Inr)
  moreover have "svc_authentic now r s" by (rule svc_guard_authentic [OF g])
  ultimately show ?thesis
    using assms g that
    by (auto simp: handleExec_accept_def deref_def Let_def
        split: sum.splits reg_error.splits if_splits option.splits prod.splits bool.splits)
qed

text \<open>
  C5. A command goes out only for a request signed by the service, naming an operator, on a device
  that is online in the request's organisation; its start is audited before the frame is sent, as
  the one new event, with the interpreter and never the body of a script. The frame is the
  request's, with a timeout of at most 10 minutes and at most 8 MiB of output, both positive.
\<close>

theorem exec_dispatch_guarded:
  assumes "handleExec_accept unmarshal u eid sess now r s = (Waiting c, s')"
  shows "svc_authentic now r s \<and> er_OperatorUserID (xc_req c) \<noteq> [] \<and>
    Registry_Get (er_DeviceID (xc_req c)) (sv_reg s) = Inr (xc_agent c) \<and>
    (\<exists>a. rg_heap (sv_reg s) (xc_agent c) = Some a \<and> a_OrgID a = er_OrgID (xc_req c)) \<and>
    sv_reg s' = sv_reg s \<and> router_get (sv_router s') (xc_sid c) = Some sess \<and>
    (\<exists>e. lg_out (sv_audit s') = lg_out (sv_audit s) @ [e] \<and> ev_Kind e = ''exec.start'' \<and>
       ev_Operator e = er_OperatorUserID (xc_req c) \<and> ev_ExecID e = xc_eid c \<and> ev_SessionID e = xc_sid c \<and>
       (\<forall>sc. er_Script (xc_req c) = Some sc \<longrightarrow> ev_Argv e = [s_Interpreter sc, ''<script>'']) \<and>
       (er_Script (xc_req c) = None \<longrightarrow> ev_Argv e = er_Argv (xc_req c))) \<and>
    (\<exists>x. f_Exec (exec_frame (xc_req c) (xc_sid c) (xc_eid c)) = Some x \<and> x_Argv x = er_Argv (xc_req c) \<and>
       x_Script x = er_Script (xc_req c) \<and> (x_Argv x \<noteq> [] \<or> x_Script x \<noteq> None) \<and>
       0 < x_TimeoutMs x \<and> x_TimeoutMs x \<le> 600000 \<and> 0 < x_OutputCap x \<and> x_OutputCap x \<le> 8388608)"
  using assms
proof (cases rule: accept_cases)
  case (1 req p a rt)
  have "router_get rt (xc_sid c) = Some sess"
    using 1(10) sessions.claim_got [of "xc_sid c" sess _ rt] by (simp add: router_connect_def)
  with 1 exec_limits [of req] show ?thesis
    by (auto simp: exec_start_event_def stamp_def auditArgv_def exec_frame_def)
qed

text \<open>What an event that ends the loop reports: exit code, truncation, timeout.\<close>

definition collect_end :: "collect_event \<Rightarrow> (int \<times> bool \<times> bool) option" where
  "collect_end e =
     (case e of
        CtxDone \<Rightarrow> Some (-1, False, True)
      | SessClosed \<Rightarrow> Some (-1, False, False)
      | FromAgent f \<Rightarrow>
          if f_Type f = TypeExit
          then Some (case f_Exit f of Some x \<Rightarrow> (e_ExitCode x, e_Truncated x, False) | None \<Rightarrow> (-1, False, False))
          else None)"

definition stream :: "FrameType \<Rightarrow> Frame list \<Rightarrow> bytes" where
  "stream t fs = concat (map decodeOutput (filter (\<lambda>f. f_Type f = t) fs))"

lemma stream_simps [simp]:
  "stream t [] = []" "stream t (f # fs) = (if f_Type f = t then decodeOutput f else []) @ stream t fs"
  by (simp_all add: stream_def)

text \<open>
  C17. Draining an execution stops at the first event that ends it and returns everything before it:
  the decoded standard output and error of the frames so far, each in order, with the exit code of
  the agent's exit frame, or -1 when the frame has none, the session is closed or time is up; the
  caller is told of a timeout only in the last case.
\<close>

theorem collect_returns_streams:
  assumes "\<forall>f \<in> set fs. f_Type f \<noteq> TypeExit" and "collect_end e = Some (code, trunc, timedOut)"
  shows "collectExecResult (map FromAgent fs @ e # rest) [] [] =
    Some (exec_result code trunc (stream TypeStdout fs) (stream TypeStderr fs), timedOut)"
proof -
  have "collectExecResult (map FromAgent fs @ e # rest) so se =
    Some (exec_result code trunc (so @ stream TypeStdout fs) (se @ stream TypeStderr fs), timedOut)" for so se
    using assms
  proof (induction fs arbitrary: so se)
    case Nil
    then show ?case by (cases e) (auto simp: collect_end_def split: option.splits if_splits)
  qed simp
  from this [of "[]" "[]"] show ?thesis by simp
qed

text \<open>A frame of output, as the agent builds it.\<close>

definition output_frame :: "FrameType \<Rightarrow> string \<Rightarrow> string \<Rightarrow> bytes \<Rightarrow> Frame" where
  "output_frame t sid eid b = (frame t sid eid)\<lparr>f_Output := Some \<lparr>o_Data = std_encode b\<rparr>\<rparr>"

lemma decode_output_frame [simp]: "decodeOutput (output_frame t sid eid b) = b"
proof (cases "std_encode b = []")
  case True
  moreover have "std_decode [] = Some []" by (simp add: b64_decode_def)
  ultimately have "b = []" using std64.decode_encode [of b] by simp
  then show ?thesis using True by (simp add: decodeOutput_def output_frame_def)
qed (simp add: decodeOutput_def output_frame_def std64.decode_encode)

lemma output_frame_type [simp]: "f_Type (output_frame t sid eid b) = t"
  by (simp add: output_frame_def)

definition exit_frame :: "string \<Rightarrow> string \<Rightarrow> int \<Rightarrow> time \<Rightarrow> bool \<Rightarrow> Frame" where
  "exit_frame sid eid code now trunc =
     (frame TypeExit sid eid)\<lparr>f_Exit := Some \<lparr>e_ExitCode = code, e_EndedAt = now, e_Truncated = trunc\<rparr>\<rparr>"

theorem collect_returns_streams_witness:
  "collectExecResult
     (map FromAgent [output_frame TypeStdout ''s'' ''e'' ''out'', frame TypeExecAck ''s'' ''e'',
                     output_frame TypeStderr ''s'' ''e'' ''err'', output_frame TypeStdout ''s'' ''e'' ''put'']
        @ FromAgent (exit_frame ''s'' ''e'' 3 9 True) # [CtxDone]) [] [] =
   Some (exec_result 3 True ''output'' ''err'', False)"
proof -
  have "collect_end (FromAgent (exit_frame ''s'' ''e'' 3 9 True)) = Some (3, True, False)"
    by (simp add: collect_end_def exit_frame_def)
  from collect_returns_streams [OF _ this, of "[output_frame TypeStdout ''s'' ''e'' ''out'',
      frame TypeExecAck ''s'' ''e'', output_frame TypeStderr ''s'' ''e'' ''err'',
      output_frame TypeStdout ''s'' ''e'' ''put'']" "[CtxDone]"]
  show ?thesis by simp
qed

text \<open>
  C35. The end of an execution: its session is detached whatever happens. Unless the cancel that
  follows a timeout panics, the reply carries the collected result and its exit is audited as the
  one new event. The cancel panics exactly when the agent has been disconnected or replaced by
  then, and the exit is then missing from the trail.
\<close>

theorem exec_finish_audited:
  assumes "registry_reachable (sv_reg s)" and "rg_heap (sv_reg s) (xc_agent c) = Some a"
    and "\<not> agent_new a" and "handleExec_finish now c (res, timedOut) s = (out, s')"
  shows "router_get (sv_router s') (xc_sid c) = None \<and>
    (if timedOut \<and> agent_gone a
     then out = Panicked SendOnClosed \<and> lg_out (sv_audit s') = lg_out (sv_audit s)
     else (\<exists>res' e. out = Replied (Json 200 res') \<and> xr_Stdout res' = xr_Stdout res \<and> xr_ExitCode res' = xr_ExitCode res \<and>
             xr_TimedOut res' = timedOut \<and> lg_out (sv_audit s') = lg_out (sv_audit s) @ [e] \<and>
             ev_Kind e = ''exec.exit'' \<and> ev_ExitCode e = Some (xr_ExitCode res) \<and> ev_ExecID e = xc_eid c))"
proof -
  let ?f = "frame TypeCancel (xc_sid c) (xc_eid c)"
  have detached: "router_get (sv_router (detach (xc_sid c) t)) (xc_sid c) = None" for t
    by (simp add: detach_def sessions.look_release)
  have audit: "sv_audit (detach (xc_sid c) t) = sv_audit t" for t
    by (simp add: detach_def)
  have live: "agent_live a" if "\<not> agent_gone a"
  proof (cases "gm_get (rg_byDev (sv_reg s)) (a_DeviceID a) = Some (xc_agent c)")
    case True
    then show ?thesis using reachable_registered [OF assms(1) True] assms(2) by simp
  next
    case False
    then show ?thesis using reachable_unregistered [OF assms(1,2)] assms(3) that by blast
  qed
  show ?thesis
  proof (cases "timedOut \<and> agent_gone a")
    case True
    then have "send_to (xc_agent c) ?f (sv_reg s) = Inl SendOnClosed"
      using send_to_gone [OF assms(2)] by blast
    then show ?thesis using True assms(4) detached audit by (auto simp: handleExec_finish_def Let_def)
  next
    case False
    then obtain rg where "(if timedOut then map_sum id snd (send_to (xc_agent c) ?f (sv_reg s)) else Inr (sv_reg s)) = Inr rg"
      using send_to_live [OF assms(2) live, of ?f] by (cases timedOut) (auto simp: ok_iff)
    then show ?thesis
      using False assms(4) detached audit by (auto simp: handleExec_finish_def Let_def exec_exit_event_def stamp_def)
  qed
qed

definition demo_exec :: execReq where
  "demo_exec =
     \<lparr>er_OrgID = ''o1'', er_DeviceID = ''d1'', er_Argv = [''uptime''], er_Script = None, er_Cwd = [],
      er_TimeoutMs = 5000, er_OutputCap = 0, er_OperatorUserID = ''u1'', er_ExecutionID = ''x1''\<rparr>"

definition demo_call :: exec_call where
  "demo_call =
     \<lparr>xc_req = demo_exec, xc_agent = 0, xc_sess = 3, xc_sid = ''svc-u'', xc_eid = ''e1'', xc_started = 0\<rparr>"

lemma demo_accept:
  "\<exists>s'. handleExec_accept (\<lambda>b. Some demo_exec) ''u'' ''e1'' 3 0 (demo_request ''{}'') demo_online = (Waiting demo_call, s')"
  using demo_guard [of "''{}''" "\<lambda>b. Some demo_exec" demo_exec]
  by (simp add: handleExec_accept_def demo_exec_def demo_call_def Registry_Get_def deref_def registered_agent_def
      new_agent_def router_connect_def router_attach_def newRouter_def Let_def)

theorem exec_dispatch_guarded_witness:
  "svc_authentic 0 (demo_request ''{}'') demo_online \<and> er_OperatorUserID (xc_req demo_call) \<noteq> []"
proof -
  obtain s' where "handleExec_accept (\<lambda>b. Some demo_exec) ''u'' ''e1'' 3 0 (demo_request ''{}'') demo_online
      = (Waiting demo_call, s')"
    using demo_accept by blast
  from exec_dispatch_guarded [OF this] show ?thesis by blast
qed

text \<open>The device of the call reconnects before the command times out.\<close>

definition demo_replaced :: Registry where
  "demo_replaced = (case Registry_Register 9 2 1 demo_two of Inr r \<Rightarrow> r | Inl e \<Rightarrow> demo_two)"

lemma demo_replaced:
  "Registry_Register 9 2 1 demo_two = Inr demo_replaced" "registry_reachable demo_replaced"
  "\<exists>a. rg_heap demo_replaced 0 = Some a \<and> agent_gone a"
proof -
  have old: "gm_get (rg_byDev demo_two) (a_DeviceID (new_agent ''d1'' ''o1'')) = Some 0" by simp
  obtain a' where a': "evict (registered_agent 5 2 (new_agent ''d1'' ''o1'')) = Inr a'" "agent_gone a'"
    using evict_live [of "registered_agent 5 2 (new_agent ''d1'' ''o1'')"] by auto
  have r: "Registry_Register 9 2 1 demo_two = Inr ((store_agent 0 a' (store_agent 1 (registered_agent 9 2 (new_agent ''d1'' ''o1'')) demo_two))
      \<lparr>rg_byDev := gm_set ''d1'' 1 (rg_byDev demo_two)\<rparr>)"
    using Register_evicts [OF demo_two_heap(2) old _ demo_two_heap(1) a'(1), of 9 2] by simp
  then show g: "Registry_Register 9 2 1 demo_two = Inr demo_replaced" by (simp add: demo_replaced_def)
  have "registry_step demo_two demo_replaced"
    by (rule registry_step.register [OF demo_two_heap(2) _ g]) simp
  then show "registry_reachable demo_replaced"
    by (rule registry_reachable.step [OF demo_two_reachable])
  show "\<exists>a. rg_heap demo_replaced 0 = Some a \<and> agent_gone a"
    using r a' by (simp add: demo_replaced_def store_agent_def)
qed

theorem exec_finish_audited_witness:
  "\<exists>s'. handleExec_finish second demo_call (exec_result (-1) False ''partial'' [], True) (demo_online\<lparr>sv_reg := demo_replaced\<rparr>)
      = (Panicked SendOnClosed, s') \<and> lg_out (sv_audit s') = []"
proof -
  let ?s = "demo_online\<lparr>sv_reg := demo_replaced\<rparr>"
  obtain a where a: "rg_heap (sv_reg ?s) (xc_agent demo_call) = Some a" "agent_gone a"
    using demo_replaced(3) by (auto simp: demo_call_def)
  have r: "registry_reachable (sv_reg ?s)" using demo_replaced(2) by simp
  have n: "\<not> agent_new a" using a(2) agent_states_exclusive by blast
  obtain out s' where h: "handleExec_finish second demo_call (exec_result (-1) False ''partial'' [], True) ?s = (out, s')"
    by fastforce
  from exec_finish_audited [OF r a(1) n h] a(2) h show ?thesis
    by (simp add: demo_online_def demo_server_def NewStdout_def)
qed

end
