(* ===== verification/System.thy ===== *)
theory System
  imports AgentMain OperatorWS
begin

text \<open>
  The relay and the agent together. Nothing of the program is defined here: the lemmas compose the service
  call of \<open>ExecApi\<close>, the socket of \<open>AgentWS\<close>, the table of \<open>Router\<close> and the run of \<open>AgentExec\<close>, with the
  JSON encoding of frames, which package \<open>encoding/json\<close> does, as a parameter.
\<close>

section \<open>Frames carry the payload of their type\<close>

definition frame_wf :: "Frame \<Rightarrow> bool" where
  "frame_wf f \<longleftrightarrow>
     (f_Register f \<noteq> None \<longleftrightarrow> f_Type f = TypeRegister) \<and> (f_Exec f \<noteq> None \<longleftrightarrow> f_Type f = TypeExec) \<and>
     (f_ExecAck f \<noteq> None \<longleftrightarrow> f_Type f = TypeExecAck) \<and> (f_Output f \<noteq> None \<longleftrightarrow> f_Type f \<in> {TypeStdout, TypeStderr}) \<and>
     (f_Exit f \<noteq> None \<longleftrightarrow> f_Type f = TypeExit) \<and> (f_PtyStart f \<noteq> None \<longleftrightarrow> f_Type f = TypePtyStart) \<and>
     (f_PtyData f \<noteq> None \<longleftrightarrow> f_Type f = TypePtyData) \<and> (f_PtyResize f \<noteq> None \<longleftrightarrow> f_Type f = TypePtyResize) \<and>
     (f_PtyExit f \<noteq> None \<longleftrightarrow> f_Type f = TypePtyExit) \<and> f_Hello f = None \<and>
     (f_Type f = TypeError \<longrightarrow> f_Error f \<noteq> None) \<and> (f_Error f \<noteq> None \<longrightarrow> f_Type f \<in> {TypeError, TypeExit})"

lemma frame_wf_plain: "t \<in> {TypePing, TypePong, TypeCancel, TypeBye} \<Longrightarrow> frame_wf (frame t sid eid)"
  by (auto simp: frame_wf_def)

lemma frame_wf_agent:
  "frame_wf (refusal sid eid now code msg)" "frame_wf (ack_frame sid eid now pid)"
  "frame_wf (AgentExec.exit_frame sid eid rc now tr)" "frame_wf (emitOutput sid eid TypeStdout b)"
  "frame_wf (emitOutput sid eid TypeStderr b)" "frame_wf (pty_data_frame sid b)" "frame_wf (pty_exit_frame sid rc)"
  "frame_wf ((frame TypeError sid eid)\<lparr>f_Error := Some e\<rparr>)" "frame_wf (dl_first (runOnce_dial url tok reg))"
  by (simp_all add: frame_wf_def refusal_def ack_frame_def AgentExec.exit_frame_def emitOutput_def pty_data_frame_def
      pty_exit_frame_def runOnce_dial_def)

lemma runExec_wf: "list_all frame_wf (fst (runExec w sid eid x))"
  by (simp add: runExec_def frame_wf_agent output_frames_def Let_def split: prod.split sum.split)

lemma pty_reader_wf: "list_all frame_wf (fst (pty_reader sid es))"
  by (induction sid es rule: pty_reader.induct)
    (auto simp: pty_reader_step_def frame_wf_agent Let_def split: prod.splits bool.splits if_splits)

text \<open>What a step of the agent may put on \<open>out\<close>: frames of its commands and shells, and its own.\<close>

definition sends_wf :: "agent_event \<Rightarrow> bool" where
  "sends_wf e \<longleftrightarrow> (case e of ExecSends c f \<Rightarrow> frame_wf f | ShellSends f \<Rightarrow> frame_wf f | _ \<Rightarrow> True)"

definition out_wf :: "agent_conn \<Rightarrow> bool" where
  "out_wf s \<longleftrightarrow> list_all frame_wf (ch_buf (ac_out s)) \<and> (case ac_pending s of None \<Rightarrow> True | Some f \<Rightarrow> frame_wf f)"

lemma out_wf_frame:
  assumes "out_wf s" "ac_pending s = None" shows "out_wf (runOnce_frame i f s)"
proof -
  have "out_wf (loop_exec i f s)"
    using assms by (cases rule: loop_exec_cases [of i f s]) (simp_all add: out_wf_def frame_wf_agent)
  moreover have "out_wf (loop_cancel f s)" "out_wf (loop_pty_start i f s)" "out_wf (loop_pty_data i f s)" "out_wf (loop_pty_resize i f s)"
    using assms by (auto simp: out_wf_def loop_cancel_def loop_pty_start_def loop_pty_data_def loop_pty_resize_def cancel_ctx_def
        frame_wf_agent split: option.split sum.split prod.split bool.split)
  moreover have "out_wf (s\<lparr>ac_pending := Some (frame TypePong [] [])\<rparr>)"
    using assms by (simp add: out_wf_def frame_wf_plain)
  ultimately show ?thesis using assms(1) by (simp add: runOnce_frame_def split: FrameType.split)
qed

lemma out_wf_send: "send_out f s = Some (Inr s') \<Longrightarrow> frame_wf f \<Longrightarrow> out_wf s \<Longrightarrow> out_wf s' \<and> ac_pending s' = ac_pending s"
  by (auto simp: send_out_Inr out_wf_def)

lemma out_wf_step:
  assumes "out_wf s" "sends_wf e" "agent_step e s = Some (Inr s')"
  shows "out_wf s'"
proof (cases e)
  case (Received i f)
  with assms show ?thesis by (auto simp: out_wf_frame split: if_splits)
next
  case LoopSends
  with assms show ?thesis by (force simp: out_wf_def send_out_Inr split: option.splits sum.splits)
next
  case WriterTakes
  with assms show ?thesis
    by (auto simp: try_recv_def out_wf_def split: if_splits prod.splits received.splits list.splits)
next
  case (ExecSends c f)
  with assms show ?thesis using out_wf_send by (auto simp: sends_wf_def split: if_splits)
next
  case (ShellSends f)
  with assms show ?thesis using out_wf_send by (auto simp: sends_wf_def)
next
  case (ExecEnds c)
  with assms show ?thesis by (auto simp: out_wf_def exec_ends_def cancel_ctx_def split: option.splits)
qed (use assms in \<open>auto simp: out_wf_def runOnce_return_def split: if_splits\<close>)

lemma out_wf_run: "conn_run s es s' \<Longrightarrow> list_all sends_wf es \<Longrightarrow> out_wf s \<Longrightarrow> out_wf s'"
  by (induction rule: conn_run.induct) (auto intro: out_wf_step)

text \<open>
  C31. Every frame the agent sends has exactly the payload its type announces: the registration, what any command
  and any shell reports, and whatever the connection's goroutines have put on the channel or are about
  to, in every interleaving. So has the frame of a service call that the relay sends.
\<close>

theorem frames_typed:
  assumes "conn_run runOnce_start es s" "list_all sends_wf es"
  shows "list_all frame_wf (ch_buf (ac_out s)) \<and> (\<forall>f. ac_pending s = Some f \<longrightarrow> frame_wf f) \<and>
    frame_wf (dl_first (runOnce_dial url token reg)) \<and> list_all frame_wf (fst (runExec w sid eid x)) \<and>
    list_all frame_wf (fst (pty_reader sid reads)) \<and> frame_wf (exec_frame req sid eid)"
proof -
  have "out_wf runOnce_start" by (simp add: out_wf_def runOnce_start_def make_chan_def)
  with out_wf_run assms have "out_wf s" by blast
  then have "list_all frame_wf (ch_buf (ac_out s))" "\<forall>f. ac_pending s = Some f \<longrightarrow> frame_wf f"
    by (auto simp: out_wf_def)
  moreover have "frame_wf (exec_frame req sid eid)" by (simp add: frame_wf_def exec_frame_def)
  ultimately show ?thesis by (simp add: frame_wf_agent runExec_wf pty_reader_wf)
qed

theorem frames_typed_witness:
  "list_all frame_wf (ch_buf (ac_out ((ping_conn 0)\<lparr>ac_out := (make_chan 32)\<lparr>ch_buf := [frame TypePong [] []]\<rparr>\<rparr>)))"
proof -
  let ?s = "(ping_conn 0)\<lparr>ac_out := (make_chan 32)\<lparr>ch_buf := [frame TypePong [] []]\<rparr>\<rparr>"
  have "conn_run runOnce_start [Received demo_input (frame TypePing [] []), LoopSends] ?s"
    by (rule conn_run.more conn_run.stop |
        simp add: runOnce_start_def runOnce_frame_def send_out_def try_send_def make_chan_def ping_conn_def)+
  from frames_typed [OF this] show ?thesis by (simp add: sends_wf_def)
qed

section \<open>A service call from end to end\<close>

text \<open>The socket of an agent that sends the frames \<open>fs\<close>, as the relay reads it.\<close>

definition agent_socket :: "(Frame \<Rightarrow> bytes) \<Rightarrow> (bytes \<Rightarrow> Frame option) \<Rightarrow> Frame list \<Rightarrow> Frame option list" where
  "agent_socket marshal unmarshal fs = map (\<lambda>f. readFrame unmarshal (Some (marshal f))) fs"

definition carried :: "(Frame \<Rightarrow> bytes) \<Rightarrow> (bytes \<Rightarrow> Frame option) \<Rightarrow> Frame \<Rightarrow> bool" where
  "carried marshal unmarshal f \<longleftrightarrow> int (length (marshal f)) \<le> wsReadLimit \<and> unmarshal (marshal f) = Some f"

lemma agent_socket_carried:
  "list_all (carried marshal unmarshal) fs \<Longrightarrow> agent_socket marshal unmarshal fs = map Some fs"
  by (induction fs) (simp_all add: agent_socket_def carried_def readFrame_def)

lemma read_pump_carried:
  assumes "list_all (carried marshal unmarshal) fs"
  shows "agentReadPump (agent_socket marshal unmarshal fs) s =
    and_then (route_all (filter (\<lambda>f. f_Type f \<in> set routed_types) fs) (sv_router s)) (\<lambda>rt. Inr (s\<lparr>sv_router := rt\<rparr>))"
proof -
  have "map the (takeWhile (\<lambda>x. x \<noteq> None) (map Some fs)) = fs"
    by (induction fs) simp_all
  then show ?thesis unfolding agent_socket_carried [OF assms] read_pump_routes by (simp only:)
qed

lemma accept_session:
  assumes "handleExec_accept unmarshal u eid sess now r s = (Waiting c, s1)" "router_reachable (sv_router s)"
    and "rt_heap (sv_router s) sess = None"
  shows "router_reachable (sv_router s1)" "router_get (sv_router s1) (xc_sid c) = Some (xc_sess c)"
    "rt_heap (sv_router s1) (xc_sess c) = Some (new_session None)" "xc_sid c \<noteq> []" "xc_eid c = eid"
    "er_Argv (xc_req c) \<noteq> [] \<or> er_Script (xc_req c) \<noteq> None"
proof -
  from assms(1) obtain rt where rt: "router_connect (xc_sid c) sess None (sv_router s) = (True, rt)" "xc_sid c = ''svc-'' @ u"
      "xc_eid c = eid" "xc_sess c = sess" "sv_router s1 = rt" "er_Argv (xc_req c) \<noteq> [] \<or> er_Script (xc_req c) \<noteq> None"
    by (auto elim: accept_cases)
  have "router_reachable rt"
    using router_reachable.step [OF assms(2) router_step.connect [OF assms(3), where sid = "xc_sid c" and c = None]] rt(1) by simp
  moreover have "router_get rt (xc_sid c) = Some sess" "rt_heap rt sess = Some (new_session None)"
    using rt(1) by (auto simp: router_connect_def router_attach_def router_get_def split: option.splits)
  ultimately show "router_reachable (sv_router s1)" "router_get (sv_router s1) (xc_sid c) = Some (xc_sess c)"
    "rt_heap (sv_router s1) (xc_sess c) = Some (new_session None)" "xc_sid c \<noteq> []" "xc_eid c = eid"
    "er_Argv (xc_req c) \<noteq> [] \<or> er_Script (xc_req c) \<noteq> None"
    using rt by simp_all
qed

text \<open>The reply a command that ran should give: its output, cut at the limit and redacted, and its exit code.\<close>

definition exec_reply :: "exec_world \<Rightarrow> Exec \<Rightarrow> execRes" where
  "exec_reply w x =
     exec_result
       (wait_code (ew_end w) (ew_ctx_err w) (straddles (exec_limit x) (ew_stdout w) \<or> straddles (exec_limit x) (ew_stderr w)))
       (overflowed x (ew_stdout w) \<or> overflowed x (ew_stderr w))
       (Redact (captured x (ew_stdout w))) (Redact (captured x (ew_stderr w)))"

lemma decode_emitted: "decodeOutput (emitOutput sid eid t b) = Redact b"
  using decode_output_frame [of t sid eid "Redact b"] by (simp add: output_frame_def emitOutput_def)

lemma runExec_collected:
  assumes "exec_started w x pid"
  shows "collectExecResult (map FromAgent (fst (runExec w sid eid x))) [] [] = Some (exec_reply w x, False)"
  by (simp add: runExec_started [OF assms] output_frames_def decode_emitted exec_reply_def)

lemma runExec_routed:
  assumes "exec_started w x pid"
  shows "filter (\<lambda>f. f_Type f \<in> set routed_types) (fst (runExec w sid eid x)) = fst (runExec w sid eid x)"
    "length (fst (runExec w sid eid x)) \<le> 64"
  by (simp_all add: runExec_started [OF assms] output_frames_def routed_types_def)

text \<open>
  C2. A service call returns what the command did. The agent accepts the frame of every call the relay
  accepts; the frames of its run, in order among any others the agent sends, reach the session of the call and no
  other; and what is collected from them is the command's exit code, whether its output was cut, and its
  output up to the limit, redacted, byte for byte.
\<close>

theorem exec_end_to_end:
  assumes "handleExec_accept unmarshal u eid sess now r s = (Waiting c, s1)" "eid \<noteq> []"
    and "router_reachable (sv_router s)" "rt_heap (sv_router s) sess = None"
    and "f_Exec (exec_frame (xc_req c) (xc_sid c) (xc_eid c)) = Some x" "exec_started w x pid"
    and "filter (\<lambda>f. f_SessionID f = xc_sid c) fs = fst (runExec w (xc_sid c) (xc_eid c) x)"
    and "list_all (carried marshal decode) fs"
  shows "command_ok (exec_frame (xc_req c) (xc_sid c) (xc_eid c)) \<and>
    (\<exists>s2 q. agentReadPump (agent_socket marshal decode fs) s1 = Inr s2 \<and> rt_heap (sv_router s2) (xc_sess c) = Some q \<and>
       \<not> as_closed q \<and> ch_buf (as_toBrowser q) = fst (runExec w (xc_sid c) (xc_eid c) x) \<and>
       collectExecResult (map FromAgent (ch_buf (as_toBrowser q))) [] [] = Some (exec_reply w x, False))"
proof
  note sess = accept_session [OF assms(1,3,4)]
  show "command_ok (exec_frame (xc_req c) (xc_sid c) (xc_eid c))"
    using sess(4,5,6) assms(2) by (simp add: command_ok_def exec_frame_def)
  let ?run = "fst (runExec w (xc_sid c) (xc_eid c) x)" and ?fs = "filter (\<lambda>f. f_Type f \<in> set routed_types) fs"
  have mine: "filter (\<lambda>f. f_SessionID f = xc_sid c) ?fs = ?run"
    using runExec_routed(1) [OF assms(6)] assms(7) by (metis (no_types, lifting) filter_filter filter_cong conj_commute)
  from route_all_delivers [OF router_reachable_inv [OF sess(1)] sess(2,3,4), of ?fs] obtain rt where
    rt: "route_all ?fs (sv_router s1) = Inr rt" "rt_heap rt (xc_sess c) = Some (foldl deliver (new_session None) ?run)"
    unfolding mine by blast
  have "agentReadPump (agent_socket marshal decode fs) s1 = Inr (s1\<lparr>sv_router := rt\<rparr>)"
    by (simp add: read_pump_carried [OF assms(8)] rt(1))
  with rt(2) fresh_session_holds [OF runExec_routed(2) [OF assms(6)]] runExec_collected [OF assms(6)]
  show "\<exists>s2 q. agentReadPump (agent_socket marshal decode fs) s1 = Inr s2 \<and> rt_heap (sv_router s2) (xc_sess c) = Some q \<and>
       \<not> as_closed q \<and> ch_buf (as_toBrowser q) = ?run \<and>
       collectExecResult (map FromAgent (ch_buf (as_toBrowser q))) [] [] = Some (exec_reply w x, False)"
    by (intro exI [of _ "s1\<lparr>sv_router := rt\<rparr>"] exI [of _ "foldl deliver (new_session None) ?run"]) simp
qed

text \<open>A marshaller that is enough for the frames of one run, which have different types.\<close>

definition by_type :: "Frame list \<Rightarrow> bytes \<Rightarrow> Frame option" where
  "by_type fs b = find (\<lambda>f. frame_type_name (f_Type f) = b) fs"

definition demo_run :: "Frame list" where
  "demo_run =
     [ack_frame ''svc-u'' ''e1'' 0 42, emitOutput ''svc-u'' ''e1'' TypeStdout ''up 3 days'', AgentExec.exit_frame ''svc-u'' ''e1'' 0 1 False]"

definition demo_payload :: Exec where
  "demo_payload =
     \<lparr>x_Argv = [''uptime''], x_Cwd = [], x_Env = [], x_Stdin = [], x_TimeoutMs = 5000, x_OutputCap = 2 ^ 20, x_Script = None\<rparr>"

lemma demo_run:
  "f_Exec (exec_frame (xc_req demo_call) (xc_sid demo_call) (xc_eid demo_call)) = Some demo_payload"
  "exec_started (demo_world [''up 3 days'']) demo_payload 42"
  "fst (runExec (demo_world [''up 3 days'']) ''svc-u'' ''e1'' demo_payload) = demo_run"
proof -
  show "f_Exec (exec_frame (xc_req demo_call) (xc_sid demo_call) (xc_eid demo_call)) = Some demo_payload"
    by (simp add: exec_frame_def demo_call_def ExecApi.demo_exec_def demo_payload_def exec_timeout_def exec_cap_def
        maxExecTimeoutMs_def defaultExecOutputCap_def)
  show started: "exec_started (demo_world [''up 3 days'']) demo_payload 42"
    by (simp add: exec_started_def prepare_argv_def demo_world_def demo_payload_def)
  show "fst (runExec (demo_world [''up 3 days'']) ''svc-u'' ''e1'' demo_payload) = demo_run"
    unfolding runExec_started [OF started]
    by (simp add: demo_run_def demo_world_def captured_def overflowed_def output_frames_def
        exec_limit_def demo_payload_def wait_code_def)
qed

theorem exec_end_to_end_witness:
  "\<exists>s1 s2 q res. handleExec_accept (\<lambda>b. Some ExecApi.demo_exec) ''u'' ''e1'' 3 0 (demo_request ''{}'') demo_online = (Waiting demo_call, s1) \<and>
     agentReadPump (agent_socket (\<lambda>f. frame_type_name (f_Type f)) (by_type demo_run) demo_run) s1 = Inr s2 \<and>
     rt_heap (sv_router s2) 3 = Some q \<and>
     collectExecResult (map FromAgent (ch_buf (as_toBrowser q))) [] [] = Some (res, False) \<and> xr_Stdout res = Redact ''up 3 days''"
proof -
  obtain s1 where acc: "handleExec_accept (\<lambda>b. Some ExecApi.demo_exec) ''u'' ''e1'' 3 0 (demo_request ''{}'') demo_online
      = (Waiting demo_call, s1)" using demo_accept by blast
  have ids: "xc_sid demo_call = ''svc-u''" "xc_eid demo_call = ''e1''" "xc_sess demo_call = 3" by (simp_all add: demo_call_def)
  have router: "router_reachable (sv_router demo_online)" "rt_heap (sv_router demo_online) 3 = None"
    using router_reachable.start by (simp_all add: demo_online_simps newRouter_def)
  have mine: "filter (\<lambda>f. f_SessionID f = xc_sid demo_call) demo_run = fst (runExec (demo_world [''up 3 days'']) (xc_sid demo_call) (xc_eid demo_call) demo_payload)"
    unfolding ids demo_run(3) by (simp add: demo_run_def)
  have "list_all (carried (\<lambda>f. frame_type_name (f_Type f)) (by_type demo_run)) demo_run"
    by (simp add: demo_run_def carried_def by_type_def wsReadLimit_def)
  from exec_end_to_end [OF acc _ router demo_run(1,2) mine this] obtain s2 q where
    "agentReadPump (agent_socket (\<lambda>f. frame_type_name (f_Type f)) (by_type demo_run) demo_run) s1 = Inr s2"
    "rt_heap (sv_router s2) 3 = Some q"
    "collectExecResult (map FromAgent (ch_buf (as_toBrowser q))) [] [] = Some (exec_reply (demo_world [''up 3 days'']) demo_payload, False)"
    unfolding ids by auto
  moreover have "xr_Stdout (exec_reply (demo_world [''up 3 days'']) demo_payload) = Redact ''up 3 days''"
    by (simp add: exec_reply_def exec_result_def captured_def demo_world_def exec_limit_def demo_payload_def)
  ultimately show ?thesis using acc by blast
qed

section \<open>Output that does not fit a frame\<close>

lemma length_b64_encode: "length (b64_encode al True b) = 4 * ((length b + 2) div 3)"
proof (induction al True b rule: b64_encode.induct)
  case (1 al a b c s)
  have "(length s + 5) div 3 = Suc ((length s + 2) div 3)" by presburger
  with 1 show ?case by (simp add: add.commute)
qed simp_all

text \<open>
  C18. The agent sends a stream in one frame, but the relay reads frames of at most 1 MiB: when a command's
  redacted standard output is longer than 768 KiB, which the default limit of 1 MiB lets through, the relay
  stops reading from the agent after the acknowledgement. Neither the output nor the exit frame arrives,
  the caller waits until its time is up and gets -1 with no output, and the agent is disconnected. All that is
  used of the encoding is that a frame is at least as long as the data it carries.
\<close>

theorem large_output_disconnects:
  assumes "exec_started w x pid" "\<And>f out. f_Output f = Some out \<Longrightarrow> length (o_Data out) \<le> length (marshal f)"
    and "carried marshal unmarshal (ack_frame sid eid (ew_started w) pid)"
    and "3 * 2 ^ 18 < length (Redact (captured x (ew_stdout w)))"
  shows "agentReadPump (agent_socket marshal unmarshal (fst (runExec w sid eid x))) s =
      agentReadPump_step (ack_frame sid eid (ew_started w) pid) s \<and>
    collectExecResult [FromAgent (ack_frame sid eid (ew_started w) pid)] [] [] = None \<and>
    collectExecResult [FromAgent (ack_frame sid eid (ew_started w) pid), CtxDone] [] [] = Some (exec_result (-1) False [] [], True)"
proof -
  let ?b = "captured x (ew_stdout w)"
  let ?f = "emitOutput sid eid TypeStdout ?b" and ?ack = "ack_frame sid eid (ew_started w) pid"
  have "?b \<noteq> []" using assms(4) by auto
  then obtain rest where fs: "fst (runExec w sid eid x) = ?ack # ?f # rest"
    by (simp add: runExec_started [OF assms(1)] output_frames_def)
  have "2 ^ 20 < length (std_encode (Redact ?b))" using assms(4) by (simp add: length_b64_encode)
  also have "\<dots> \<le> length (marshal ?f)" using assms(2) [of ?f] by simp
  finally have "readFrame unmarshal (Some (marshal ?f)) = None" by (simp add: readFrame_def wsReadLimit_def)
  moreover have "readFrame unmarshal (Some (marshal ?ack)) = Some ?ack"
    using assms(3) by (simp add: readFrame_def carried_def)
  ultimately have "agent_socket marshal unmarshal (fst (runExec w sid eid x)) = Some ?ack # None # map (\<lambda>f. readFrame unmarshal (Some (marshal f))) rest"
    by (simp add: agent_socket_def fs)
  then show ?thesis by (cases "agentReadPump_step ?ack s") simp_all
qed

text \<open>A text of dots has nothing to redact: no pattern begins with one.\<close>

lemma no_match_dot: "r \<in> set redactors \<Longrightarrow> rx_match r ([CHR ''.''] # xs) = []"
  by (auto simp: redactors_def rx_aws_key_def rx_aws_secret_def rx_github_def rx_slack_def rx_sk_def rx_vault_def rx_jwt_def
      rx_pem_def rx_keyword_def lit_def lit_i_def)

lemma no_match_Nil: "r \<in> set redactors \<Longrightarrow> rx_match r [] = []"
  by (auto simp: redactors_def rx_aws_key_def rx_aws_secret_def rx_github_def rx_slack_def rx_sk_def rx_vault_def rx_jwt_def
      rx_pem_def rx_keyword_def)

lemma Redact_dots: "Redact (replicate n CHR ''.'') = replicate n CHR ''.''"
proof -
  let ?s = "replicate n CHR ''.''"
  have runes: "runes ?s = replicate n [CHR ''.'']"
    by (subst runes_all_ascii) (simp_all add: list_all_iff ascii_def)
  have "clean r (replicate n [CHR ''.''])" if "r \<in> set redactors" for r
    by (induction n) (simp_all add: no_match_dot [OF that] no_match_Nil [OF that])
  then have "ReplaceAllString r ?s = ?s" if "r \<in> set redactors" for r
    using that clean_replace by (simp add: ReplaceAllString_def runes concat_replicate_trivial concat_map_singleton map_replicate_const [symmetric])
  moreover have "foldl (\<lambda>s re. ReplaceAllString re s) ?s rs = ?s" if "\<And>r. r \<in> set rs \<Longrightarrow> ReplaceAllString r ?s = ?s" for rs
    using that by (induction rs) simp_all
  ultimately show ?thesis unfolding Redact_def by blast
qed

definition demo_large :: "bytes list" where
  "demo_large = [replicate (3 * 2 ^ 18 + 1) CHR ''.'']"

theorem large_output_disconnects_witness:
  "agentReadPump (agent_socket (\<lambda>f. case f_Output f of Some out \<Rightarrow> o_Data out | None \<Rightarrow> [])
       (\<lambda>b. if b = [] then Some (ack_frame ''svc-u'' ''e1'' 0 42) else None)
       (fst (runExec (demo_world demo_large) ''svc-u'' ''e1'' demo_payload))) demo_online =
     agentReadPump_step (ack_frame ''svc-u'' ''e1'' 0 42) demo_online"
proof -
  let ?w = "demo_world demo_large"
  have w: "ew_stdout ?w = demo_large" "ew_started ?w = 0" by (simp_all add: demo_world_def)
  have "exec_started ?w demo_payload 42"
    by (simp add: exec_started_def prepare_argv_def demo_world_def demo_payload_def demo_large_def)
  moreover have "captured demo_payload (ew_stdout ?w) = replicate (3 * 2 ^ 18 + 1) CHR ''.''"
    unfolding w by (simp add: captured_def demo_large_def exec_limit_def demo_payload_def)
  then have "3 * 2 ^ 18 < length (Redact (captured demo_payload (ew_stdout ?w)))"
    by (simp only: Redact_dots length_replicate)
  moreover have "carried (\<lambda>f. case f_Output f of Some out \<Rightarrow> o_Data out | None \<Rightarrow> [])
      (\<lambda>b. if b = [] then Some (ack_frame ''svc-u'' ''e1'' 0 42) else None) (ack_frame ''svc-u'' ''e1'' (ew_started ?w) 42)"
    by (simp add: carried_def w wsReadLimit_def)
  ultimately show ?thesis
    using large_output_disconnects [where w = ?w and x = demo_payload and pid = 42 and sid = "''svc-u''" and eid = "''e1''" and s = demo_online
        and marshal = "\<lambda>f. case f_Output f of Some out \<Rightarrow> o_Data out | None \<Rightarrow> []"] w(2) by auto
qed

section \<open>A script behind an argument vector\<close>

text \<open>
  An operator's exec frame may carry both an argument vector and a script. The relay audits the vector and
  passes the frame on; the agent runs the script, and nothing the relay records names it.
\<close>

lemma operator_script_unaudited:
  assumes "f_Type f = TypeExec" "f_Exec f = Some x" "x_Argv x \<noteq> []" "x_Script x = Some sc"
    and "send_to (os_agent os) g (sv_reg s) = Inr (True, rg)"
    and "g = f\<lparr>f_SessionID := sc_SessionID (os_claims os), f_Exec := Some (clamp_exec x)\<rparr>"
  shows "\<exists>os' s'. operator_pump_step now (Some f) os s = (Continue, [], os', s') \<and> sv_reg s' = rg \<and>
      (\<exists>e. lg_out (sv_audit s') = lg_out (sv_audit s) @ [e] \<and> ev_Argv e = x_Argv x)"
    "prepare_argv w (clamp_exec x) = materialiseScript (ew_quote w) (ew_goos w) (ew_dir w) (ew_outs w) sc"
proof -
  have "x_Argv (clamp_exec x) = x_Argv x" "x_Script (clamp_exec x) = Some sc" using assms(4) by (simp_all add: clamp_exec_def)
  then show "\<exists>os' s'. operator_pump_step now (Some f) os s = (Continue, [], os', s') \<and> sv_reg s' = rg \<and>
      (\<exists>e. lg_out (sv_audit s') = lg_out (sv_audit s) @ [e] \<and> ev_Argv e = x_Argv x)"
    "prepare_argv w (clamp_exec x) = materialiseScript (ew_quote w) (ew_goos w) (ew_dir w) (ew_outs w) sc"
    using assms by (simp_all add: operator_pump_step_def pump_send_def op_exec_event_def stamp_def prepare_argv_def Let_def)
qed

end
