(* ===== verification/Console.thy ===== *)
theory Console
  imports System
begin

text \<open>
  An operator's terminal from end to end: \<open>operator_pump\<close> and \<open>agentWritePump\<close>, the loops over the steps of \<open>OperatorWS\<close>
  and \<open>AgentWS\<close>, and the composition of both directions with the shell of \<open>Pty\<close> on the device.
\<close>

section \<open>The two loops that carry keystrokes\<close>

fun operator_pump ::
  "(time \<times> Frame option) list \<Rightarrow> op_session \<Rightarrow> Server \<Rightarrow> pump_result \<times> ws_effect list \<times> op_session \<times> Server" where
  "operator_pump [] os s = (Continue, [], os, s)"
| "operator_pump ((now, rd) # rds) os s =
     (case operator_pump_step now rd os s of
        (Continue, ws, os', s') \<Rightarrow> (case operator_pump rds os' s' of (res, ws', r) \<Rightarrow> (res, ws @ ws', r))
      | stopped \<Rightarrow> stopped)"

fun agentWritePump :: "write_event list \<Rightarrow> addr \<Rightarrow> Server \<Rightarrow> panic + (ws_effect list \<times> Server)" where
  "agentWritePump [] p s = Inr ([], s)"
| "agentWritePump (ev # evs) p s =
     and_then (agentWritePump_step ev p s) (\<lambda>(ws, more, s').
       if more then and_then (agentWritePump evs p s') (\<lambda>(ws', s''). Inr (ws @ ws', s'')) else Inr (ws, s'))"

lemma keystroke_session: "(pty_data_frame x b)\<lparr>f_SessionID := sid\<rparr> = pty_data_frame sid b"
  by (simp add: pty_data_frame_def frame_def)

lemma Agent_Send_room:
  assumes "agent_live a" "length (agent_queue a) < agent_limit a"
  shows "\<exists>a'. Agent_Send f a = Inr (True, a') \<and> agent_live a' \<and> agent_queue a' = agent_queue a @ [f] \<and>
    agent_limit a' = agent_limit a"
  using assms
  by (cases "a_outbound a") (auto simp: Agent_Send_def try_send_def agent_live_def agent_queue_def agent_limit_def chan_wf_def)

lemma keystroke_pumped:
  assumes "rg_heap (sv_reg s) (os_agent os) = Some a" "agent_live a" "length (agent_queue a) < agent_limit a"
  shows "\<exists>s' a'. operator_pump_step now (Some (pty_data_frame x b)) os s =
      (Continue, [], os\<lparr>os_idle := now + sessionIdleTimeout\<rparr>, s') \<and> rg_heap (sv_reg s') (os_agent os) = Some a' \<and>
    agent_live a' \<and> agent_queue a' = agent_queue a @ [pty_data_frame (sc_SessionID (os_claims os)) b] \<and>
    agent_limit a' = agent_limit a \<and> sv_router s' = sv_router s \<and> sv_audit s' = sv_audit s"
proof -
  let ?f = "pty_data_frame (sc_SessionID (os_claims os)) b"
  obtain a' where a': "Agent_Send ?f a = Inr (True, a')" "agent_live a'" "agent_queue a' = agent_queue a @ [?f]"
      "agent_limit a' = agent_limit a"
    using Agent_Send_room [OF assms(2,3)] by blast
  then have "send_to (os_agent os) ?f (sv_reg s) = Inr (True, store_agent (os_agent os) a' (sv_reg s))"
    using assms(1) by (simp add: send_to_def deref_def)
  then have "operator_pump_step now (Some (pty_data_frame x b)) os s =
      (Continue, [], os\<lparr>os_idle := now + sessionIdleTimeout\<rparr>, s\<lparr>sv_reg := store_agent (os_agent os) a' (sv_reg s)\<rparr>)"
    by (simp add: operator_pump_step_def Let_def keystroke_session pump_send_def)
  with a' show ?thesis
    by (intro exI [of _ "s\<lparr>sv_reg := store_agent (os_agent os) a' (sv_reg s)\<rparr>"] exI [of _ a']) (simp add: store_agent_def)
qed

text \<open>\<open>ks\<close> is what the browser sends: when, under which session id, and the bytes.\<close>

definition key_reads :: "(time \<times> string \<times> bytes) list \<Rightarrow> (time \<times> Frame option) list" where
  "key_reads ks = map (\<lambda>(now, x, b). (now, Some (pty_data_frame x b))) ks"

definition key_frames :: "string \<Rightarrow> (time \<times> string \<times> bytes) list \<Rightarrow> Frame list" where
  "key_frames sid ks = map (\<lambda>(now, x, b). pty_data_frame sid b) ks"

definition key_bytes :: "(time \<times> string \<times> bytes) list \<Rightarrow> bytes" where
  "key_bytes ks = concat (map (\<lambda>(now, x, b). b) ks)"

lemmas key_defs = key_reads_def key_frames_def key_bytes_def

lemma keys_pumped:
  assumes "rg_heap (sv_reg s) (os_agent os) = Some a" "agent_live a" "length (agent_queue a) + length ks \<le> agent_limit a"
  shows "\<exists>os' s' a'. operator_pump (key_reads ks) os s = (Continue, [], os', s') \<and>
    rg_heap (sv_reg s') (os_agent os) = Some a' \<and> agent_live a' \<and>
    agent_queue a' = agent_queue a @ key_frames (sc_SessionID (os_claims os)) ks \<and>
    sv_router s' = sv_router s \<and> sv_audit s' = sv_audit s"
  using assms
proof (induction ks arbitrary: os s a)
  case (Cons k ks)
  obtain now x b where k: "k = (now, x, b)" by (cases k)
  let ?os = "os\<lparr>os_idle := now + sessionIdleTimeout\<rparr>"
  from Cons.prems(3) have "length (agent_queue a) < agent_limit a" by simp
  from keystroke_pumped [OF Cons.prems(1,2) this, of now x b] obtain s1 a1 where
    1: "operator_pump_step now (Some (pty_data_frame x b)) os s = (Continue, [], ?os, s1)"
      "rg_heap (sv_reg s1) (os_agent ?os) = Some a1" "agent_live a1"
      "agent_queue a1 = agent_queue a @ [pty_data_frame (sc_SessionID (os_claims os)) b]" "agent_limit a1 = agent_limit a"
      "sv_router s1 = sv_router s" "sv_audit s1 = sv_audit s"
    by auto
  have "length (agent_queue a1) + length ks \<le> agent_limit a1" using 1(4,5) Cons.prems(3) by simp
  from Cons.IH [OF 1(2,3) this] 1 show ?case by (auto simp: key_defs k)
qed (simp add: key_defs)

lemma write_pump_drains:
  assumes "rg_heap (sv_reg s) p = Some a" "agent_live a"
  shows "\<exists>s' a'. agentWritePump (replicate (length (agent_queue a)) (WOutbound True)) p s =
      Inr (map WsWrite (agent_queue a), s') \<and> sv_router s' = sv_router s \<and> sv_audit s' = sv_audit s \<and>
    rg_heap (sv_reg s') p = Some a' \<and> agent_queue a' = []"
  using assms
proof (induction "agent_queue a" arbitrary: s a)
  case Nil
  from Nil.hyps [symmetric] Nil.prems show ?case by simp
next
  case (Cons f fs)
  obtain c where c: "a_outbound a = Some c" "ch_buf c = f # fs"
    using Cons.hyps(2) by (cases "a_outbound a") (simp_all add: agent_queue_def)
  let ?a = "a\<lparr>a_outbound := Some (c\<lparr>ch_buf := fs\<rparr>)\<rparr>"
  let ?s = "s\<lparr>sv_reg := store_agent p ?a (sv_reg s)\<rparr>"
  have step: "agentWritePump_step (WOutbound True) p s = Inr ([WsWrite f], True, ?s)"
    using Cons.prems(1) c by (simp add: agentWritePump_step_def outbound_recv_def deref_def try_recv_def)
  have "fs = agent_queue ?a" "rg_heap (sv_reg ?s) p = Some ?a" "agent_live ?a"
    using Cons.prems(2) c by (auto simp: agent_queue_def store_agent_def agent_live_def chan_wf_def)
  from Cons.hyps(1) [OF this] step show ?case
    unfolding Cons.hyps(2) [symmetric] \<open>fs = agent_queue ?a\<close> [symmetric] by auto
qed

section \<open>The shell and the screen\<close>

lemma keystroke_typed:
  assumes "pty_get (ac_ptys c) sid = Some p" "p < length (pr_heap (ac_ptys c))" "pt_open (pr_heap (ac_ptys c) ! p)"
    and "sid \<noteq> []" "\<not> li_fails i"
  shows "runOnce_frame i (pty_data_frame sid b) c =
    c\<lparr>ac_ptys := pty_update p (\<lambda>s. s\<lparr>pt_stdin := pt_stdin s @ b\<rparr>) (ac_ptys c)\<rparr>"
proof -
  have "f_PtyData (pty_data_frame sid b) = Some \<lparr>pd_Data = std_encode b\<rparr>" by (simp add: pty_data_frame_def)
  moreover have "pty_writeStdin False p b (ac_ptys c) =
      (True, pty_update p (\<lambda>s. s\<lparr>pt_stdin := pt_stdin s @ b\<rparr>) (ac_ptys c))"
    using assms(3) by (simp add: pty_writeStdin_def)
  ultimately show ?thesis using assms by (simp add: runOnce_frame_def loop_pty_data_def std64.decode_encode)
qed

lemma keys_typed:
  assumes "pty_get (ac_ptys c) sid = Some p" "p < length (pr_heap (ac_ptys c))" "pt_open (pr_heap (ac_ptys c) ! p)"
    and "sid \<noteq> []" "length is = length ks" "list_all (\<lambda>i. \<not> li_fails i) is"
    and "ac_pending c = None" "\<not> ch_closed (ac_out c)"
  shows "\<exists>c'. conn_run c (map2 Received is (key_frames sid ks)) c' \<and>
    pt_stdin (pr_heap (ac_ptys c') ! p) = pt_stdin (pr_heap (ac_ptys c) ! p) @ key_bytes ks"
  using assms(5,1-3,6-8)
proof (induction "is" ks arbitrary: c rule: list_induct2)
  case Nil
  then show ?case by (intro exI [of _ c]) (simp add: conn_run.stop key_defs)
next
  case (Cons i "is" k ks)
  obtain now x b where k: "k = (now, x, b)" by (cases k)
  let ?c = "c\<lparr>ac_ptys := pty_update p (\<lambda>s. s\<lparr>pt_stdin := pt_stdin s @ b\<rparr>) (ac_ptys c)\<rparr>"
  have step: "agent_step (Received i (pty_data_frame sid b)) c = Some (Inr ?c)"
    using Cons.prems keystroke_typed [of c sid p i b] assms(4) by simp
  have "pty_get (ac_ptys ?c) sid = Some p" "p < length (pr_heap (ac_ptys ?c))" "pt_open (pr_heap (ac_ptys ?c) ! p)"
    "pt_stdin (pr_heap (ac_ptys ?c) ! p) = pt_stdin (pr_heap (ac_ptys c) ! p) @ b"
    using Cons.prems by (simp_all add: pty_get_def)
  with Cons.IH [of ?c] Cons.prems obtain c' where "conn_run ?c (map2 Received is (key_frames sid ks)) c'"
      "pt_stdin (pr_heap (ac_ptys c') ! p) = pt_stdin (pr_heap (ac_ptys c) ! p) @ b @ key_bytes ks" by auto
  with conn_run.more [OF step] show ?case by (intro exI [of _ c']) (auto simp: key_defs k)
qed

definition screen_writes :: "(time \<times> Frame) list \<Rightarrow> (time \<times> main_event) list" where
  "screen_writes fs = map (\<lambda>(now, f). (now, ToBrowser f True)) fs"

lemma terminal_shown:
  assumes "list_all (\<lambda>f. f_Output f = None \<and> f_Type f \<noteq> TypeExit) fs" "length ts = length fs"
  shows "main_loop (screen_writes (zip ts fs)) os s = (None, map WsWrite fs, s)"
  using assms(2,1)
  by (induction ts fs rule: list_induct2) (auto simp: screen_writes_def main_step_def redact_frame_def Let_def)

lemma pty_reader_plain:
  "list_all (\<lambda>f. f_Output f = None \<and> f_Type f \<in> {TypePtyData, TypePtyExit} \<and> f_SessionID f = sid) (fst (pty_reader sid es))"
  by (induction sid es rule: pty_reader.induct)
    (auto simp: pty_reader_step_def pty_data_frame_def pty_exit_frame_def Let_def split: prod.splits bool.splits if_splits)

lemma pty_reader_routed: "filter (\<lambda>f. f_Type f \<in> set routed_types) (fst (pty_reader sid es)) = fst (pty_reader sid es)"
  using pty_reader_plain [of sid es] by (auto simp: list_all_iff routed_types_def filter_id_conv)

text \<open>
  A console at work: its operator is attached and waits for nothing, its agent is live with nothing queued, and on the
  device the shell of the session is open and the frame loop reads.
\<close>

definition console_ready :: "op_session \<Rightarrow> Agent \<Rightarrow> Server \<Rightarrow> nat \<Rightarrow> agent_conn \<Rightarrow> bool" where
  "console_ready os a s p c \<longleftrightarrow>
     sc_SessionID (os_claims os) \<noteq> [] \<and>
     rg_heap (sv_reg s) (os_agent os) = Some a \<and> agent_live a \<and> agent_queue a = [] \<and>
     router_reachable (sv_router s) \<and> router_get (sv_router s) (sc_SessionID (os_claims os)) = Some (os_sess os) \<and>
     rt_heap (sv_router s) (os_sess os) = Some (new_session (Some (os_claims os))) \<and>
     conn_reachable c \<and> pty_get (ac_ptys c) (sc_SessionID (os_claims os)) = Some p \<and>
     ac_pending c = None \<and> \<not> ch_closed (ac_out c)"

lemma console_shell:
  "console_ready os a s p c \<Longrightarrow> p < length (pr_heap (ac_ptys c)) \<and> pt_open (pr_heap (ac_ptys c) ! p)"
  using pty_okD(3) conn_ok_pty conn_reachable_ok by (fastforce simp: console_ready_def pty_get_def)

text \<open>
  C4. A terminal works in both directions. What the operator types reaches the shell of the session, all of it and in
  order, whatever session id the browser puts into its frames. What the shell prints, in order among any other
  frames of the agent, reaches the operator's screen byte for byte, followed by its exit; neither direction is
  redacted, and neither leaves anything in the audit trail.
\<close>

theorem console_end_to_end:
  assumes "console_ready os a s p c" "sid = sc_SessionID (os_claims os)" "length ks \<le> agent_limit a"
    and "length is = length ks" "list_all (\<lambda>i. \<not> li_fails i) is"
    and "list_all (\<lambda>e. \<not> rd_done_data e \<and> \<not> rd_done_exit e) es"
    and "filter (\<lambda>f. f_SessionID f = sid) fs = fst (pty_reader sid es)"
    and "length (fst (pty_reader sid es)) = length ts" "length ts \<le> 64"
    and "list_all (carried marshal decode) (key_frames sid ks @ fs)"
  shows "\<exists>os' s1 s2 s3 c' q.
    operator_pump (key_reads ks) os s = (Continue, [], os', s1) \<and>
    agentWritePump (replicate (length ks) (WOutbound True)) (os_agent os) s1 = Inr (map WsWrite (key_frames sid ks), s2) \<and>
    conn_run c (map2 Received is (map the (agent_socket marshal decode (key_frames sid ks)))) c' \<and>
    pt_stdin (pr_heap (ac_ptys c') ! p) = pt_stdin (pr_heap (ac_ptys c) ! p) @ key_bytes ks \<and>
    agentReadPump (agent_socket marshal decode fs) s2 = Inr s3 \<and> rt_heap (sv_router s3) (os_sess os) = Some q \<and>
    main_loop (screen_writes (zip ts (ch_buf (as_toBrowser q)))) os s3 = (None, map WsWrite (fst (pty_reader sid es)), s3) \<and>
    concat (map pty_payload (fst (pty_reader sid es))) = concat (map rd_chunk (until_err es)) \<and>
    sv_audit s3 = sv_audit s"
proof -
  let ?keys = "key_frames sid ks" and ?out = "fst (pty_reader sid es)"
  have ready: "sid \<noteq> []" "rg_heap (sv_reg s) (os_agent os) = Some a" "agent_live a" "agent_queue a = []"
      "router_reachable (sv_router s)" "router_get (sv_router s) sid = Some (os_sess os)"
      "rt_heap (sv_router s) (os_sess os) = Some (new_session (Some (os_claims os)))" "pty_get (ac_ptys c) sid = Some p"
      "ac_pending c = None" "\<not> ch_closed (ac_out c)"
    using assms(1,2) by (simp_all add: console_ready_def)
  have "length (agent_queue a) + length ks \<le> agent_limit a" using ready(4) assms(3) by simp
  from keys_pumped [OF ready(2,3) this] obtain os' s1 a1 where
    1: "operator_pump (key_reads ks) os s = (Continue, [], os', s1)" "rg_heap (sv_reg s1) (os_agent os) = Some a1"
      "agent_live a1" "agent_queue a1 = ?keys" "sv_router s1 = sv_router s" "sv_audit s1 = sv_audit s"
    using ready(4) assms(2) by auto
  have len: "length ?keys = length ks" by (simp add: key_defs)
  from write_pump_drains [OF 1(2,3)] obtain s2 where
    2: "agentWritePump (replicate (length ks) (WOutbound True)) (os_agent os) s1 = Inr (map WsWrite ?keys, s2)"
      "sv_router s2 = sv_router s" "sv_audit s2 = sv_audit s"
    unfolding 1(4) len using 1(5,6) by auto
  have socket: "map the (agent_socket marshal decode ?keys) = ?keys"
    using agent_socket_carried [of marshal decode ?keys] assms(10) by (simp add: comp_def)
  from keys_typed [OF ready(8) conjunct1 [OF console_shell [OF assms(1)]] conjunct2 [OF console_shell [OF assms(1)]]
      ready(1) assms(4,5) ready(9,10)]
  obtain c' where 3: "conn_run c (map2 Received is ?keys) c'"
      "pt_stdin (pr_heap (ac_ptys c') ! p) = pt_stdin (pr_heap (ac_ptys c) ! p) @ key_bytes ks" by blast
  let ?fs = "filter (\<lambda>f. f_Type f \<in> set routed_types) fs"
  have mine: "filter (\<lambda>f. f_SessionID f = sid) ?fs = ?out"
    using pty_reader_routed [of sid es] assms(7) by (metis (no_types, lifting) filter_filter filter_cong conj_commute)
  from route_all_delivers [OF router_reachable_inv [OF ready(5)] ready(6,7,1), of ?fs] obtain rt where
    rt: "route_all ?fs (sv_router s) = Inr rt" "rt_heap rt (os_sess os) = Some (foldl deliver (new_session (Some (os_claims os))) ?out)"
    unfolding mine by blast
  have 4: "agentReadPump (agent_socket marshal decode fs) s2 = Inr (s2\<lparr>sv_router := rt\<rparr>)"
    using read_pump_carried [of marshal decode fs s2] assms(10) rt(1) 2(2) by simp
  have 5: "ch_buf (as_toBrowser (foldl deliver (new_session (Some (os_claims os))) ?out)) = ?out"
    using fresh_session_holds [of ?out] assms(8,9) by simp
  have "list_all (\<lambda>f. f_Output f = None \<and> f_Type f \<noteq> TypeExit) ?out"
    using pty_reader_plain [of sid es] by (auto simp: list_all_iff)
  note shown = terminal_shown [OF this assms(8) [symmetric], of os "s2\<lparr>sv_router := rt\<rparr>"]
  have bytes: "concat (map pty_payload ?out) = concat (map rd_chunk (until_err es))"
    using pty_reader_calm [OF assms(6), of sid] by (simp add: concat_filter_nonempty comp_def)
  show ?thesis
    using 1(1) 2(1,3) 3 4 rt(2) shown bytes
    by (intro exI [of _ os'] exI [of _ s1] exI [of _ s2] exI [of _ "s2\<lparr>sv_router := rt\<rparr>"] exI [of _ c']
        exI [of _ "foldl deliver (new_session (Some (os_claims os))) ?out"]) (simp add: 5 socket)
qed

text \<open>A shell opened on the device, and one key that it echoes before it exits.\<close>

definition shell_conn :: agent_conn where
  "shell_conn = runOnce_frame demo_input (demo_shell\<lparr>f_SessionID := ''s1''\<rparr>) runOnce_start"

lemma shell_conn:
  "pty_get (ac_ptys shell_conn) ''s1'' = Some 0" "ac_pending shell_conn = None" "\<not> ch_closed (ac_out shell_conn)"
  "pt_stdin (pr_heap (ac_ptys shell_conn) ! 0) = []"
  by (simp_all add: shell_conn_def demo_shell_def runOnce_frame_def loop_pty_start_def startPty_def demo_input_def
      demo_pty_world_def newPtyRegistry_def spawnShell_def orDefault_def defaultShell_def pty_put_def gm_len_def
      maxParallelPtys_def runOnce_start_def pty_get_def make_chan_def Let_def)

lemma shell_conn_reachable: "conn_reachable shell_conn"
  unfolding shell_conn_def
  by (rule conn_reachable.step [OF conn_reachable.start, of "Received demo_input (demo_shell\<lparr>f_SessionID := ''s1''\<rparr>)"])
    (simp add: runOnce_start_def make_chan_def)

definition demo_console :: Server where
  "demo_console = demo_online\<lparr>sv_router := demo_router\<rparr>"

lemma demo_console_ready:
  "console_ready demo_op (registered_agent 5 2 (new_agent ''d1'' ''o1'')) demo_console 0 shell_conn"
  using demo_router_reachable demo_router_session shell_conn shell_conn_reachable demo_live
  by (simp add: console_ready_def demo_console_def demo_op_def)

definition demo_echo :: "pty_read list" where
  "demo_echo =
     [\<lparr>rd_chunk = ''a'', rd_err = False, rd_done_data = False, rd_done_exit = False, rd_code = 0\<rparr>,
      \<lparr>rd_chunk = [], rd_err = True, rd_done_data = False, rd_done_exit = False, rd_code = 0\<rparr>]"

definition demo_keys :: "(time \<times> string \<times> bytes) list" where
  "demo_keys = [(7, ''mine'', ''a'')]"

theorem console_end_to_end_witness:
  "\<exists>c' s2 s3 (q :: activeSession). pt_stdin (pr_heap (ac_ptys c') ! 0) = ''a'' \<and>
     main_loop (screen_writes (zip [8, 9] (ch_buf (as_toBrowser q)))) demo_op s3 =
       (None, [WsWrite (pty_data_frame ''s1'' ''a''), WsWrite (pty_exit_frame ''s1'' 0)], s3) \<and>
     conn_run shell_conn [Received demo_input (pty_data_frame ''s1'' ''a'')] c' \<and>
     agentReadPump [Some (pty_data_frame ''s1'' ''a''), Some (pty_exit_frame ''s1'' 0)] s2 = Inr s3"
proof -
  let ?m = "\<lambda>f. frame_type_name (f_Type f)"
  let ?fs = "[pty_data_frame ''s1'' ''a'', pty_exit_frame ''s1'' 0]"
  have out: "fst (pty_reader ''s1'' demo_echo) = ?fs" by (simp add: demo_echo_def pty_reader_step_def)
  have keys: "key_frames ''s1'' demo_keys = [pty_data_frame ''s1'' ''a'']" "key_bytes demo_keys = ''a''" by (simp_all add: key_defs demo_keys_def)
  have carried: "list_all (carried ?m (by_type ?fs)) (key_frames ''s1'' demo_keys @ ?fs)"
    unfolding keys by (simp add: carried_def by_type_def wsReadLimit_def)
  have calm: "list_all (\<lambda>e. \<not> rd_done_data e \<and> \<not> rd_done_exit e) demo_echo" by (simp add: demo_echo_def)
  have socket: "agent_socket ?m (by_type ?fs) ?fs = map Some ?fs"
      "map the (agent_socket ?m (by_type ?fs) [pty_data_frame ''s1'' ''a'']) = [pty_data_frame ''s1'' ''a'']"
    using carried agent_socket_carried [of ?m "by_type ?fs"] by (simp_all add: keys)
  have fits: "''s1'' = sc_SessionID (os_claims demo_op)"
      "length demo_keys \<le> agent_limit (registered_agent 5 2 (new_agent ''d1'' ''o1''))" "length [demo_input] = length demo_keys"
      "list_all (\<lambda>i. \<not> li_fails i) [demo_input]"
    by (simp_all add: demo_op_def demo_keys_def demo_input_def)
  have frames: "filter (\<lambda>f. f_SessionID f = ''s1'') ?fs = fst (pty_reader ''s1'' demo_echo)"
      "length (fst (pty_reader ''s1'' demo_echo)) = length [8, 9 :: time]" "length [8, 9 :: time] \<le> 64"
    by (simp_all add: out)
  from console_end_to_end [OF demo_console_ready fits calm frames carried] obtain c' s2 s3 and q :: activeSession where
    "conn_run shell_conn (map2 Received [demo_input] [pty_data_frame ''s1'' ''a'']) c'"
    "pt_stdin (pr_heap (ac_ptys c') ! 0) = ''a''" "agentReadPump (map Some ?fs) s2 = Inr s3"
    "main_loop (screen_writes (zip [8, 9] (ch_buf (as_toBrowser q)))) demo_op s3 = (None, map WsWrite ?fs, s3)"
    unfolding socket out keys shell_conn(4) append_Nil by blast
  then show ?thesis
    by (intro exI [of _ c'] exI [of _ s2] exI [of _ s3] exI [of _ q]) (simp del: agentReadPump.simps)
qed

end
