(* ===== verification/RelayMain.thy ===== *)
theory RelayMain
  imports OperatorWS RelayConfig
begin

text \<open>
  The relay as one program: \<open>Routes\<close> of \<open>internal/server/server.go\<close> with the matching of \<open>http.ServeMux\<close> that its
  patterns use, \<open>serve\<close>, which takes any request through the table to its handler, and the rest of
  \<open>main\<close> in \<open>cmd/relay/main.go\<close>: the listener, the forwarder and the shutdown as steps of one process.
\<close>

section \<open>Routes\<close>

datatype endpoint =
    Healthz
  | PromMetrics
  | AgentSocket
  | ListDevices
  | IssueConsole
  | ExecCall
  | ConsoleSocket

definition Routes :: "((string \<times> string) \<times> endpoint) list" where
  "Routes =
     [((''GET'', ''/healthz''), Healthz),
      ((''GET'', ''/metrics''), PromMetrics),
      ((''GET'', ''/agent/ws''), AgentSocket),
      ((''POST'', ''/api/devices''), ListDevices),
      ((''POST'', ''/api/console''), IssueConsole),
      ((''POST'', ''/api/exec''), ExecCall),
      ((''GET'', ''/console/ws''), ConsoleSocket)]"

text \<open>
  \<open>ServeMux\<close>: a pattern with the method GET also takes HEAD; a path that is not clean is redirected, whatever
  the table holds; a path of the table with another method is 405, any other path 404.
\<close>

fun clean_segments :: "string list \<Rightarrow> string list \<Rightarrow> string list" where
  "clean_segments [] acc = rev acc"
| "clean_segments (s # ss) acc =
     (if s = [] \<or> s = ''.'' then clean_segments ss acc
      else if s = ''..'' then clean_segments ss (tl acc)
      else clean_segments ss (s # acc))"

definition cleanPath :: "string \<Rightarrow> string" where
  "cleanPath p =
     (let segs = clean_segments (split_byte CHR ''/'' p) [];
          np = (if segs = [] then ''/'' else concat (map (\<lambda>s. CHR ''/'' # s) segs))
      in if p \<noteq> [] \<and> last p = CHR ''/'' \<and> np \<noteq> ''/'' then np @ ''/'' else np)"

datatype dispatch = BadTarget | MovedTo string | MethodNotAllowed | NotFound | Handled endpoint

definition method_matches :: "string \<Rightarrow> string \<Rightarrow> bool" where
  "method_matches pat m \<longleftrightarrow> m = pat \<or> pat = ''GET'' \<and> m = ''HEAD''"

definition mux :: "string \<Rightarrow> string \<Rightarrow> dispatch" where
  "mux m p =
     (if p = ''*'' then BadTarget
      else if m \<noteq> ''CONNECT'' \<and> cleanPath p \<noteq> p then MovedTo (cleanPath p)
      else (case find (\<lambda>((pm, pp), e). pp = p \<and> method_matches pm m) Routes of
              Some (pat, e) \<Rightarrow> Handled e
            | None \<Rightarrow> if list_ex (\<lambda>((pm, pp), e). pp = p) Routes then MethodNotAllowed else NotFound))"

section \<open>A request through the server\<close>

text \<open>
  What a request meets besides the server's state: the clock, the JWT and JSON libraries, the order of a
  \<open>range\<close>, fresh ids and addresses, and what the websocket library and the peer do.
\<close>

record http_world =
  hw_now :: time
  hw_agent_parse :: "AgentClaims jwt_parse"
  hw_session_parse :: "SessionClaims jwt_parse"
  hw_sign :: "SessionClaims jwt_sign"
  hw_date :: "time \<Rightarrow> time"
  hw_list_json :: "bytes \<Rightarrow> listDevicesReq option"
  hw_issue_json :: "bytes \<Rightarrow> issueSessionReq option"
  hw_exec_json :: "bytes \<Rightarrow> execReq option"
  hw_range :: "(string \<times> addr) list"
  hw_uuid :: string
  hw_exec_id :: string
  hw_upgraded :: bool
  hw_first :: "Frame option"
  hw_addr :: addr

datatype response =
    Text nat string
  | PromPage
  | MuxReply nat
  | DeviceReply "deviceRow list reply"
  | ConsoleReply "issueSessionRes reply"
  | ExecReply exec_outcome
  | AgentReply agent_outcome "ws_effect list"
  | OperatorReply op_outcome "ws_effect list"

definition serve_endpoint :: "http_world \<Rightarrow> endpoint \<Rightarrow> HttpReq \<Rightarrow> Server \<Rightarrow> response \<times> Server" where
  "serve_endpoint w e r s =
     (case e of
        Healthz \<Rightarrow> (case healthz r of (code, b) \<Rightarrow> (Text code b, s))
      | PromMetrics \<Rightarrow> (PromPage, s)
      | AgentSocket \<Rightarrow>
          (case handleAgentWS_start (hw_agent_parse w) (hw_upgraded w) (hw_first w) (hw_addr w) (hw_now w) r s of
             (res, ws, s') \<Rightarrow> (AgentReply res ws, s'))
      | ListDevices \<Rightarrow>
          (case handleListDevices (hw_list_json w) (hw_range w) (hw_now w) r s of (res, s') \<Rightarrow> (DeviceReply res, s'))
      | IssueConsole \<Rightarrow>
          (case handleIssueSession (hw_sign w) (hw_date w) (hw_issue_json w) (hw_uuid w) (hw_now w) r s of
             (res, s') \<Rightarrow> (ConsoleReply res, s'))
      | ExecCall \<Rightarrow>
          (case handleExec_accept (hw_exec_json w) (hw_uuid w) (hw_exec_id w) (hw_addr w) (hw_now w) r s of
             (res, s') \<Rightarrow> (ExecReply res, s'))
      | ConsoleSocket \<Rightarrow>
          (case handleOperatorWS_open (hw_session_parse w) (hw_upgraded w) (hw_addr w) (hw_now w) r s of
             (res, ws, s') \<Rightarrow> (OperatorReply res ws, s')))"

definition serve :: "http_world \<Rightarrow> HttpReq \<Rightarrow> Server \<Rightarrow> response \<times> Server" where
  "serve w r s =
     (case mux (rq_Method r) (rq_Path r) of
        BadTarget \<Rightarrow> (MuxReply 400, s)
      | MovedTo p \<Rightarrow> (MuxReply 301, s)
      | MethodNotAllowed \<Rightarrow> (MuxReply 405, s)
      | NotFound \<Rightarrow> (MuxReply 404, s)
      | Handled e \<Rightarrow> serve_endpoint w e r s)"

text \<open>The status of a reply; \<open>None\<close> for a request that goes on, was upgraded or made the handler panic.\<close>

definition reply_status :: "'b reply \<Rightarrow> nat" where
  "reply_status q = (case q of Error e \<Rightarrow> fst e | Json code b \<Rightarrow> code)"

definition status :: "response \<Rightarrow> nat option" where
  "status q =
     (case q of
        Text code b \<Rightarrow> Some code
      | PromPage \<Rightarrow> Some 200
      | MuxReply code \<Rightarrow> Some code
      | DeviceReply d \<Rightarrow> Some (reply_status d)
      | ConsoleReply d \<Rightarrow> Some (reply_status d)
      | ExecReply (Replied d) \<Rightarrow> Some (reply_status d)
      | AgentReply (ARefused e) ws \<Rightarrow> Some (fst e)
      | OperatorReply (ORefused e) ws \<Rightarrow> Some (fst e)
      | _ \<Rightarrow> None)"

section \<open>Requests without a credential\<close>

text \<open>What the endpoint of a request asks for: the token of an agent, of a session, or a signature of Hasfy-App.\<close>

definition authorised :: "http_world \<Rightarrow> HttpReq \<Rightarrow> Server \<Rightarrow> bool" where
  "authorised w r s \<longleftrightarrow>
     (case mux (rq_Method r) (rq_Path r) of
        Handled AgentSocket \<Rightarrow> \<not> isl (VerifyAgent (hw_agent_parse w) (hw_now w) (sv_verifier s) (bearerToken r))
      | Handled ConsoleSocket \<Rightarrow>
          \<not> isl (VerifySession (hw_session_parse w) (hw_now w) (sv_verifier s) (query ''token'' r) (clientIP r) (UserAgent r))
      | Handled ListDevices \<Rightarrow> svc_authentic (hw_now w) r s
      | Handled IssueConsole \<Rightarrow> svc_authentic (hw_now w) r s
      | Handled ExecCall \<Rightarrow> svc_authentic (hw_now w) r s
      | _ \<Rightarrow> False)"

definition denied :: "time \<Rightarrow> Server \<Rightarrow> nat \<Rightarrow> Server \<Rightarrow> bool" where
  "denied now s code s' \<longleftrightarrow> s' = s \<or> code = 401 \<and> (\<exists>e. ev_Kind e = ''auth.fail'' \<and> s' = emit now e s)"

lemma denied_same: "denied now s code s"
  by (simp add: denied_def)

lemma denied_emit: "ev_Kind e = ''auth.fail'' \<Longrightarrow> denied now s 401 (emit now e s)"
  by (auto simp: denied_def)

lemma verifySvcHMAC_denied:
  assumes "verifySvcHMAC now r body s = (Some e, s')" shows "fst e = 401 \<and> denied now s 401 s'"
  using assms by (auto simp: verifySvcHMAC_def Let_def denied_same intro: denied_emit split: option.splits if_splits)

lemma svc_guard_denied:
  assumes "\<not> svc_authentic now r s"
  obtains e s' where "svc_guard unmarshal valid now r s = (Inl e, s')" "fst e \<in> {401, 413}" "denied now s (fst e) s'"
proof (cases "readBody s r")
  case (Inl e)
  then have "svc_guard unmarshal valid now r s = (Inl e, s)" "fst e = 413"
    by (auto simp: svc_guard_def readBody_def split: option.splits if_splits)
  then show ?thesis using that denied_same by simp
next
  case (Inr body)
  obtain x s' where v: "verifySvcHMAC now r body s = (x, s')" by (rule prod.exhaust)
  have "x \<noteq> None"
  proof
    assume "x = None"
    with v have "verifySvcHMAC now r body s = (None, s')" by simp
    with assms Inr show False
      by (auto simp: svc_authentic_def verifySvcHMAC_None readBody_def split: option.splits if_splits)
  qed
  then obtain e where "x = Some e" by blast
  then show ?thesis using that [of e s'] verifySvcHMAC_denied v Inr by (simp add: svc_guard_def)
qed

lemma api_denied:
  assumes "\<not> svc_authentic now r s"
  shows "\<exists>e s'. handleListDevices u1 es now r s = (Error e, s') \<and> fst e \<in> {401, 413} \<and> denied now s (fst e) s'"
    and "\<exists>e s'. handleIssueSession sg date u2 sid now r s = (Error e, s') \<and> fst e \<in> {401, 413} \<and> denied now s (fst e) s'"
    and "\<exists>e s'. handleExec_accept u3 u eid sess now r s = (Replied (Error e), s') \<and> fst e \<in> {401, 413} \<and> denied now s (fst e) s'"
proof -
  obtain e s' where "svc_guard u1 (\<lambda>q. ld_OrgID q \<noteq> []) now r s = (Inl e, s')" "fst e \<in> {401, 413}" "denied now s (fst e) s'"
    using svc_guard_denied [OF assms] .
  then show "\<exists>e s'. handleListDevices u1 es now r s = (Error e, s') \<and> fst e \<in> {401, 413} \<and> denied now s (fst e) s'"
    by (simp add: handleListDevices_def)
next
  obtain e s' where "svc_guard u2 (\<lambda>q. is_OrgID q \<noteq> [] \<and> is_DeviceID q \<noteq> [] \<and> is_UserID q \<noteq> []) now r s = (Inl e, s')"
      "fst e \<in> {401, 413}" "denied now s (fst e) s'"
    using svc_guard_denied [OF assms] .
  then show "\<exists>e s'. handleIssueSession sg date u2 sid now r s = (Error e, s') \<and> fst e \<in> {401, 413} \<and> denied now s (fst e) s'"
    by (simp add: handleIssueSession_def)
next
  obtain e s' where "svc_guard u3 (\<lambda>q. er_OrgID q \<noteq> [] \<and> er_DeviceID q \<noteq> [] \<and> er_OperatorUserID q \<noteq> []) now r s = (Inl e, s')"
      "fst e \<in> {401, 413}" "denied now s (fst e) s'"
    using svc_guard_denied [OF assms] .
  then show "\<exists>e s'. handleExec_accept u3 u eid sess now r s = (Replied (Error e), s') \<and> fst e \<in> {401, 413} \<and> denied now s (fst e) s'"
    by (simp add: handleExec_accept_def)
qed

lemma agent_denied:
  assumes "isl (VerifyAgent parse now (sv_verifier s) (bearerToken r))"
  shows "\<exists>e s'. handleAgentWS_start parse acc first p now r s = (ARefused e, [], s') \<and> fst e = 401 \<and> denied now s 401 s'"
  using assms denied_same
  by (cases "VerifyAgent parse now (sv_verifier s) (bearerToken r)")
    (auto simp: handleAgentWS_start_def Let_def intro!: denied_emit split: auth_error.split)

lemma console_denied:
  assumes "isl (VerifySession parse now (sv_verifier s) (query ''token'' r) (clientIP r) (UserAgent r))"
  shows "\<exists>e s'. handleOperatorWS_open parse acc sess now r s = (ORefused e, [], s') \<and> fst e = 401 \<and> denied now s 401 s'"
  using assms denied_same
  by (cases "VerifySession parse now (sv_verifier s) (query ''token'' r) (clientIP r) (UserAgent r)")
    (auto simp: handleOperatorWS_open_def Let_def intro!: denied_emit split: auth_error.split)

lemma serve_denied:
  assumes "\<not> authorised w r s" and "serve w r s = (q, s')"
  shows "\<exists>code. status q = Some code \<and> code \<in> {200, 301, 400, 401, 404, 405, 413} \<and>
    (code = 200 \<longleftrightarrow> mux (rq_Method r) (rq_Path r) \<in> {Handled Healthz, Handled PromMetrics}) \<and> denied (hw_now w) s code s'"
proof (cases "mux (rq_Method r) (rq_Path r)")
  case (Handled e)
  note simps = serve_def serve_endpoint_def authorised_def status_def reply_status_def
  show ?thesis
  proof (cases e)
    case AgentSocket
    with assms Handled have "isl (VerifyAgent (hw_agent_parse w) (hw_now w) (sv_verifier s) (bearerToken r))"
      by (simp add: authorised_def)
    from agent_denied [OF this, of "hw_upgraded w" "hw_first w" "hw_addr w"] assms(2) Handled AgentSocket
    show ?thesis by (auto simp: simps)
  next
    case ConsoleSocket
    with assms Handled have
      "isl (VerifySession (hw_session_parse w) (hw_now w) (sv_verifier s) (query ''token'' r) (clientIP r) (UserAgent r))"
      by (simp add: authorised_def)
    from console_denied [OF this, of "hw_upgraded w" "hw_addr w"] assms(2) Handled ConsoleSocket
    show ?thesis by (auto simp: simps)
  next
    case ListDevices
    with assms Handled have "\<not> svc_authentic (hw_now w) r s" by (simp add: authorised_def)
    from api_denied(1) [OF this, of "hw_list_json w" "hw_range w"] assms(2) Handled ListDevices
    show ?thesis by (auto simp: simps)
  next
    case IssueConsole
    with assms Handled have "\<not> svc_authentic (hw_now w) r s" by (simp add: authorised_def)
    from api_denied(2) [OF this, of "hw_sign w" "hw_date w" "hw_issue_json w" "hw_uuid w"] assms(2) Handled IssueConsole
    show ?thesis by (auto simp: simps)
  next
    case ExecCall
    with assms Handled have "\<not> svc_authentic (hw_now w) r s" by (simp add: authorised_def)
    from api_denied(3) [OF this, of "hw_exec_json w" "hw_uuid w" "hw_exec_id w" "hw_addr w"] assms(2) Handled ExecCall
    show ?thesis by (auto simp: simps)
  qed (use assms Handled in \<open>auto simp: simps healthz_def denied_same\<close>)
qed (use assms(2) in \<open>auto simp: serve_def status_def denied_same\<close>)

text \<open>
  C3. A request that does not carry the credential its endpoint asks for changes nothing but the audit trail, where it
  leaves at most one \<open>auth.fail\<close>, and only with a 401. Every such request is answered, on every method and path, and it
  is answered with success only for the health and metrics pages: a token of one kind opens no endpoint of another.
\<close>

theorem unauthorised_request_harmless:
  assumes "\<not> authorised w r s" and "serve w r s = (q, s')"
  shows "\<exists>code. status q = Some code \<and> code \<in> {200, 301, 400, 401, 404, 405, 413} \<and>
    (code = 200 \<longleftrightarrow> mux (rq_Method r) (rq_Path r) \<in> {Handled Healthz, Handled PromMetrics}) \<and>
    (s' = s \<or> code = 401 \<and> (\<exists>e. ev_Kind e = ''auth.fail'' \<and> s' = emit (hw_now w) e s))"
  using serve_denied [OF assms] unfolding denied_def .

lemma find_SomeD: "find P xs = Some x \<Longrightarrow> x \<in> set xs \<and> P x"
  by (auto simp: find_Some_iff)

lemma mux_handled: "mux m p = Handled e \<Longrightarrow> \<exists>pm. ((pm, p), e) \<in> set Routes \<and> method_matches pm m"
  by (fastforce simp: mux_def dest!: find_SomeD split: if_splits option.splits)

lemma routes_served: "list_all (\<lambda>((m, p), e). mux m p = Handled e) Routes"
  by code_simp

definition demo_http :: http_world where
  "demo_http =
     \<lparr>hw_now = 0, hw_agent_parse = (\<lambda>now key algs tok. None), hw_session_parse = (\<lambda>now key algs tok. None),
      hw_sign = (\<lambda>alg claims key. None), hw_date = id, hw_list_json = (\<lambda>b. None), hw_issue_json = (\<lambda>b. None),
      hw_exec_json = (\<lambda>b. None), hw_range = [], hw_uuid = ''u'', hw_exec_id = ''e'', hw_upgraded = True,
      hw_first = None, hw_addr = 7\<rparr>"

theorem unauthorised_request_harmless_witness:
  "\<exists>q s'. serve demo_http ((demo_request [])\<lparr>rq_Path := ''/agent/ws'', rq_Method := ''GET''\<rparr>) demo_server = (q, s') \<and>
     sv_reg s' = Registry_New \<and> status q \<noteq> Some 200"
proof -
  let ?r = "(demo_request [])\<lparr>rq_Path := ''/agent/ws'', rq_Method := ''GET''\<rparr>"
  obtain q s' where q: "serve demo_http ?r demo_server = (q, s')" by (rule prod.exhaust)
  have m: "mux ''GET'' ''/agent/ws'' = Handled AgentSocket" by code_simp
  then have "\<not> authorised demo_http ?r demo_server"
    by (simp add: authorised_def VerifyAgent_def demo_http_def)
  from unauthorised_request_harmless [OF this q] m have "sv_reg s' = sv_reg demo_server" "status q \<noteq> Some 200"
    by auto
  with q show ?thesis by (auto simp: demo_server_def)
qed

section \<open>The process\<close>

text \<open>
  What runs once \<open>main\<close> has started the forwarder and the listener: \<open>main\<close> itself, which waits for its context, and these
  two. \<open>os.Exit\<close> and the return of \<open>main\<close> end the process with a status, whatever still runs.
\<close>

datatype main_state = AwaitsCtx | ShutsDown time | Exited nat

record relay_proc =
  rp_addr :: string
  rp_tls :: "(string \<times> string) option"
  rp_ctx_done :: bool
  rp_listening :: bool
  rp_drain :: "drain option"
  rp_main :: main_state

definition relay_started :: "(string, string) gomap \<Rightarrow> Server \<Rightarrow> relay_proc" where
  "relay_started env s =
     (let cert = getenv ''RELAY_TLS_CERT'' env; key = getenv ''RELAY_TLS_KEY'' env in
      \<lparr>rp_addr = envDefault ''RELAY_LISTEN_ADDR'' '':8443'' env,
       rp_tls = (if cert \<noteq> [] \<and> key \<noteq> [] then Some (cert, key) else None),
       rp_ctx_done = False, rp_listening = True, rp_drain = map_option drain_start (lg_forwarder (sv_audit s)),
       rp_main = AwaitsCtx\<rparr>)"

definition relay_main :: "(string \<Rightarrow> file_read) \<Rightarrow> (string, string) gomap \<Rightarrow> nat + relay_proc" where
  "relay_main read env = map_sum id (relay_started (relay_env read env)) (relay_start read env)"

text \<open>
  \<open>ListenReturns True\<close> is an error of the listener other than \<open>ErrServerClosed\<close>, which only \<open>Shutdown\<close> causes.
  \<open>Shutdown\<close> returns when every request has been answered, at the latest when its context of 15 seconds ends.
\<close>

datatype relay_event =
    Signal
  | ListenReturns bool
  | Forwards drain_op
  | CtxObserved time
  | ShutdownReturns time

definition relay_step :: "relay_event \<Rightarrow> relay_proc \<Rightarrow> relay_proc option" where
  "relay_step e p =
     (case rp_main p of
        Exited code \<Rightarrow> None
      | m \<Rightarrow>
          (case e of
             Signal \<Rightarrow> Some (p\<lparr>rp_ctx_done := True\<rparr>)
           | ListenReturns failed \<Rightarrow>
               if rp_listening p \<and> (failed \<or> m \<noteq> AwaitsCtx)
               then Some (p\<lparr>rp_listening := False, rp_ctx_done := rp_ctx_done p \<or> failed\<rparr>)
               else None
           | Forwards op \<Rightarrow>
               if op = DDone \<and> \<not> rp_ctx_done p then None
               else map_option (\<lambda>d. p\<lparr>rp_drain := Some (Run_step op d)\<rparr>) (rp_drain p)
           | CtxObserved now \<Rightarrow>
               if m = AwaitsCtx \<and> rp_ctx_done p then Some (p\<lparr>rp_main := ShutsDown now\<rparr>) else None
           | ShutdownReturns now \<Rightarrow>
               (case m of
                  ShutsDown t \<Rightarrow> if now \<le> t + 15 * second then Some (p\<lparr>rp_main := Exited 0\<rparr>) else None
                | _ \<Rightarrow> None)))"

inductive relay_run :: "relay_proc \<Rightarrow> relay_event list \<Rightarrow> relay_proc \<Rightarrow> bool" where
  start: "relay_run p [] p"
| more: "relay_run p es q \<Longrightarrow> relay_step e q = Some r \<Longrightarrow> relay_run p (es @ [e]) r"

definition relay_inv :: "relay_event list \<Rightarrow> relay_proc \<Rightarrow> bool" where
  "relay_inv es p \<longleftrightarrow>
     (rp_ctx_done p \<longrightarrow> Signal \<in> set es \<or> ListenReturns True \<in> set es) \<and>
     (rp_main p = AwaitsCtx \<or> rp_ctx_done p) \<and> (\<forall>code. rp_main p = Exited code \<longrightarrow> code = 0)"

lemma relay_step_inv: "relay_inv es p \<Longrightarrow> relay_step e p = Some q \<Longrightarrow> relay_inv (es @ [e]) q"
  by (cases e; cases "rp_main p") (auto simp: relay_inv_def relay_step_def split: if_splits bool.splits)

lemma relay_run_inv: "relay_run p es q \<Longrightarrow> relay_inv [] p \<Longrightarrow> relay_inv es q"
  by (induction rule: relay_run.induct) (auto intro: relay_step_inv)

lemma relay_leaves:
  assumes "rp_ctx_done p" "\<forall>code. rp_main p \<noteq> Exited code"
  shows "\<exists>es q. length es \<le> 2 \<and> relay_run p es q \<and> rp_main q = Exited 0 \<and> rp_drain q = rp_drain p"
proof (cases "rp_main p")
  case AwaitsCtx
  then have "relay_step (CtxObserved 0) p = Some (p\<lparr>rp_main := ShutsDown 0\<rparr>)"
    using assms(1) by (simp add: relay_step_def)
  moreover have "relay_step (ShutdownReturns 0) (p\<lparr>rp_main := ShutsDown 0\<rparr>) = Some (p\<lparr>rp_main := Exited 0\<rparr>)"
    by (simp add: relay_step_def)
  ultimately have "relay_run p (([] @ [CtxObserved 0]) @ [ShutdownReturns 0]) (p\<lparr>rp_main := Exited 0\<rparr>)"
    by (blast intro: relay_run.intros)
  then show ?thesis by (intro exI [of _ "[CtxObserved 0, ShutdownReturns 0]"] exI [of _ "p\<lparr>rp_main := Exited 0\<rparr>"]) simp
next
  case (ShutsDown t)
  then have "relay_step (ShutdownReturns t) p = Some (p\<lparr>rp_main := Exited 0\<rparr>)"
    by (simp add: relay_step_def)
  then have "relay_run p ([] @ [ShutdownReturns t]) (p\<lparr>rp_main := Exited 0\<rparr>)" by (blast intro: relay_run.intros)
  then show ?thesis by (intro exI [of _ "[ShutdownReturns t]"] exI [of _ "p\<lparr>rp_main := Exited 0\<rparr>"]) simp
qed (use assms in simp)



end
