(* ===== verification/Spec2Isabelle.thy ===== *)
theory Spec2Isabelle
  imports Console RelayMain
begin

text \<open>
  Verification of Hasfy-Relay (Go): a relay that connects operators' consoles and a service to agents on devices,
  and the agent itself. Paths are under \<open>src/\<close>.

  The program. Agents dial the relay over a websocket with a token and register; the relay keeps them in a
  registry. Operators open a console with a session token the relay minted for Hasfy-App; a service call runs
  one command and waits for it. Both put frames on an agent's queue, and the agent's answers find their way
  back through a table of sessions. What crosses the relay is audited and redacted. The agent enrols itself, keeps
  a device key and a fresh token, reports inventory and metrics to Hasfy-App directly, runs commands, scripts and
  shells, and reconnects.

  Foundations.
    \<^item> \<open>Prelude\<close>, \<open>Containers\<close>: results and panics, package strings, Go maps, channels, 64-bit wrap-around and
      durations; the locales \<open>keyed_table\<close>, \<open>drop_queue\<close> and \<open>exclusive_table\<close>, which the registry's map and queues,
      the audit queue, the operators' queues, the session table and the shell table interpret.
    \<^item> \<open>Utf8\<close>, \<open>Strconv\<close>, \<open>Encoding\<close>, \<open>Sha256\<close>: the parts of Go's library the code computes with: runes and trimming,
      number formats, base64 and hex (locale \<open>codec\<close>), SHA-256 and HMAC.
    \<^item> \<open>Proto\<close>: \<open>internal/proto/frame.go\<close>, frames as records, pointers as options.

  The relay.
    \<^item> \<open>Registry\<close> (\<open>internal/registry\<close>): agents live in a heap because handlers keep pointers to replaced ones; every
      interleaving of the methods is a \<open>registry_step\<close>. It refines a finite map, and \<open>Send\<close> panics exactly on an agent
      that is gone.
    \<^item> \<open>Auth\<close> (\<open>internal/auth\<close>), \<open>Redact\<close> (\<open>internal/audit/redact.go\<close>, with the matcher of package regexp for the
      operators used), \<open>AuditLog\<close> (\<open>audit.go\<close>, \<open>forward.go\<close>: the forwarder as steps on its queue and batch).
    \<^item> \<open>Server\<close>, \<open>Router\<close>, \<open>Api\<close>, \<open>ExecApi\<close>, \<open>AgentWS\<close>, \<open>OperatorWS\<close> (\<open>internal/server\<close>): the state, request
      authentication, the session table, the service handlers split at the points where they wait, and the pumps
      of both kinds of socket as steps; \<open>main_ready\<close> says when the deadlines of a console can fire. \<open>Server\<close> also follows the
      forwarder's requests through their URL to a verifier.
    \<^item> \<open>EnvFile\<close>, \<open>RelayConfig\<close> (\<open>cmd/relay\<close>): environment files, secrets and start. \<open>EnvFile\<close> also has the agent's file
      handling. A call can fail, or the machine can stop before it, up to the deferred removal after the rename; it
      then loses any part of what was not synced, and perhaps the rename. Every replacement of a file is an instance of
      the locale \<open>file_update\<close>, and those that sync, of \<open>atomic_update\<close>; the status file is not one of these.
    \<^item> \<open>RelayMain\<close>: the route table and \<open>serve\<close>, any request through it to its handler, and the process of \<open>main\<close>: its
      listener, the forwarder and the shutdown as \<open>relay_step\<close>.

  The agent (\<open>cmd/agent\<close>).
    \<^item> \<open>AgentExec\<close> (\<open>exec.go\<close> from \<open>runExec\<close>, \<open>script.go\<close>, \<open>buffer.go\<close>), \<open>Pty\<close> (\<open>pty*.go\<close>, both pseudo-terminals
      behind the locale \<open>pty_master\<close>; starts and removals are single operations, and \<open>ninth_shell\<close> and \<open>removal_halves\<close> say
      what is between their halves), \<open>AgentLoop\<close> (\<open>runOnce\<close>: the goroutines of a connection as interleaved steps).
    \<^item> \<open>DeviceId\<close>, \<open>Token\<close>, \<open>Enroll\<close>, \<open>Inventory\<close>, \<open>Metrics\<close>: key, tokens, the device flow and the reporters. The
      locale \<open>reporter\<close> is the contract of the three loops that talk to Hasfy-App: they keep a pace, and a
      refusal ends them; the metrics reporter refines one with an unbounded log (\<open>log_round\<close>). \<open>Ticket\<close>: the ticket command.
    \<^item> \<open>AgentMain\<close> (\<open>main.go\<close>, \<open>service_windows.go\<close>): the start over the disk, the reconnect loop, the Windows service.

  \<open>System\<close> composes them: a service call from the request to the reply, what a frame carries, and output that does
  not fit the sockets' limit. \<open>Console\<close> is a terminal in both directions, from the operator's keys to the shell and back.

  How it is modelled. Whatever the program does not decide is an input: the clock, replies of servers, results of
  system calls (each may fail or the machine may stop), what a process prints, which goroutine runs next. State is
  passed explicitly; errors, panics and early returns are values. JSON text, the JWT library, Ed25519 and
  gopsutil are parameters. Machine integers are words or wrapped where the code can overflow.

  Loops. The loops over a queue, a list or a socket recurse over what they read. \<open>runSelfEnrollment\<close> and its polling
  may run for ever and are partial functions into options; \<open>poll_terminates\<close> shows that polling returns once
  the clock passes the code's lifetime, \<open>enrollment_completes\<close> and \<open>fresh_device_resumes\<close> that an approval ends the
  flow after any number of lapsed codes. The reporters and the reconnect loop run over any finite list of
  rounds (\<open>cycles\<close>). No fuel is used.

  Not modelled: TLS and HTTP below the handlers, how \<open>Shutdown\<close> drains connections, log lines, JSON text, the
  websocket library beyond its read limit, and the operating system behind the pseudo-terminals. Packaging and
  the release pipeline are not Go code of the program.
\<close>

end
